(* ===== verification/Prelude.thy ===== *)
theory Prelude
  imports Main "HOL-Library.Word"
begin

text \<open>
  Shared vocabulary of the development: Rust's machine integers with the operations the daemon
  uses (\<open>saturating_add\<close>, \<open>saturating_mul\<close>, \<open>checked_shl\<close>, additions that panic on overflow),
  durations and instants, the two kinds of failure (a \<open>Result\<close> is a sum with the error on the
  left, a panic is the constructor \<open>Panic\<close> of \<open>exec\<close>), and the lemmas on them that the component
  theories share.

  Integers are words of their Rust width; an \<open>i64\<close> is a \<open>64 word\<close> read by \<open>sint\<close>. The release
  profile in \<open>Cargo.toml\<close> sets \<open>overflow-checks = true\<close>, so a plain \<open>+\<close> that overflows panics
  in every build; \<open>checked_plus\<close> models it. A \<open>String\<close> is the \<open>string\<close> of its UTF-8 bytes.
  A \<open>Duration\<close> is its number of nanoseconds and an \<open>Instant\<close> the nanoseconds since some origin,
  both unbounded.
\<close>

named_theorems rust_arith \<open>facts that read a Rust integer operation as one on natural numbers\<close>
named_theorems step_simps \<open>unfolding rules of the step functions of the polling loops\<close>

type_synonym u8 = "8 word"
type_synonym u16 = "16 word"
type_synonym u32 = "32 word"
type_synonym u64 = "64 word"
type_synonym i64 = "64 word"
type_synonym usize = "64 word"
type_synonym bytes = "8 word list"
type_synonym duration = nat
type_synonym instant = nat
type_synonym 'a result = "string + 'a"

datatype 'a exec = Return 'a | Panic

subsection \<open>Integer operations\<close>

definition saturating_add :: "'a::len word \<Rightarrow> 'a word \<Rightarrow> 'a word" where
  "saturating_add x y = (if unat x + unat y < 2 ^ LENGTH('a) then x + y else - 1)"

definition saturating_mul :: "'a::len word \<Rightarrow> 'a word \<Rightarrow> 'a word" where
  "saturating_mul x y = (if unat x * unat y < 2 ^ LENGTH('a) then x * y else - 1)"

definition checked_shl :: "'a::len word \<Rightarrow> u32 \<Rightarrow> 'a word option" where
  "checked_shl x n = (if unat n < LENGTH('a) then Some (push_bit (unat n) x) else None)"

definition checked_plus :: "'a::len word \<Rightarrow> 'a word \<Rightarrow> 'a word exec" where
  "checked_plus x y = (if unat x + unat y < 2 ^ LENGTH('a) then Return (x + y) else Panic)"

definition clamp :: "u64 \<Rightarrow> u64 \<Rightarrow> u64 \<Rightarrow> u64" where
  "clamp v low high = (if v < low then low else if high < v then high else v)"

text \<open>For evaluation the comparisons are made on binary integers.\<close>

lemma checked_plus_code [code]:
  "checked_plus x y = (if uint x + uint y < 2 ^ LENGTH('a) then Return (x + y) else Panic)"
  for x y :: "'a::len word"
proof -
  have "unat x + unat y < 2 ^ LENGTH('a) \<longleftrightarrow> int (unat x + unat y) < int (2 ^ LENGTH('a))"
    by (simp only: of_nat_less_iff)
  then show ?thesis by (simp add: checked_plus_def)
qed

lemma unat_max_word: "unat (- 1 :: 'a::len word) = 2 ^ LENGTH('a) - 1"
  by (simp add: unsigned_minus_1_eq_mask mask_eq_exp_minus_1)

lemma unat_add_fits: "unat (x + y) = unat x + unat y"
  if "unat x + unat y < 2 ^ LENGTH('a)" for x y :: "'a::len word"
  using that by (simp add: unat_word_ariths)

lemma unat_mult_fits: "unat (x * y) = unat x * unat y"
  if "unat x * unat y < 2 ^ LENGTH('a)" for x y :: "'a::len word"
  using that by (simp add: unat_word_ariths)

lemma unat_saturating_add [rust_arith]:
  "unat (saturating_add x y) = min (unat x + unat y) (2 ^ LENGTH('a) - 1)"
  for x y :: "'a::len word"
proof (cases "unat x + unat y < 2 ^ LENGTH('a)")
  case True
  then have "unat x + unat y \<le> 2 ^ LENGTH('a) - 1" by linarith
  with True show ?thesis by (simp add: saturating_add_def unat_add_fits min_absorb1)
next
  case False
  then show ?thesis by (simp add: saturating_add_def unat_max_word min_absorb2)
qed

lemma unat_saturating_mul [rust_arith]:
  "unat (saturating_mul x y) = min (unat x * unat y) (2 ^ LENGTH('a) - 1)"
  for x y :: "'a::len word"
proof (cases "unat x * unat y < 2 ^ LENGTH('a)")
  case True
  then have "unat x * unat y \<le> 2 ^ LENGTH('a) - 1" by linarith
  with True show ?thesis by (simp add: saturating_mul_def unat_mult_fits min_absorb1)
next
  case False
  then show ?thesis by (simp add: saturating_mul_def unat_max_word min_absorb2)
qed

lemma unat_min_word [rust_arith]: "unat (min x y) = min (unat x) (unat y)"
  for x y :: "'a::len word"
  by (simp add: min_def word_le_nat_alt)

lemma checked_plus_Return_iff [rust_arith]:
  "checked_plus x y = Return z \<longleftrightarrow> unat z = unat x + unat y"
  for x y :: "'a::len word"
proof (cases "unat x + unat y < 2 ^ LENGTH('a)")
  case True
  then show ?thesis by (auto simp: checked_plus_def word_unat_eq_iff unat_add_fits)
next
  case False
  moreover have "unat z < 2 ^ LENGTH('a)" by (rule unsigned_less)
  ultimately have "unat z \<noteq> unat x + unat y" by linarith
  with False show ?thesis by (simp add: checked_plus_def)
qed

lemma checked_plus_Panic_iff:
  "checked_plus x y = Panic \<longleftrightarrow> 2 ^ LENGTH('a) \<le> unat x + unat y"
  for x y :: "'a::len word"
  by (simp add: checked_plus_def)

lemma unat_of_nat_fits: "n < 2 ^ LENGTH('a) \<Longrightarrow> unat (of_nat n :: 'a::len word) = n"
  by (simp add: unat_of_nat)

lemma of_nat_word_0_iff: "n < 2 ^ LENGTH('a) \<Longrightarrow> (of_nat n :: 'a::len word) = 0 \<longleftrightarrow> n = 0"
proof -
  assume n: "n < 2 ^ LENGTH('a)"
  have "unat (of_nat n :: 'a word) = 0 \<longleftrightarrow> n = 0"
    by (simp only: unat_of_nat_fits [OF n])
  then show ?thesis by (simp add: unat_eq_0)
qed

subsection \<open>Loops that may panic\<close>

text \<open>A \<open>for\<close> loop over a list whose body may panic; a panic ends the loop.\<close>

fun fold_exec :: "('x \<Rightarrow> 's \<Rightarrow> 's exec) \<Rightarrow> 'x list \<Rightarrow> 's \<Rightarrow> 's exec" where
  "fold_exec body [] s = Return s"
| "fold_exec body (x # xs) s =
     (case body x s of Panic \<Rightarrow> Panic | Return s' \<Rightarrow> fold_exec body xs s')"

lemma fold_exec_append:
  "fold_exec body (xs @ ys) s =
     (case fold_exec body xs s of Panic \<Rightarrow> Panic | Return s' \<Rightarrow> fold_exec body ys s')"
  by (induction xs arbitrary: s) (auto split: exec.splits)

text \<open>A loop invariant that speaks of the elements already visited.\<close>

lemma fold_exec_invariant:
  assumes "fold_exec body xs s = Return s'" and "I [] s"
    and "\<And>ys x t t'. \<lbrakk>set ys \<subseteq> set xs; x \<in> set xs; I ys t; body x t = Return t'\<rbrakk> \<Longrightarrow> I (ys @ [x]) t'"
  shows "I xs s'"
  using assms
proof (induction xs arbitrary: s' rule: rev_induct)
  case (snoc x xs)
  from snoc.prems(1) obtain t where
    "fold_exec body xs s = Return t" "body x t = Return s'"
    by (auto simp: fold_exec_append split: exec.splits)
  moreover have "I xs t"
  proof (rule snoc.IH [OF calculation(1) snoc.prems(2)])
    show "I (ys @ [y]) u'"
      if "set ys \<subseteq> set xs" "y \<in> set xs" "I ys u" "body y u = Return u'" for ys y u u'
      using that by (intro snoc.prems(3) [of ys y u u']) auto
  qed
  ultimately show ?case using snoc.prems(3) [of xs x t s'] by auto
qed simp

lemma fold_exec_returns:
  assumes "I [] s"
    and "\<And>ys x t. \<lbrakk>set ys \<subseteq> set xs; length ys < length xs; x \<in> set xs; I ys t\<rbrakk>
           \<Longrightarrow> \<exists>t'. body x t = Return t' \<and> I (ys @ [x]) t'"
  shows "\<exists>s'. fold_exec body xs s = Return s' \<and> I xs s'"
  using assms
proof (induction xs rule: rev_induct)
  case (snoc x xs)
  have "\<exists>t. fold_exec body xs s = Return t \<and> I xs t"
  proof (rule snoc.IH [OF snoc.prems(1)])
    show "\<exists>u'. body y u = Return u' \<and> I (ys @ [y]) u'"
      if "set ys \<subseteq> set xs" "length ys < length xs" "y \<in> set xs" "I ys u" for ys y u
      using that by (intro snoc.prems(2) [of ys y u]) auto
  qed
  then show ?case
    using snoc.prems(2) [of xs x] by (fastforce simp: fold_exec_append)
qed simp

subsection \<open>Steps that may panic\<close>

text \<open>A step after another, an assertion, and \<open>expect\<close> or \<open>unwrap\<close> of a \<open>Result\<close>.\<close>

definition exec_bind :: "'a exec \<Rightarrow> ('a \<Rightarrow> 'b exec) \<Rightarrow> 'b exec" where
  "exec_bind m f = (case m of Panic \<Rightarrow> Panic | Return x \<Rightarrow> f x)"

definition ensure :: "bool \<Rightarrow> unit exec" where
  "ensure b = (if b then Return () else Panic)"

definition expect :: "'a result \<Rightarrow> 'a exec" where
  "expect r = (case r of Inl e \<Rightarrow> Panic | Inr x \<Rightarrow> Return x)"

lemma exec_bind_simps [simp]: "exec_bind (Return x) f = f x" "exec_bind Panic f = Panic"
  by (simp_all add: exec_bind_def)

lemma exec_bind_Return_iff: "exec_bind m f = Return y \<longleftrightarrow> (\<exists>x. m = Return x \<and> f x = Return y)"
  by (simp add: exec_bind_def split: exec.splits)

lemma exec_step_simps [simp]:
  "ensure True = Return ()" "ensure False = Panic"
  "expect (Inr x) = Return x" "expect (Inl e) = Panic"
  by (simp_all add: ensure_def expect_def)

lemma expect_Return [simp]: "expect r = Return x \<longleftrightarrow> r = Inr x"
  by (simp add: expect_def split: sum.splits)

subsection \<open>Durations\<close>

definition from_secs :: "u64 \<Rightarrow> duration" where
  "from_secs s = unat s * 1000000000"

definition from_millis :: "u64 \<Rightarrow> duration" where
  "from_millis ms = unat ms * 1000000"

definition as_millis :: "duration \<Rightarrow> nat" where
  "as_millis d = d div 1000000"

lemma from_secs_le_iff [simp]: "from_secs a \<le> from_secs b \<longleftrightarrow> a \<le> b"
  by (simp add: from_secs_def word_le_nat_alt)

lemma as_millis_from_secs: "as_millis (from_secs s) = unat s * 1000"
proof -
  have "unat s * 1000000000 = (unat s * 1000) * (1000000::nat)" by simp
  then show ?thesis
    unfolding as_millis_def from_secs_def by simp
qed

subsection \<open>Results and options\<close>

definition ok_or :: "'a option \<Rightarrow> string \<Rightarrow> 'a result" where
  "ok_or x e = (case x of Some v \<Rightarrow> Inr v | None \<Rightarrow> Inl e)"

lemma ok_or_simps [simp]: "ok_or (Some v) e = Inr v" "ok_or None e = Inl e"
  by (simp_all add: ok_or_def)

fun keep_ok :: "('e + 'a) list \<Rightarrow> 'a list" where
  "keep_ok [] = []"
| "keep_ok (Inl e # rs) = keep_ok rs"
| "keep_ok (Inr x # rs) = x # keep_ok rs"

lemma keep_ok_append [simp]: "keep_ok (xs @ ys) = keep_ok xs @ keep_ok ys"
  by (induction xs rule: keep_ok.induct) auto

lemma length_keep_ok: "length (keep_ok xs) \<le> length xs"
  by (induction xs rule: keep_ok.induct) auto

lemma set_keep_ok: "x \<in> set (keep_ok rs) \<longleftrightarrow> Inr x \<in> set rs"
  by (induction rs rule: keep_ok.induct) auto

end
