(* ===== verification/Handshake.thy ===== *)
theory Handshake
  imports Prelude
begin

text \<open>
  The two tasks of a worker and what connects them: \<open>create_job\<close>, \<open>send_tick_and_wait\<close> and
  \<open>launch_job_scheduler\<close> of \<open>src/src/transaction.rs\<close>, and their counterparts in \<open>src/src/wallet.rs\<close>.
  The poller puts a tick, with a one-shot acknowledgement, into a channel of capacity one and waits for
  the acknowledgement; the processor takes one tick after another and acknowledges each. Both tasks
  run concurrently and either may be descheduled at any point: \<open>worker_step\<close> is one step of either.
  The specification is a sequential worker, \<open>spec_step\<close>, and the concurrent one refines it.
\<close>

subsection \<open>The concurrent worker\<close>

datatype dispatch_error = ReceiverGone | AckGone

datatype 't poller_phase = Polling | Sending 't | AwaitingAck | PollerStopped dispatch_error

datatype 't processor_phase = Receiving | Handling 't | ProcessorGone

text \<open>The one-shot channel of the tick last sent: nothing yet, the outcome, or its sender is dropped.\<close>

datatype 'o ack_slot = NoAck | AckSent 'o | AckDrop

record ('t, 'o) worker =
  poller :: "'t poller_phase"
  channel :: "'t option"
  processor_task :: "'t processor_phase"
  ack_slot :: "'o ack_slot"

definition new_worker :: "('t, 'o) worker" where
  "new_worker = \<lparr>poller = Polling, channel = None, processor_task = Receiving, ack_slot = NoAck\<rparr>"

text \<open>What can be seen of a step.\<close>

datatype ('t, 'o) worker_event = Fetch | Offer 't | Put 't | Receive 't | Finish 't 'o | Acked 'o
  | Crash | Stop dispatch_error

inductive worker_step :: "('t, 'o) worker \<Rightarrow> ('t, 'o) worker_event \<Rightarrow> ('t, 'o) worker \<Rightarrow> bool" where
  fetch: "poller w = Polling \<Longrightarrow> worker_step w Fetch w"
| offer: "poller w = Polling \<Longrightarrow> worker_step w (Offer t) (w\<lparr>poller := Sending t\<rparr>)"
| put: "\<lbrakk>poller w = Sending t; channel w = None; processor_task w \<noteq> ProcessorGone\<rbrakk>
    \<Longrightarrow> worker_step w (Put t) (w\<lparr>poller := AwaitingAck, channel := Some t, ack_slot := NoAck\<rparr>)"
| gone: "\<lbrakk>poller w = Sending t; processor_task w = ProcessorGone\<rbrakk>
    \<Longrightarrow> worker_step w (Stop ReceiverGone) (w\<lparr>poller := PollerStopped ReceiverGone\<rparr>)"
| receive: "\<lbrakk>processor_task w = Receiving; channel w = Some t\<rbrakk>
    \<Longrightarrow> worker_step w (Receive t) (w\<lparr>channel := None, processor_task := Handling t\<rparr>)"
| finish: "processor_task w = Handling t
    \<Longrightarrow> worker_step w (Finish t out) (w\<lparr>processor_task := Receiving, ack_slot := AckSent out\<rparr>)"
| crash: "processor_task w \<noteq> ProcessorGone
    \<Longrightarrow> worker_step w Crash (w\<lparr>processor_task := ProcessorGone, channel := None,
          ack_slot := (if channel w = None \<and> processor_task w = Receiving then ack_slot w
                       else AckDrop)\<rparr>)"
| acked: "\<lbrakk>poller w = AwaitingAck; ack_slot w = AckSent out\<rbrakk>
    \<Longrightarrow> worker_step w (Acked out) (w\<lparr>poller := Polling, ack_slot := NoAck\<rparr>)"
| dropped: "\<lbrakk>poller w = AwaitingAck; ack_slot w = AckDrop\<rbrakk>
    \<Longrightarrow> worker_step w (Stop AckGone) (w\<lparr>poller := PollerStopped AckGone\<rparr>)"

inductive_cases worker_stepE:
  "worker_step w Fetch w'" "worker_step w (Offer t) w'" "worker_step w (Put t) w'"
  "worker_step w (Receive t) w'" "worker_step w (Finish t out) w'" "worker_step w (Acked out) w'"
  "worker_step w Crash w'" "worker_step w (Stop e) w'"

inductive worker_run :: "('t, 'o) worker_event list \<Rightarrow> ('t, 'o) worker \<Rightarrow> bool" where
  start: "worker_run [] new_worker"
| step: "\<lbrakk>worker_run events w; worker_step w e w'\<rbrakk> \<Longrightarrow> worker_run (events @ [e]) w'"

subsection \<open>The sequential worker\<close>

text \<open>It polls, sends a tick, handles it, reads the outcome, and polls again; a crash loses the tick in
  hand, if any, and the next thing the poller finds out is that.\<close>

datatype ('t, 'o) spec = Between | Offered 't | Queued 't | Working 't | Done 'o | Lost
  | CrashedBetween | CrashedOffered 't | CrashedDone 'o | Over dispatch_error

fun spec_step :: "('t, 'o) spec \<Rightarrow> ('t, 'o) worker_event \<Rightarrow> ('t, 'o) spec option" where
  "spec_step Between e =
     (case e of Fetch \<Rightarrow> Some Between | Offer t \<Rightarrow> Some (Offered t) | Crash \<Rightarrow> Some CrashedBetween
      | _ \<Rightarrow> None)"
| "spec_step (Offered t) e =
     (case e of Put t' \<Rightarrow> if t' = t then Some (Queued t) else None | Crash \<Rightarrow> Some (CrashedOffered t)
      | _ \<Rightarrow> None)"
| "spec_step (Queued t) e =
     (case e of Receive t' \<Rightarrow> if t' = t then Some (Working t) else None | Crash \<Rightarrow> Some Lost | _ \<Rightarrow> None)"
| "spec_step (Working t) e =
     (case e of Finish t' out \<Rightarrow> if t' = t then Some (Done out) else None | Crash \<Rightarrow> Some Lost | _ \<Rightarrow> None)"
| "spec_step (Done out) e =
     (case e of Acked out' \<Rightarrow> if out' = out then Some Between else None | Crash \<Rightarrow> Some (CrashedDone out)
      | _ \<Rightarrow> None)"
| "spec_step Lost e = (case e of Stop AckGone \<Rightarrow> Some (Over AckGone) | _ \<Rightarrow> None)"
| "spec_step CrashedBetween e =
     (case e of Fetch \<Rightarrow> Some CrashedBetween | Offer t \<Rightarrow> Some (CrashedOffered t) | _ \<Rightarrow> None)"
| "spec_step (CrashedOffered t) e =
     (case e of Stop ReceiverGone \<Rightarrow> Some (Over ReceiverGone) | _ \<Rightarrow> None)"
| "spec_step (CrashedDone out) e =
     (case e of Acked out' \<Rightarrow> if out' = out then Some CrashedBetween else None | _ \<Rightarrow> None)"
| "spec_step (Over err) e = None"

fun spec_run :: "('t, 'o) spec \<Rightarrow> ('t, 'o) worker_event list \<Rightarrow> ('t, 'o) spec option" where
  "spec_run s [] = Some s"
| "spec_run s (e # events) = (case spec_step s e of None \<Rightarrow> None | Some s' \<Rightarrow> spec_run s' events)"

lemma spec_run_append:
  "spec_run s (xs @ ys) = (case spec_run s xs of None \<Rightarrow> None | Some s' \<Rightarrow> spec_run s' ys)"
  by (induction xs arbitrary: s) (auto split: option.splits)

subsection \<open>The simulation\<close>

text \<open>The states of the concurrent worker that stand for a state of the specification.\<close>

inductive stands_for :: "('t, 'o) worker \<Rightarrow> ('t, 'o) spec \<Rightarrow> bool" where
  "stands_for \<lparr>poller = Polling, channel = None, processor_task = Receiving, ack_slot = a\<rparr> Between"
| "stands_for \<lparr>poller = Sending t, channel = None, processor_task = Receiving, ack_slot = a\<rparr> (Offered t)"
| "stands_for \<lparr>poller = AwaitingAck, channel = Some t, processor_task = Receiving, ack_slot = NoAck\<rparr> (Queued t)"
| "stands_for \<lparr>poller = AwaitingAck, channel = None, processor_task = Handling t, ack_slot = NoAck\<rparr> (Working t)"
| "stands_for \<lparr>poller = AwaitingAck, channel = None, processor_task = Receiving, ack_slot = AckSent out\<rparr> (Done out)"
| "stands_for \<lparr>poller = AwaitingAck, channel = None, processor_task = ProcessorGone, ack_slot = AckDrop\<rparr> Lost"
| "stands_for \<lparr>poller = Polling, channel = None, processor_task = ProcessorGone, ack_slot = a\<rparr> CrashedBetween"
| "stands_for \<lparr>poller = Sending t, channel = None, processor_task = ProcessorGone, ack_slot = a\<rparr> (CrashedOffered t)"
| "stands_for \<lparr>poller = AwaitingAck, channel = None, processor_task = ProcessorGone, ack_slot = AckSent out\<rparr> (CrashedDone out)"
| "stands_for \<lparr>poller = PollerStopped e, channel = None, processor_task = ProcessorGone, ack_slot = a\<rparr> (Over e)"

lemma stands_for_start: "stands_for new_worker Between"
  by (simp add: new_worker_def stands_for.intros)

lemma simulation:
  assumes "worker_step w e w'" and "stands_for w s"
  shows "\<exists>s'. spec_step s e = Some s' \<and> stands_for w' s'"
  using assms
  by (cases rule: worker_step.cases) (auto elim!: stands_for.cases intro: stands_for.intros)

lemma run_refines: "worker_run events w \<Longrightarrow> \<exists>s. spec_run Between events = Some s \<and> stands_for w s"
proof (induction rule: worker_run.induct)
  case start
  then show ?case using stands_for_start by auto
next
  case (step events w e w')
  then obtain s where s: "spec_run Between events = Some s" "stands_for w s" by blast
  from simulation [OF step.hyps(2) s(2)] s(1) show ?case
    by (auto simp: spec_run_append)
qed

text \<open>
  C17: The two tasks with their channel and one-shot acknowledgement behave as one sequential worker:
  whatever the interleaving of the poller and the processor, and wherever the processor dies, what can
  be seen is a run of the specification, which polls, hands over one tick, handles it, reads its
  outcome and only then polls again.
\<close>

theorem handshake_refines_sequential_worker:
  assumes "worker_run events w"
  shows "\<exists>s. spec_run Between events = Some s \<and> stands_for w s"
  using assms by (rule run_refines)

lemma tick_in_hand:
  "\<lbrakk>spec_run s events = Some s'; spec_step s' Fetch \<noteq> None\<rbrakk> \<Longrightarrow>
     (\<forall>out. s \<in> {Done out, CrashedDone out} \<longrightarrow> Acked out \<in> set events)
     \<and> (\<forall>t. s \<in> {Queued t, Working t} \<longrightarrow>
          (\<exists>out. Finish t out \<in> set events \<and> Acked out \<in> set events))"
proof (induction events arbitrary: s)
  case Nil
  then show ?case by auto
next
  case (Cons e events)
  then obtain s1 where s1: "spec_step s e = Some s1" "spec_run s1 events = Some s'"
    by (auto split: option.splits)
  have stuck: "spec_run s1 events = Some s' \<Longrightarrow> spec_step s' Fetch = None" if "s1 = Lost \<or> (\<exists>x. s1 = Over x)"
    using that
  proof (induction events arbitrary: s1)
    case (Cons e' events)
    then show ?case
      by (cases s1; cases e') (auto split: option.splits if_splits dispatch_error.splits)
  qed auto
  note IH = Cons.IH [OF s1(2) Cons.prems(2)]
  from s1(1) stuck s1(2) Cons.prems(2) IH show ?case
    by (cases s; cases e) (auto split: if_splits)
qed

text \<open>
  No page is requested while a tick is in hand. Between the moment a tick enters the channel and
  the next request, the processor finishes that very tick and the poller reads the outcome it
  finished with: no transaction is fetched again while its batch is still being signed or submitted.
\<close>

theorem no_fetch_while_tick_in_hand:
  assumes "worker_run (before @ Put t # between @ Fetch # after) w"
  shows "\<exists>out. Finish t out \<in> set between \<and> Acked out \<in> set between"
proof -
  obtain s where "spec_run Between (before @ Put t # between @ Fetch # after) = Some s"
    using run_refines [OF assms] by blast
  then obtain s0 s1 s2 where "spec_step s0 (Put t) = Some s1" "spec_run s1 between = Some s2"
    "spec_step s2 Fetch \<noteq> None"
    by (auto simp: spec_run_append split: option.splits)
  moreover from this(1) have "s1 = Queued t"
    by (cases s0) (auto split: if_splits)
  ultimately show ?thesis using tick_in_hand by blast
qed

text \<open>
  The handshake never deadlocks: in every reachable state, a worker whose poller has not stopped has
  a next step other than a crash, whatever the handler returns; and the poller stops only when the
  processor is gone.
\<close>

lemma handshake_never_deadlocks:
  assumes "worker_run events w"
  shows "if (\<exists>e. poller w = PollerStopped e) then processor_task w = ProcessorGone
       else \<exists>e w'. e \<noteq> Crash \<and> worker_step w e w'"
proof -
  obtain s where "stands_for w s" using run_refines [OF assms] by blast
  then show ?thesis
  proof cases
    case 1 then show ?thesis using fetch [of w] by auto
  next
    case (2 t a) then show ?thesis using put [of w t] by auto
  next
    case (3 t) then show ?thesis using receive [of w t] by auto
  next
    case (4 t) then show ?thesis using finish [of w t] by auto
  next
    case (5 out) then show ?thesis using acked [of w out] by auto
  next
    case 6 then show ?thesis using dropped [of w] by auto
  next
    case 7 then show ?thesis using fetch [of w] by auto
  next
    case (8 t a) then show ?thesis using gone [of w t] by auto
  next
    case (9 out) then show ?thesis using acked [of w out] by auto
  qed auto
qed

subsection \<open>A run\<close>

definition sample_events :: "(nat, bool) worker_event list" where
  "sample_events = [Fetch, Offer 7, Put 7, Receive 7, Finish 7 True, Acked True, Fetch]"

lemma sample_run: "\<exists>w. worker_run sample_events w"
proof -
  have runs: "\<lbrakk>worker_run es w; worker_step w e w'\<rbrakk> \<Longrightarrow> worker_run (es @ [e]) w'" for es w e w'
    by (rule step)
  let ?w = "\<lambda>p c q a. \<lparr>poller = p, channel = c, processor_task = q, ack_slot = a\<rparr>"
  have "worker_run ([] @ [Fetch]) (?w Polling None Receiving NoAck :: (nat, bool) worker)"
    by (rule runs [OF start]) (simp add: new_worker_def fetch)
  note r = runs [OF this]
  have "worker_run [Fetch, Offer 7] (?w (Sending 7) None Receiving NoAck :: (nat, bool) worker)"
    using r [of "Offer 7"] offer [of "?w Polling None Receiving NoAck" 7] by simp
  note r = runs [OF this]
  have "worker_run [Fetch, Offer 7, Put 7] (?w AwaitingAck (Some 7) Receiving NoAck :: (nat, bool) worker)"
    using r [of "Put 7"] put [of "?w (Sending 7) None Receiving NoAck" 7] by simp
  note r = runs [OF this]
  have "worker_run [Fetch, Offer 7, Put 7, Receive 7]
      (?w AwaitingAck None (Handling 7) NoAck :: (nat, bool) worker)"
    using r [of "Receive 7"] receive [of "?w AwaitingAck (Some 7) Receiving NoAck" 7] by simp
  note r = runs [OF this]
  have "worker_run [Fetch, Offer 7, Put 7, Receive 7, Finish 7 True]
      (?w AwaitingAck None Receiving (AckSent True) :: (nat, bool) worker)"
    using r [of "Finish 7 True"] finish [of "?w AwaitingAck None (Handling 7) NoAck" 7 True] by simp
  note r = runs [OF this]
  have "worker_run [Fetch, Offer 7, Put 7, Receive 7, Finish 7 True, Acked True]
      (?w Polling None Receiving NoAck :: (nat, bool) worker)"
    using r [of "Acked True"] acked [of "?w AwaitingAck None Receiving (AckSent True)" True] by simp
  note r = runs [OF this]
  show ?thesis
    using r [of Fetch] fetch [of "?w Polling None Receiving NoAck"]
    unfolding sample_events_def by fastforce
qed

lemma handshake_refines_sequential_worker_witness:
  "\<exists>w s. worker_run sample_events w \<and> spec_run Between sample_events = Some s \<and> stands_for w s"
  using sample_run handshake_refines_sequential_worker by blast

lemma no_fetch_while_tick_in_hand_witness:
  "\<exists>out. Finish 7 out \<in> set [Receive 7, Finish (7::nat) True, Acked True]
     \<and> Acked out \<in> set [Receive 7, Finish (7::nat) True, Acked True]"
proof -
  obtain w where "worker_run ([Fetch, Offer (7::nat)] @ Put 7 # [Receive 7, Finish 7 True, Acked True] @ Fetch # []) w"
    using sample_run by (auto simp: sample_events_def)
  then show ?thesis by (rule no_fetch_while_tick_in_hand)
qed

lemma handshake_never_deadlocks_witness:
  "\<exists>w. worker_run sample_events w
     \<and> (if (\<exists>e. poller w = PollerStopped e) then processor_task w = ProcessorGone
        else \<exists>e w'. e \<noteq> Crash \<and> worker_step w e w')"
  using sample_run handshake_never_deadlocks by blast

end
