(* ===== verification/Acked_Loop.thy ===== *)
theory Acked_Loop
  imports Handshake
begin

text \<open>
  A polling loop and the processor it hands its ticks to, composed. By
  \<open>handshake_refines_sequential_worker\<close> the two tasks behave as one sequential worker, so one
  iteration of the composition is: the loop runs up to its tick, the processor handles the tick, the
  loop goes on with the acknowledgement. The model of a poller takes the acknowledgement as an
  argument; \<open>reads_ack\<close> states what makes that a model of waiting for it: an iteration that sends no
  tick does not read it, one that does sends one tick, the same whatever the acknowledgement, and the
  loop ends exactly when that tick is not answered. It is the law of the locale \<open>acked_poller\<close>, which
  both workers interpret.
\<close>

subsection \<open>The processor's side\<close>

text \<open>What becomes of a tick: the processor is gone, it panics on the tick and drops the
  acknowledgement, or it answers. \<open>None\<close> is a processor that is gone.\<close>

fun answer_tick ::
    "('v \<Rightarrow> 't \<Rightarrow> 'p \<Rightarrow> ('p \<times> 'r) exec) \<Rightarrow> 'v \<Rightarrow> 't \<Rightarrow> 'p option
     \<Rightarrow> (dispatch_error + 'r) \<times> 'p option" where
  "answer_tick handle env tick None = (Inl ReceiverGone, None)"
| "answer_tick handle env tick (Some p) =
     (case handle env tick p of
        Panic \<Rightarrow> (Inl AckGone, None)
      | Return (p', report) \<Rightarrow> (Inr report, Some p'))"

fun handle_all ::
    "('v \<Rightarrow> 't \<Rightarrow> 'p \<Rightarrow> ('p \<times> 'r) exec) \<Rightarrow> ('v \<times> 't) list \<Rightarrow> 'p \<Rightarrow> ('p \<times> 'r list) exec" where
  "handle_all handle [] p = Return (p, [])"
| "handle_all handle ((env, tick) # ticks) p =
     (case handle env tick p of
        Panic \<Rightarrow> Panic
      | Return (p1, report) \<Rightarrow>
          (case handle_all handle ticks p1 of
             Panic \<Rightarrow> Panic
           | Return (p2, reports) \<Rightarrow> Return (p2, report # reports)))"

subsection \<open>The composition\<close>

text \<open>\<open>poll ack i s\<close> is an iteration of the loop, \<open>ticks_in\<close> finds the ticks among its actions and
  \<open>ack_of\<close> turns what became of a tick into what the loop reads.\<close>

definition acked_iteration ::
    "('k \<Rightarrow> 'i \<Rightarrow> 's \<Rightarrow> 'a list \<times> ('e + 's)) \<Rightarrow> ('a list \<Rightarrow> 't list) \<Rightarrow> (dispatch_error + 'r \<Rightarrow> 'k)
     \<Rightarrow> ('v \<Rightarrow> 't \<Rightarrow> 'p \<Rightarrow> ('p \<times> 'r) exec) \<Rightarrow> 'i \<times> 'v \<Rightarrow> 's \<times> 'p option
     \<Rightarrow> ('k \<times> 'a list \<times> 'r list) \<times> ('e + 's) \<times> 'p option" where
  "acked_iteration poll ticks_in ack_of handle = (\<lambda>(i, env) (s, proc).
     (let unanswered = ack_of (Inl AckGone)
      in case ticks_in (fst (poll unanswered i s)) of
           [] \<Rightarrow> (let (actions, r) = poll unanswered i s in ((unanswered, actions, []), r, proc))
         | tick # _ \<Rightarrow>
             (let (answer, proc') = answer_tick handle env tick proc;
                  (actions, r) = poll (ack_of answer) i s
              in ((ack_of answer, actions, case answer of Inl e \<Rightarrow> [] | Inr report \<Rightarrow> [report]),
                  r, proc'))))"

text \<open>The iterations until the inputs end or the loop does, with what each read and did.\<close>

fun acked_run ::
    "('k \<Rightarrow> 'i \<Rightarrow> 's \<Rightarrow> 'a list \<times> ('e + 's)) \<Rightarrow> ('a list \<Rightarrow> 't list) \<Rightarrow> (dispatch_error + 'r \<Rightarrow> 'k)
     \<Rightarrow> ('v \<Rightarrow> 't \<Rightarrow> 'p \<Rightarrow> ('p \<times> 'r) exec) \<Rightarrow> ('i \<times> 'v) list \<Rightarrow> 's \<times> 'p option
     \<Rightarrow> ('k \<times> 'a list \<times> 'r list) list \<times> ('e + 's) \<times> 'p option" where
  "acked_run poll ticks_in ack_of handle [] (s, proc) = ([], Inr s, proc)"
| "acked_run poll ticks_in ack_of handle (x # xs) (s, proc) =
     (case acked_iteration poll ticks_in ack_of handle x (s, proc) of
        (done, Inl e, proc') \<Rightarrow> ([done], Inl e, proc')
      | (done, Inr s', proc') \<Rightarrow>
          (let (rest, final) = acked_run poll ticks_in ack_of handle xs (s', proc')
           in (done # rest, final)))"

definition run_actions :: "('k \<times> 'a list \<times> 'r list) list \<Rightarrow> 'a list" where
  "run_actions dones = concat (map (\<lambda>(k, actions, reports). actions) dones)"

definition run_reports :: "('k \<times> 'a list \<times> 'r list) list \<Rightarrow> 'r list" where
  "run_reports dones = concat (map (\<lambda>(k, actions, reports). reports) dones)"

lemma run_simps [simp]:
  "run_actions [] = []" "run_reports [] = []"
  "run_actions ((k, actions, reports) # dones) = actions @ run_actions dones"
  "run_reports ((k, actions, reports) # dones) = reports @ run_reports dones"
  by (simp_all add: run_actions_def run_reports_def)

text \<open>The ticks sent, with what the processor met when it handled them.\<close>

fun sent_ticks ::
    "('a list \<Rightarrow> 't list) \<Rightarrow> 'v list \<Rightarrow> ('k \<times> 'a list \<times> 'r list) list \<Rightarrow> ('v \<times> 't) list" where
  "sent_ticks ticks_in (env # envs) ((k, actions, reports) # dones) =
     map (Pair env) (ticks_in actions) @ sent_ticks ticks_in envs dones"
| "sent_ticks ticks_in envs dones = []"

text \<open>The loop alone, each iteration with the acknowledgement it reads.\<close>

fun loop_run ::
    "('k \<Rightarrow> 'i \<Rightarrow> 's \<Rightarrow> 'a list \<times> ('e + 's)) \<Rightarrow> ('k \<times> 'i) list \<Rightarrow> 's \<Rightarrow> 'a list \<times> ('e + 's)" where
  "loop_run poll [] s = ([], Inr s)"
| "loop_run poll ((k, i) # xs) s =
     (case poll k i s of
        (actions, Inl e) \<Rightarrow> (actions, Inl e)
      | (actions, Inr s') \<Rightarrow> (let (rest, r) = loop_run poll xs s' in (actions @ rest, r)))"

text \<open>What each iteration read: the acknowledgement of its tick, or nothing, for which any value
  will do.\<close>

definition read_acks ::
    "('a list \<Rightarrow> 't list) \<Rightarrow> 'k \<Rightarrow> ('k \<times> 'a list \<times> 'r list) list \<Rightarrow> 'k list" where
  "read_acks ticks_in any dones =
     map (\<lambda>(k, actions, reports). if ticks_in actions = [] then any else k) dones"

lemma read_acks_simps [simp]:
  "read_acks ticks_in any [] = []"
  "read_acks ticks_in any ((k, actions, reports) # dones) =
     (if ticks_in actions = [] then any else k) # read_acks ticks_in any dones"
  by (simp_all add: read_acks_def)

lemma set_read_acks:
  "set (read_acks ticks_in any dones) \<subseteq> insert any (fst ` set (sent_ticks ticks_in (map fst dones) dones))"
proof (induction dones)
  case (Cons d dones)
  then show ?case by (cases d; cases "ticks_in (fst (snd d))") (auto simp: image_Un image_image)
qed simp

lemma length_acked_run:
  "acked_run poll ticks_in ack_of handle xs st = (dones, Inr s', proc) \<Longrightarrow> length dones = length xs"
proof (induction xs arbitrary: st dones)
  case (Cons x xs)
  then show ?case by (cases st) (auto split: prod.splits sum.splits)
qed (metis acked_run.simps(1) list.size(3) prod.collapse prod.inject)

inductive reads_ack ::
    "('a list \<Rightarrow> 't list) \<Rightarrow> (dispatch_error + 'r \<Rightarrow> 'k) \<Rightarrow> (dispatch_error \<Rightarrow> 'e)
     \<Rightarrow> ('k \<Rightarrow> 'a list \<times> ('e + 's)) \<Rightarrow> bool"
  for ticks_in ack_of stop_of f where
  unread: "\<lbrakk>ticks_in actions = []; \<And>k. f k = (actions, Inr s)\<rbrakk> \<Longrightarrow> reads_ack ticks_in ack_of stop_of f"
| read: "\<lbrakk>\<And>k. ticks_in (fst (f k)) = [sent]; \<And>e. snd (f (ack_of (Inl e))) = Inl (stop_of e);
    \<And>report. \<exists>s. snd (f (ack_of (Inr report))) = Inr s\<rbrakk> \<Longrightarrow> reads_ack ticks_in ack_of stop_of f"

lemma unread_const: "ticks_in actions = [] \<Longrightarrow> reads_ack ticks_in ack_of stop_of (\<lambda>k. (actions, Inr s))"
  by (rule unread) simp_all

text \<open>What an iteration does before its tick does not matter.\<close>

lemma reads_ack_prefix:
  assumes "reads_ack ticks_in ack_of stop_of f" and "\<And>as. ticks_in (before @ as) = ticks_in as"
    and "\<And>k. g k = (before @ fst (f k), snd (f k))"
  shows "reads_ack ticks_in ack_of stop_of g"
  using assms(1)
proof cases
  case (unread actions s)
  then show ?thesis using assms(2,3) by (intro reads_ack.unread [of _ "before @ actions" _ s]) auto
next
  case (read sent)
  then show ?thesis using assms(2,3) by (intro reads_ack.read [of _ _ sent]) auto
qed

locale acked_poller =
  fixes poll :: "'k \<Rightarrow> 'i \<Rightarrow> 's \<Rightarrow> 'a list \<times> ('e + 's)"
    and ticks_in :: "'a list \<Rightarrow> 't list"
    and ack_of :: "dispatch_error + 'r \<Rightarrow> 'k"
    and stop_of :: "dispatch_error \<Rightarrow> 'e"
  assumes poll_reads: "reads_ack ticks_in ack_of stop_of (\<lambda>k. poll k i s)"
    and ticks_append: "ticks_in [] = []" "ticks_in (xs @ ys) = ticks_in xs @ ticks_in ys"
begin

text \<open>What an iteration of the composition is, for a processor that is there.\<close>

lemma iteration_cases:
  assumes "acked_iteration poll ticks_in ack_of handle (i, env) (s, Some p) = ((k, actions, reports), r, proc)"
  obtains
    (no_tick) s' where "ticks_in actions = []" "\<And>any. poll any i s = (actions, Inr s')"
      "reports = []" "r = Inr s'" "proc = Some p"
  | (answered) tick p' report s' where "ticks_in actions = [tick]"
      "handle env tick p = Return (p', report)" "k = ack_of (Inr report)"
      "poll k i s = (actions, Inr s')" "reports = [report]" "r = Inr s'" "proc = Some p'"
  | (panicked) tick where "ticks_in actions = [tick]" "handle env tick p = Panic"
      "k = ack_of (Inl AckGone)" "poll k i s = (actions, Inl (stop_of AckGone))" "reports = []"
      "r = Inl (stop_of AckGone)" "proc = None"
  using poll_reads [of i s]
proof cases
  case (unread as s')
  with assms show thesis
    by (intro no_tick [of s']) (auto simp: acked_iteration_def Let_def)
next
  case (read tick)
  show thesis
  proof (cases "handle env tick p")
    case Panic
    define as where "as = fst (poll (ack_of (Inl AckGone)) i s)"
    have "poll (ack_of (Inl AckGone)) i s = (as, Inl (stop_of AckGone))"
      using read(2) by (simp add: as_def prod_eq_iff)
    with read(1) [of "ack_of (Inl AckGone)"] Panic assms show thesis
      by (intro panicked [of tick]) (auto simp: acked_iteration_def Let_def)
  next
    case (Return res)
    obtain p' report where res: "res = (p', report)" by (cases res)
    obtain s' where s': "snd (poll (ack_of (Inr report)) i s) = Inr s'" using read(3) by blast
    define as where "as = fst (poll (ack_of (Inr report)) i s)"
    have "poll (ack_of (Inr report)) i s = (as, Inr s')"
      using s' by (simp add: as_def prod_eq_iff)
    with read(1) [of "ack_of (Inr report)"] read(1) [of "ack_of (Inl AckGone)"] Return res assms
    show thesis
      by (intro answered [of tick p' report s']) (auto simp: acked_iteration_def Let_def)
  qed
qed

text \<open>A run of the composition is a run of the processor on the ticks sent, and a run of the loop on
  the acknowledgements they got. A processor that is gone at the end panicked on the last tick.\<close>

definition composed_run ::
    "('v \<Rightarrow> 't \<Rightarrow> 'p \<Rightarrow> ('p \<times> 'r) exec) \<Rightarrow> ('i \<times> 'v) list \<Rightarrow> 's \<Rightarrow> 'p
     \<Rightarrow> ('k \<times> 'a list \<times> 'r list) list \<Rightarrow> ('e + 's) \<Rightarrow> 'p option \<Rightarrow> bool" where
  "composed_run handle xs s p dones r proc \<longleftrightarrow>
     (\<exists>handled p1. handle_all handle handled p = Return (p1, run_reports dones)
        \<and> (case proc of
             Some p' \<Rightarrow> sent_ticks ticks_in (map snd xs) dones = handled \<and> p' = p1 \<and> (\<exists>s'. r = Inr s')
           | None \<Rightarrow> \<exists>env tick. sent_ticks ticks_in (map snd xs) dones = handled @ [(env, tick)]
                      \<and> handle env tick p1 = Panic \<and> r = Inl (stop_of AckGone)))
     \<and> (\<forall>any. loop_run poll (zip (read_acks ticks_in any dones) (map fst xs)) s = (run_actions dones, r))
     \<and> map snd (sent_ticks ticks_in (map snd xs) dones) = ticks_in (run_actions dones)
     \<and> map fst (sent_ticks ticks_in (map fst dones) dones) =
         map (\<lambda>report. ack_of (Inr report)) (run_reports dones)
           @ (if proc = None then [ack_of (Inl AckGone)] else [])"

lemma composed_no_tick:
  assumes "composed_run handle xs s' p rest r proc"
    and "ticks_in actions = []" "\<And>any. poll any i s = (actions, Inr s')"
  shows "composed_run handle ((i, env) # xs) s p ((k, actions, []) # rest) r proc"
proof -
  have "sent_ticks ticks_in (map snd ((i, env) # xs)) ((k, actions, []) # rest)
      = sent_ticks ticks_in (map snd xs) rest"
    "sent_ticks ticks_in (map fst ((k, actions, []) # rest)) ((k, actions, []) # rest)
      = sent_ticks ticks_in (map fst rest) rest"
    "run_reports ((k, actions, []) # rest) = run_reports rest"
    "ticks_in (run_actions ((k, actions, []) # rest)) = ticks_in (run_actions rest)"
    using assms(2) by (simp_all add: ticks_append)
  moreover have "loop_run poll (zip (read_acks ticks_in any ((k, actions, []) # rest))
        (map fst ((i, env) # xs))) s = (run_actions ((k, actions, []) # rest), r)"
    if "loop_run poll (zip (read_acks ticks_in any rest) (map fst xs)) s' = (run_actions rest, r)" for any
    using assms(2,3) that by simp
  ultimately show ?thesis using assms(1) by (simp only: composed_run_def) blast
qed

lemma composed_answered:
  assumes "composed_run handle xs s' p' rest r proc"
    and "ticks_in actions = [tick]" "handle env tick p = Return (p', report)"
    and "poll (ack_of (Inr report)) i s = (actions, Inr s')"
  shows "composed_run handle ((i, env) # xs) s p ((ack_of (Inr report), actions, [report]) # rest) r proc"
proof -
  from assms(1) obtain handled p1 where
    "handle_all handle handled p' = Return (p1, run_reports rest)"
    "case proc of
       Some p' \<Rightarrow> sent_ticks ticks_in (map snd xs) rest = handled \<and> p' = p1 \<and> (\<exists>s'. r = Inr s')
     | None \<Rightarrow> \<exists>env tick. sent_ticks ticks_in (map snd xs) rest = handled @ [(env, tick)]
                \<and> handle env tick p1 = Panic \<and> r = Inl (stop_of AckGone)"
    by (auto simp: composed_run_def)
  moreover have sent: "sent_ticks ticks_in (map snd ((i, env) # xs))
      ((ack_of (Inr report), actions, [report]) # rest) = (env, tick) # sent_ticks ticks_in (map snd xs) rest"
    using assms(2) by simp
  ultimately have "handle_all handle ((env, tick) # handled) p
      = Return (p1, run_reports ((ack_of (Inr report), actions, [report]) # rest))
    \<and> (case proc of
       Some p' \<Rightarrow> sent_ticks ticks_in (map snd ((i, env) # xs))
                    ((ack_of (Inr report), actions, [report]) # rest) = (env, tick) # handled
                  \<and> p' = p1 \<and> (\<exists>s'. r = Inr s')
     | None \<Rightarrow> \<exists>env' tick'. sent_ticks ticks_in (map snd ((i, env) # xs))
                    ((ack_of (Inr report), actions, [report]) # rest) = ((env, tick) # handled) @ [(env', tick')]
                \<and> handle env' tick' p1 = Panic \<and> r = Inl (stop_of AckGone))"
    unfolding sent using assms(3) by (simp split: option.splits)
  then show ?thesis
    using assms(1,2,4) unfolding composed_run_def
    by (intro conjI exI [of _ "(env, tick) # handled"] exI [of _ p1]) (simp_all add: ticks_append)
qed

lemma run_composed:
  assumes "acked_run poll ticks_in ack_of handle xs (s, Some p) = (dones, r, proc)"
  shows "composed_run handle xs s p dones r proc"
  using assms
proof (induction xs arbitrary: s p dones)
  case Nil
  then show ?case by (auto simp: composed_run_def ticks_append)
next
  case (Cons x xs)
  obtain i env where x: "x = (i, env)" by (cases x)
  obtain k actions reports r1 proc1 where it:
    "acked_iteration poll ticks_in ack_of handle (i, env) (s, Some p) = ((k, actions, reports), r1, proc1)"
    by (metis prod_cases3)
  show ?case
    using it
  proof (cases rule: iteration_cases)
    case (no_tick s')
    then obtain rest where "acked_run poll ticks_in ack_of handle xs (s', Some p) = (rest, r, proc)"
      "dones = (k, actions, []) # rest"
      using Cons.prems it by (auto simp: x split: prod.splits)
    then show ?thesis using composed_no_tick [OF Cons.IH no_tick(1,2)] by (simp add: x)
  next
    case (answered tick p' report s')
    then obtain rest where "acked_run poll ticks_in ack_of handle xs (s', Some p') = (rest, r, proc)"
      "dones = (ack_of (Inr report), actions, [report]) # rest"
      using Cons.prems it by (auto simp: x split: prod.splits)
    then show ?thesis
      using composed_answered [OF Cons.IH answered(1,2)] answered(3,4) by (simp add: x)
  next
    case (panicked tick)
    then show ?thesis using Cons.prems it
      by (auto simp: x composed_run_def ticks_append intro!: exI [of _ "[]"])
  qed
qed

end

end
