(* ===== verification/Retry.thy ===== *)
theory Retry
  imports Prelude
begin

text \<open>
  \<open>src/src/retry.rs\<close>: the bounds on an unpaced cursor drain and the capped exponential backoff
  that every retrying loop of the daemon shares. The random percentage that the jitter draws is an
  argument (\<open>random_range(80..=120)\<close> promises only its range).
\<close>

definition INITIAL_BACKOFF_SECS :: u64 where "INITIAL_BACKOFF_SECS = 1"
definition MAX_BACKOFF_SECS :: u64 where "MAX_BACKOFF_SECS = 60"
definition MAX_CONSECUTIVE_EMPTY_PAGES :: u32 where "MAX_CONSECUTIVE_EMPTY_PAGES = 20"

lemmas retry_consts = INITIAL_BACKOFF_SECS_def MAX_BACKOFF_SECS_def MAX_CONSECUTIVE_EMPTY_PAGES_def

definition should_continue_empty_drain :: "string option \<Rightarrow> string option \<Rightarrow> u32 \<Rightarrow> bool" where
  "should_continue_empty_drain cursor next_cursor empty_pages =
     (case next_cursor of
        Some page \<Rightarrow>
          next_cursor \<noteq> cursor \<and> empty_pages < MAX_CONSECUTIVE_EMPTY_PAGES \<and> page \<noteq> []
      | None \<Rightarrow> False)"

definition exponential_delay :: "u32 \<Rightarrow> duration" where
  "exponential_delay failure_count =
     (let multiplier = (case checked_shl (1::u64) (min failure_count 63) of
                          Some m \<Rightarrow> m | None \<Rightarrow> - 1)
      in from_secs (min (saturating_mul INITIAL_BACKOFF_SECS multiplier) MAX_BACKOFF_SECS))"

definition jittered_exponential_delay :: "u64 \<Rightarrow> u32 \<Rightarrow> duration" where
  "jittered_exponential_delay jitter_percent failure_count =
     (let base_ms = (of_nat (as_millis (exponential_delay failure_count)) :: u64)
      in from_millis (min (saturating_mul base_ms jitter_percent div 100)
                          (MAX_BACKOFF_SECS * 1000)))"

lemma drain_continuesD:
  assumes "should_continue_empty_drain cursor next_cursor n"
  shows "next_cursor \<noteq> None" "next_cursor \<noteq> cursor" "unat n < 20"
  using assms
  by (auto simp: should_continue_empty_drain_def MAX_CONSECUTIVE_EMPTY_PAGES_def word_less_nat_alt
      split: option.splits)

lemma shl_one: "unat (push_bit n (1::u64)) = 2 ^ n" if "n < 64"
proof -
  have "unat (push_bit n (1::u64)) = take_bit 64 (2 ^ n)"
    by (simp add: unsigned_push_bit_eq del: push_bit_of_1)
  then show ?thesis using that by (simp add: take_bit_nat_eq_self_iff)
qed

lemma backoff_multiplier:
  "checked_shl (1::u64) (min n 63) = Some (push_bit (min (unat n) 63) 1)"
  by (simp add: checked_shl_def unat_min_word)

lemma exponential_delay_secs:
  "exponential_delay n = min (2 ^ unat n) 60 * 1000000000"
proof -
  have capped: "min (2 ^ min (unat n) 63) 60 = min (2 ^ unat n) (60::nat)"
  proof (cases "unat n \<le> 63")
    case False
    then have "(60::nat) \<le> 2 ^ 63" "(2::nat) ^ 63 \<le> 2 ^ unat n"
      by (simp, intro power_increasing) auto
    then show ?thesis using False by (simp add: min_def)
  qed (simp add: min_def)
  have small: "2 ^ min (unat n) 63 < (2::nat) ^ 64"
    by (rule power_strict_increasing) auto
  have "unat (min (saturating_mul INITIAL_BACKOFF_SECS (push_bit (min (unat n) 63) 1))
          MAX_BACKOFF_SECS) = min (2 ^ unat n) 60"
    using small capped
    by (simp add: unat_min_word unat_saturating_mul retry_consts shl_one del: push_bit_of_1)
  then show ?thesis
    by (simp add: exponential_delay_def Let_def backoff_multiplier from_secs_def)
qed

lemma jittered_delay_millis:
  assumes "unat p \<le> 120"
  shows "jittered_exponential_delay p n =
           min (min (2 ^ unat n) 60 * unat p * 10) 60000 * 1000000"
proof -
  define s where "s = min (2 ^ unat n) (60::nat)"
  have s: "s \<le> 60" by (simp add: s_def)
  have base: "as_millis (exponential_delay n) = s * 1000"
  proof -
    have "exponential_delay n = s * 1000 * 1000000"
      by (simp add: exponential_delay_secs s_def)
    then show ?thesis by (simp add: as_millis_def)
  qed
  have b: "unat (of_nat (s * 1000) :: u64) = s * 1000"
    using s by (subst unat_of_nat) simp
  have prod: "s * 1000 * unat p \<le> 60 * 1000 * 120"
    using s assms by (intro mult_le_mono) auto
  then have "unat (saturating_mul (of_nat (s * 1000) :: u64) p) = s * 1000 * unat p"
    by (simp add: unat_saturating_mul b min_absorb1 del: of_nat_mult)
  then have "unat (saturating_mul (of_nat (s * 1000) :: u64) p div 100) = s * 1000 * unat p div 100"
    by (simp add: unat_div_distrib)
  moreover have "s * 1000 * unat p div 100 = s * unat p * 10"
    by simp
  moreover have "unat (MAX_BACKOFF_SECS * 1000) = 60000"
    by (simp add: retry_consts)
  ultimately have "unat (min (saturating_mul (of_nat (s * 1000) :: u64) p div 100)
      (MAX_BACKOFF_SECS * 1000)) = min (s * unat p * 10) 60000"
    by (simp add: unat_min_word)
  then show ?thesis
    by (simp add: jittered_exponential_delay_def base from_millis_def Let_def s_def
        del: of_nat_mult)
qed

subsection \<open>Properties\<close>

text \<open>The backoff after \<open>n\<close> failures is exactly \<open>2 ^ n\<close> seconds capped at one minute, for every
  value of the 32-bit counter: neither the shift nor the saturating product loses anything.\<close>

lemma exponential_delay_capped_power:
  "exponential_delay n = min (2 ^ unat n) 60 * 1000000000
   \<and> from_secs 1 \<le> exponential_delay n \<and> exponential_delay n \<le> from_secs MAX_BACKOFF_SECS"
proof -
  have "(1::nat) \<le> min (2 ^ unat n) 60" by simp
  then have "1 * 1000000000 \<le> min (2 ^ unat n) 60 * (1000000000::nat)"
    by (intro mult_le_mono1)
  moreover have "min (2 ^ unat n) 60 * 1000000000 \<le> 60 * (1000000000::nat)"
    by (intro mult_le_mono1) simp
  ultimately show ?thesis
    by (simp add: exponential_delay_secs from_secs_def retry_consts)
qed

text \<open>Whatever percentage the generator draws from 80..=120, the jittered delay stays within a
  fifth of the capped exponential delay on both sides, is never below 800 ms and never above one
  minute.\<close>

lemma jittered_delay_window:
  assumes "80 \<le> unat p" and "unat p \<le> 120"
  shows "4 * exponential_delay n \<le> 5 * jittered_exponential_delay p n
       \<and> 5 * jittered_exponential_delay p n \<le> 6 * exponential_delay n
       \<and> from_millis 800 \<le> jittered_exponential_delay p n
       \<and> jittered_exponential_delay p n \<le> from_secs MAX_BACKOFF_SECS"
proof -
  define s where "s = min (2 ^ unat n) (60::nat)"
  define q where "q = s * unat p"
  have s: "1 \<le> s" "s \<le> 60" by (simp_all add: s_def)
  have lo: "s * 80 \<le> q" and hi: "q \<le> s * 120"
    using assms by (auto simp: q_def intro: mult_le_mono2)
  have "exponential_delay n = s * 1000000000"
    by (simp add: exponential_delay_secs s_def)
  moreover have "jittered_exponential_delay p n = min (q * 10) 60000 * 1000000"
    by (simp add: jittered_delay_millis [OF assms(2)] s_def q_def)
  ultimately show ?thesis
    using s lo hi by (simp add: from_secs_def from_millis_def retry_consts)
qed

theorem jittered_delay_window_witness:
  "4 * exponential_delay 6 \<le> 5 * jittered_exponential_delay 120 6
   \<and> 5 * jittered_exponential_delay 120 6 \<le> 6 * exponential_delay 6
   \<and> from_millis 800 \<le> jittered_exponential_delay 120 6
   \<and> jittered_exponential_delay 120 6 \<le> from_secs MAX_BACKOFF_SECS"
  by (rule jittered_delay_window) simp_all

text \<open>A cursor drain goes on exactly while the page offers a non-empty cursor different from the
  one just requested and fewer than 20 pages have been skipped; so it always stops on a server
  that repeats its cursor, on the last page, and after 20 pages.\<close>

lemma empty_drain_condition:
  "should_continue_empty_drain cursor next_cursor n
   \<longleftrightarrow> next_cursor \<notin> {None, Some [], cursor} \<and> unat n < 20"
  by (auto simp: should_continue_empty_drain_def MAX_CONSECUTIVE_EMPTY_PAGES_def word_less_nat_alt
      split: option.splits)

end
