(* ===== verification/Work_Trigger.thy ===== *)
theory Work_Trigger
  imports Retry
begin

text \<open>
  \<open>src/src/work_trigger.rs\<close>: the event state that the WebSocket reader and one polling loop share
  (\<open>TriggerState\<close> with its operations), the two waits on it, and the poll timer that follows the
  Pusher connection (\<open>PusherStatus\<close>, \<open>PusherAwarePoller\<close>).

  Every operation holds the mutex for its whole body, so an execution is a sequence of
  operations (\<open>trigger_op\<close>, \<open>trigger_run\<close>). The current time is an argument of the operations that
  read the clock. A wait is a loop that looks at the state each time it is woken; it is modelled
  on the list of what it sees at its successive wake-ups. The contract the polling loops rely on
  is the locale \<open>work_source\<close>, interpreted at the end on these definitions.
\<close>

definition EVENT_TRIGGER_LIMIT :: usize where "EVENT_TRIGGER_LIMIT = 25"
definition EVENT_DEBOUNCE :: duration where "EVENT_DEBOUNCE = from_millis 500"
definition SAFETY_POLL_INTERVAL :: duration where "SAFETY_POLL_INTERVAL = from_secs 180"
definition PUSHER_OUTAGE_POLL_INTERVAL :: duration where
  "PUSHER_OUTAGE_POLL_INTERVAL = from_secs 6"

lemmas trigger_consts = EVENT_TRIGGER_LIMIT_def EVENT_DEBOUNCE_def SAFETY_POLL_INTERVAL_def
  PUSHER_OUTAGE_POLL_INTERVAL_def

subsection \<open>The trigger state\<close>

record trigger_state =
  event_generation :: u64
  lookup_generation :: "u64 option"
  pending_event_count :: usize
  forced :: bool
  debounce_deadline :: "instant option"

definition new_trigger :: trigger_state where
  "new_trigger = \<lparr>event_generation = 0, lookup_generation = None, pending_event_count = 0,
                  forced = False, debounce_deadline = None\<rparr>"

definition record_event :: "instant \<Rightarrow> trigger_state \<Rightarrow> trigger_state" where
  "record_event now s =
     s\<lparr>event_generation := event_generation s + 1,
       pending_event_count := min (saturating_add (pending_event_count s) 1) EVENT_TRIGGER_LIMIT,
       debounce_deadline := Some (now + EVENT_DEBOUNCE)\<rparr>"

definition force :: "trigger_state \<Rightarrow> trigger_state" where
  "force s = s\<lparr>forced := True\<rparr>"

definition begin_fresh_lookup :: "trigger_state \<Rightarrow> trigger_state" where
  "begin_fresh_lookup s =
     s\<lparr>lookup_generation := Some (event_generation s), pending_event_count := 0,
       forced := False, debounce_deadline := None\<rparr>"

definition finish_batch :: "bool \<Rightarrow> trigger_state \<Rightarrow> trigger_state \<times> bool" where
  "finish_batch scan_complete s =
     (let deferred =
            forced s \<or> 0 < pending_event_count s
            \<or> (case lookup_generation s of
                 Some generation \<Rightarrow> generation \<noteq> event_generation s | None \<Rightarrow> False)
      in (if scan_complete then s\<lparr>lookup_generation := None\<rparr> else s, deferred))"

definition finish_empty_lookup :: "trigger_state \<Rightarrow> trigger_state" where
  "finish_empty_lookup s = s\<lparr>lookup_generation := None\<rparr>"

lemmas trigger_op_defs = record_event_def force_def begin_fresh_lookup_def finish_batch_def
  finish_empty_lookup_def

subsection \<open>The waits\<close>

definition trigger_ready :: "instant \<Rightarrow> trigger_state \<Rightarrow> bool" where
  "trigger_ready now s \<longleftrightarrow>
     forced s \<or> EVENT_TRIGGER_LIMIT \<le> pending_event_count s
     \<or> (case debounce_deadline s of Some deadline \<Rightarrow> deadline \<le> now | None \<Rightarrow> False)"

text \<open>One iteration of \<open>wait_until_ready\<close>: return, or sleep until a notification arrives or the
  deadline passes (\<open>Sleep (Some deadline)\<close>), or until a notification arrives (\<open>Sleep None\<close>).\<close>

datatype wait_step = Ready | Sleep "instant option"

definition wait_until_ready_step :: "instant \<Rightarrow> trigger_state \<Rightarrow> wait_step" where
  "wait_until_ready_step now s =
     (if trigger_ready now s then Ready else Sleep (debounce_deadline s))"

fun wait_until_ready :: "(instant \<times> trigger_state) list \<Rightarrow> (instant \<times> trigger_state) option" where
  "wait_until_ready [] = None"
| "wait_until_ready ((now, s) # wakeups) =
     (case wait_until_ready_step now s of
        Ready \<Rightarrow> Some (now, s)
      | Sleep deadline \<Rightarrow> wait_until_ready wakeups)"

fun wait_for_new_event_loop :: "u64 \<Rightarrow> bool \<Rightarrow> trigger_state list \<Rightarrow> trigger_state option" where
  "wait_for_new_event_loop baseline_generation baseline_forced [] = None"
| "wait_for_new_event_loop baseline_generation baseline_forced (s # wakeups) =
     (if event_generation s \<noteq> baseline_generation \<or> forced s \<and> \<not> baseline_forced then Some s
      else wait_for_new_event_loop baseline_generation baseline_forced wakeups)"

definition wait_for_new_event :: "trigger_state \<Rightarrow> trigger_state list \<Rightarrow> trigger_state option" where
  "wait_for_new_event s0 wakeups =
     wait_for_new_event_loop (event_generation s0) (forced s0) wakeups"

subsection \<open>Executions of the operations\<close>

datatype trigger_op = Record instant | Force | BeginLookup | FinishBatch bool | FinishEmpty

fun trigger_step :: "trigger_op \<Rightarrow> trigger_state \<Rightarrow> trigger_state" where
  "trigger_step (Record now) s = record_event now s"
| "trigger_step Force s = force s"
| "trigger_step BeginLookup s = begin_fresh_lookup s"
| "trigger_step (FinishBatch c) s = fst (finish_batch c s)"
| "trigger_step FinishEmpty s = finish_empty_lookup s"

definition trigger_run :: "trigger_op list \<Rightarrow> trigger_state \<Rightarrow> trigger_state" where
  "trigger_run ops s = fold trigger_step ops s"

lemma trigger_run_simps [simp]:
  "trigger_run [] s = s"
  "trigger_run (ops @ [x]) s = trigger_step x (trigger_run ops s)"
  by (simp_all add: trigger_run_def)

text \<open>What a history says: the operations since the last lookup began, and the event times in
  them.\<close>

fun event_times :: "trigger_op list \<Rightarrow> instant list" where
  "event_times [] = []"
| "event_times (Record t # ops) = t # event_times ops"
| "event_times (x # ops) = event_times ops"

definition since_lookup :: "trigger_op list \<Rightarrow> trigger_op list" where
  "since_lookup ops = rev (takeWhile (\<lambda>x. x \<noteq> BeginLookup) (rev ops))"

lemma event_times_append [simp]: "event_times (xs @ ys) = event_times xs @ event_times ys"
  by (induction xs rule: event_times.induct) auto

lemma since_lookup_simps [simp]:
  "since_lookup [] = []"
  "since_lookup (ops @ [BeginLookup]) = []"
  "x \<noteq> BeginLookup \<Longrightarrow> since_lookup (ops @ [x]) = since_lookup ops @ [x]"
  by (simp_all add: since_lookup_def)

definition notified_since_lookup :: "trigger_op list \<Rightarrow> bool" where
  "notified_since_lookup ops \<longleftrightarrow> Force \<in> set (since_lookup ops) \<or> event_times (since_lookup ops) \<noteq> []"

subsection \<open>The state as a function of the history\<close>

lemma capped_count:
  "unat (min (saturating_add c (1::usize)) EVENT_TRIGGER_LIMIT) = min (unat c + 1) 25"
  by (simp add: unat_min_word unat_saturating_add trigger_consts)

lemma pending_history:
  "unat (pending_event_count (trigger_run ops new_trigger))
     = min (length (event_times (since_lookup ops))) 25"
proof (induction ops rule: rev_induct)
  case Nil
  then show ?case by (simp add: new_trigger_def)
next
  case (snoc x ops)
  then show ?case
    by (cases x) (auto simp: trigger_op_defs capped_count Let_def)
qed

lemma forced_history:
  "forced (trigger_run ops new_trigger) \<longleftrightarrow> Force \<in> set (since_lookup ops)"
proof (induction ops rule: rev_induct)
  case Nil
  then show ?case by (simp add: new_trigger_def)
next
  case (snoc x ops)
  then show ?case by (cases x) (simp_all add: trigger_op_defs Let_def)
qed

lemma deadline_history:
  "debounce_deadline (trigger_run ops new_trigger) =
     (let ts = event_times (since_lookup ops)
      in if ts = [] then None else Some (last ts + EVENT_DEBOUNCE))"
proof (induction ops rule: rev_induct)
  case Nil
  then show ?case by (simp add: new_trigger_def)
next
  case (snoc x ops)
  then show ?case by (cases x) (simp_all add: trigger_op_defs Let_def split: if_splits)
qed

lemma generation_run:
  "event_generation (trigger_run ops s) = event_generation s + of_nat (length (event_times ops))"
proof (induction ops rule: rev_induct)
  case Nil
  then show ?case by simp
next
  case (snoc x ops)
  then show ?case by (cases x) (simp_all add: trigger_op_defs Let_def)
qed

subsection \<open>The invariant\<close>

definition outstanding :: "trigger_state \<Rightarrow> bool" where
  "outstanding s \<longleftrightarrow> forced s \<or> 0 < pending_event_count s"

definition trigger_inv :: "trigger_state \<Rightarrow> bool" where
  "trigger_inv s \<longleftrightarrow>
     pending_event_count s \<le> EVENT_TRIGGER_LIMIT
     \<and> (debounce_deadline s = None \<longleftrightarrow> pending_event_count s = 0)
     \<and> (pending_event_count s = 0 \<longrightarrow> lookup_generation s \<in> {None, Some (event_generation s)})"

lemma trigger_inv_new [simp]: "trigger_inv new_trigger"
  by (simp add: trigger_inv_def new_trigger_def trigger_consts)

lemma count_positive: "min (saturating_add c (1::usize)) EVENT_TRIGGER_LIMIT \<noteq> 0"
  by (simp add: word_unat_eq_iff capped_count)

lemma trigger_inv_step: "trigger_inv s \<Longrightarrow> trigger_inv (trigger_step x s)"
  by (cases x) (auto simp: trigger_inv_def trigger_op_defs count_positive Let_def)

lemma trigger_inv_run: "trigger_inv s \<Longrightarrow> trigger_inv (trigger_run ops s)"
  by (induction ops rule: rev_induct) (auto intro: trigger_inv_step)

lemma outstanding_step [simp]:
  "outstanding (record_event now s)"
  "outstanding (force s)"
  "\<not> outstanding (begin_fresh_lookup s)"
  "outstanding (fst (finish_batch c s)) = outstanding s"
  "outstanding (finish_empty_lookup s) = outstanding s"
  using count_positive [of "pending_event_count s"]
  by (simp_all add: outstanding_def trigger_op_defs Let_def word_neq_0_conv)

lemma finish_batch_reports: "trigger_inv s \<Longrightarrow> snd (finish_batch c s) = outstanding s"
  by (auto simp: trigger_inv_def outstanding_def finish_batch_def Let_def word_neq_0_conv
      split: option.splits)

lemma outstanding_ready: "trigger_inv s \<Longrightarrow> outstanding s \<longleftrightarrow> (\<exists>now. trigger_ready now s)"
  by (auto simp: trigger_inv_def outstanding_def trigger_ready_def trigger_consts word_neq_0_conv
      split: option.splits)

subsection \<open>The contract with the polling loops\<close>

text \<open>A polling loop clears the source when it starts a scan from the head, and asks at the end
  whether anything arrived meanwhile; the WebSocket reader notifies at any time.\<close>

locale work_source =
  fixes begin_lookup :: "'s \<Rightarrow> 's"
    and finish_scan :: "bool \<Rightarrow> 's \<Rightarrow> 's \<times> bool"
    and finish_empty :: "'s \<Rightarrow> 's"
    and notify :: "'e \<Rightarrow> 's \<Rightarrow> 's"
    and pending :: "'s \<Rightarrow> bool"
    and invar :: "'s \<Rightarrow> bool"
  assumes notify_pending: "invar s \<Longrightarrow> pending (notify e s)"
    and begin_clears: "invar s \<Longrightarrow> \<not> pending (begin_lookup s)"
    and finish_reports: "invar s \<Longrightarrow> snd (finish_scan c s) = pending s"
    and finish_keeps: "invar s \<Longrightarrow> pending (fst (finish_scan c s)) = pending s"
    and empty_keeps: "invar s \<Longrightarrow> pending (finish_empty s) = pending s"
    and invar_notify: "invar s \<Longrightarrow> invar (notify e s)"
    and invar_begin: "invar s \<Longrightarrow> invar (begin_lookup s)"
    and invar_finish: "invar s \<Longrightarrow> invar (fst (finish_scan c s))"
    and invar_empty: "invar s \<Longrightarrow> invar (finish_empty s)"
begin

lemma invar_notifies: "invar s \<Longrightarrow> invar (fold notify es s)"
  by (induction es arbitrary: s) (auto intro: invar_notify)

lemma pending_notifies: "invar s \<Longrightarrow> pending (fold notify es s) \<longleftrightarrow> es \<noteq> [] \<or> pending s"
proof (induction es arbitrary: s)
  case Nil
  then show ?case by simp
next
  case (Cons e es)
  from Cons.prems have "invar (notify e s)" "pending (notify e s)"
    by (simp_all add: invar_notify notify_pending)
  with Cons.IH show ?case by simp
qed

lemma deferred_iff_notified:
  assumes "invar s"
  shows "snd (finish_scan c (fold notify es (begin_lookup s))) \<longleftrightarrow> es \<noteq> []"
  using assms
  by (simp add: finish_reports invar_notifies invar_begin pending_notifies begin_clears)

lemma finished_keeps_notified:
  assumes "invar s"
  shows "pending (fst (finish_scan c (fold notify es s))) \<longleftrightarrow> es \<noteq> [] \<or> pending s"
    and "pending (finish_empty (fold notify es s)) \<longleftrightarrow> es \<noteq> [] \<or> pending s"
  using assms by (simp_all add: finish_keeps empty_keeps invar_notifies pending_notifies)

end

datatype notification = NewEvent instant | ForceLookup

fun deliver :: "notification \<Rightarrow> trigger_state \<Rightarrow> trigger_state" where
  "deliver (NewEvent now) s = record_event now s"
| "deliver ForceLookup s = force s"

interpretation trigger: work_source begin_fresh_lookup finish_batch finish_empty_lookup deliver
  outstanding trigger_inv
proof unfold_locales
  fix s :: trigger_state and e c
  assume s: "trigger_inv s"
  show "outstanding (deliver e s)" by (cases e) simp_all
  show "trigger_inv (deliver e s)"
    using trigger_inv_step [OF s, of "case e of NewEvent t \<Rightarrow> Record t | ForceLookup \<Rightarrow> Force"]
    by (cases e) simp_all
  show "snd (finish_batch c s) = outstanding s" using s by (rule finish_batch_reports)
  show "trigger_inv (begin_fresh_lookup s)" using trigger_inv_step [OF s, of BeginLookup] by simp
  show "trigger_inv (fst (finish_batch c s))"
    using trigger_inv_step [OF s, of "FinishBatch c"] by simp
  show "trigger_inv (finish_empty_lookup s)" using trigger_inv_step [OF s, of FinishEmpty] by simp
qed simp_all

subsection \<open>The poll timer\<close>

text \<open>\<open>set_connected\<close> passes its closure to \<open>send_if_modified\<close>: the new value, and whether the
  receivers are told.\<close>

definition set_connected :: "bool \<Rightarrow> bool \<Rightarrow> bool \<times> bool" where
  "set_connected connected current =
     (if current = connected then (current, False) else (connected, True))"

definition poll_interval :: "bool \<Rightarrow> duration" where
  "poll_interval pusher_connected =
     (if pusher_connected then SAFETY_POLL_INTERVAL else PUSHER_OUTAGE_POLL_INTERVAL)"

definition new_poller :: "instant \<Rightarrow> bool \<Rightarrow> instant" where
  "new_poller now connected = now + poll_interval connected"

text \<open>One iteration of \<open>tick\<close> sees: whether the channel reports an unseen change, the clock and the
  value then, and which branch of the \<open>select!\<close> completed. The timer branch completes some time
  (\<open>late\<close>) after the later of the deadline and the iteration's start; the change branch at a given
  time, with the value it reads or \<open>None\<close> when the sender is gone.\<close>

datatype tick_branch = Elapsed duration bool | Changed instant "bool option"

record tick_input =
  has_changed :: "bool option"
  entry_now :: instant
  entry_value :: bool
  branch :: tick_branch

definition entry_deadline :: "instant \<Rightarrow> tick_input \<Rightarrow> instant" where
  "entry_deadline deadline i =
     (if has_changed i = Some True then entry_now i + poll_interval (entry_value i) else deadline)"

text \<open>\<open>tick\<close> gives the time at which it returned and the deadline it leaves, or \<open>None\<close> while the
  iterations seen so far have not returned.\<close>

fun tick :: "instant \<Rightarrow> tick_input list \<Rightarrow> (instant \<times> instant) option" where
  "tick deadline [] = None"
| "tick deadline (i # inputs) =
     (case branch i of
        Elapsed late connected \<Rightarrow>
          (let now = max (entry_deadline deadline i) (entry_now i) + late
           in Some (now, now + poll_interval connected))
      | Changed now r \<Rightarrow>
          tick (now + poll_interval (case r of Some connected \<Rightarrow> connected | None \<Rightarrow> False)) inputs)"

text \<open>What a runtime without delays shows \<open>tick\<close> when \<open>set_connected\<close> is called at the given times:
  a call reaches the poller when it modifies the value before the deadline.\<close>

fun prompt_inputs :: "instant \<Rightarrow> instant \<Rightarrow> bool \<Rightarrow> (instant \<times> bool) list \<Rightarrow> tick_input list" where
  "prompt_inputs now deadline current [] =
     [\<lparr>has_changed = Some False, entry_now = now, entry_value = current,
       branch = Elapsed 0 current\<rparr>]"
| "prompt_inputs now deadline current ((t, connected) # calls) =
     (if deadline \<le> t
      then [\<lparr>has_changed = Some False, entry_now = now, entry_value = current,
             branch = Elapsed 0 current\<rparr>]
      else if snd (set_connected connected current)
      then \<lparr>has_changed = Some False, entry_now = now, entry_value = current,
            branch = Changed t (Some (fst (set_connected connected current)))\<rparr>
           # prompt_inputs t (t + poll_interval connected) connected calls
      else prompt_inputs now deadline current calls)"

lemma tick_unchanged:
  "\<lbrakk>now \<le> deadline; \<forall>c \<in> set calls. snd c = b\<rbrakk>
   \<Longrightarrow> tick deadline (prompt_inputs now deadline b calls) = Some (deadline, deadline + poll_interval b)"
proof (induction calls)
  case Nil
  then show ?case by (simp add: entry_deadline_def)
next
  case (Cons c calls)
  then show ?case
    by (cases c) (auto simp: entry_deadline_def set_connected_def)
qed

subsection \<open>Properties\<close>

text \<open>C15: \<open>finish_batch\<close> tells the polling loop exactly whether a notification (an event or a forced
  lookup) came after the last fresh lookup began, whatever operations happened before. The
  generation counter may wrap around without a notification being missed.\<close>

theorem finish_batch_reports_history:
  "snd (finish_batch c (trigger_run ops new_trigger)) \<longleftrightarrow> notified_since_lookup ops"
proof -
  have "snd (finish_batch c (trigger_run ops new_trigger)) = outstanding (trigger_run ops new_trigger)"
    by (intro trigger.finish_reports trigger_inv_run trigger_inv_new)
  moreover have "0 < pending_event_count (trigger_run ops new_trigger)
      \<longleftrightarrow> event_times (since_lookup ops) \<noteq> []"
    using pending_history [of ops] by (auto simp: word_less_nat_alt)
  ultimately show ?thesis
    by (simp add: outstanding_def notified_since_lookup_def forced_history)
qed

text \<open>The readiness that \<open>wait_until_ready\<close> waits for, in terms of the history: with \<open>ts\<close> the times
  of the events since the last fresh lookup, the worker is released by a forced lookup, by 25
  events, or 500 ms after the last event (a trailing debounce), and by nothing else; finishing
  a batch or an empty lookup never loses a notification.\<close>

theorem trigger_ready_history:
  "trigger_ready now (trigger_run ops new_trigger) \<longleftrightarrow>
     (let ts = event_times (since_lookup ops)
      in Force \<in> set (since_lookup ops) \<or> 25 \<le> length ts
         \<or> ts \<noteq> [] \<and> last ts + from_millis 500 \<le> now)"
proof -
  have "EVENT_TRIGGER_LIMIT \<le> pending_event_count (trigger_run ops new_trigger)
      \<longleftrightarrow> 25 \<le> length (event_times (since_lookup ops))"
    by (simp add: word_le_nat_alt pending_history EVENT_TRIGGER_LIMIT_def)
  then show ?thesis
    by (simp add: trigger_ready_def forced_history deadline_history Let_def EVENT_DEBOUNCE_def)
qed

text \<open>The wait that paces retries. Woken up any number of times, each time after some
  notifications that came since it started, it returns exactly when one of these wake-ups follows
  a new event, or a forced lookup while none was already outstanding: work known when the wait
  began never ends it. (A second \<open>force\<close> during the wait goes unnoticed while an earlier one is
  outstanding.)\<close>

lemma wait_for_new_event_returns_iff:
  assumes "\<forall>es \<in> set wakeups. length es < 2 ^ 64"
  shows "wait_for_new_event s (map (\<lambda>es. fold deliver es s) wakeups) \<noteq> None \<longleftrightarrow>
           (\<exists>es \<in> set wakeups. (\<exists>t. NewEvent t \<in> set es) \<or> ForceLookup \<in> set es \<and> \<not> forced s)"
proof -
  have gen: "event_generation (fold deliver es s)
      = event_generation s + of_nat (length (filter (\<lambda>e. e \<noteq> ForceLookup) es))" for es
  proof (induction es rule: rev_induct)
    case (snoc e es)
    then show ?case by (cases e) (simp_all add: record_event_def force_def)
  qed simp
  have frc: "forced (fold deliver es s) \<longleftrightarrow> forced s \<or> ForceLookup \<in> set es" for es
  proof (induction es rule: rev_induct)
    case (snoc e es)
    then show ?case by (cases e) (simp_all add: record_event_def force_def)
  qed simp
  have "event_generation (fold deliver es s) \<noteq> event_generation s \<longleftrightarrow> (\<exists>t. NewEvent t \<in> set es)"
    if "length es < 2 ^ 64" for es
  proof -
    have "length (filter (\<lambda>e. e \<noteq> ForceLookup) es) < 2 ^ 64"
      using that length_filter_le le_less_trans by blast
    then have "event_generation (fold deliver es s) = event_generation s
        \<longleftrightarrow> filter (\<lambda>e. e \<noteq> ForceLookup) es = []"
      using of_nat_word_0_iff [where 'a = 64, of "length (filter (\<lambda>e. e \<noteq> ForceLookup) es)"]
      by (simp add: gen)
    also have "\<dots> \<longleftrightarrow> (\<nexists>t. NewEvent t \<in> set es)"
      by (simp add: filter_empty_conv) (metis notification.exhaust notification.distinct(1))
    finally show ?thesis by blast
  qed
  with assms show ?thesis
    unfolding wait_for_new_event_def by (induction wakeups) (auto simp: frc)
qed

theorem wait_for_new_event_returns_iff_witness:
  "wait_for_new_event (force new_trigger)
     (map (\<lambda>es. fold deliver es (force new_trigger)) [[], [ForceLookup], [NewEvent 7]]) \<noteq> None
   \<and> wait_for_new_event (force new_trigger)
     (map (\<lambda>es. fold deliver es (force new_trigger)) [[], [ForceLookup]]) = None"
proof
  show "wait_for_new_event (force new_trigger)
     (map (\<lambda>es. fold deliver es (force new_trigger)) [[], [ForceLookup], [NewEvent 7]]) \<noteq> None"
    by (subst wait_for_new_event_returns_iff) auto
  have "\<not> wait_for_new_event (force new_trigger)
     (map (\<lambda>es. fold deliver es (force new_trigger)) [[], [ForceLookup]]) \<noteq> None"
    by (subst wait_for_new_event_returns_iff) (auto simp: force_def)
  then show "wait_for_new_event (force new_trigger)
     (map (\<lambda>es. fold deliver es (force new_trigger)) [[], [ForceLookup]]) = None"
    by blast
qed

text \<open>C28: the poll timer. While \<open>set_connected\<close> only repeats the current status \<open>b\<close> (a reconnection
  that keeps failing, say), \<open>tick\<close> returns at its deadline, however many calls are made; and a
  real transition to the other status at a time \<open>t\<close> before the deadline restarts the timer, so
  that \<open>tick\<close> returns at \<open>t\<close> plus the interval of the new status (six seconds after an outage,
  three minutes after a reconnection). In both cases the next deadline is one interval later.\<close>

theorem poll_timer_follows_status:
  assumes "now \<le> deadline" and "t < deadline" and "\<forall>c \<in> set calls. snd c = b"
  shows "tick deadline (prompt_inputs now deadline b calls)
           = Some (deadline, deadline + poll_interval b)
       \<and> tick deadline (prompt_inputs now deadline (\<not> b) ((t, b) # calls))
           = Some (t + poll_interval b, t + poll_interval b + poll_interval b)"
proof
  show "tick deadline (prompt_inputs now deadline b calls)
          = Some (deadline, deadline + poll_interval b)"
    using assms(1,3) by (rule tick_unchanged)
  show "tick deadline (prompt_inputs now deadline (\<not> b) ((t, b) # calls))
          = Some (t + poll_interval b, t + poll_interval b + poll_interval b)"
    using assms(2) tick_unchanged [OF le_add1 assms(3), of t "poll_interval b"]
    by (cases b) (simp_all add: set_connected_def)
qed

theorem poll_timer_follows_status_witness:
  "tick (new_poller 0 True) (prompt_inputs 0 (new_poller 0 True) True [])
     = Some (from_secs 180, from_secs 180 + poll_interval True)
   \<and> tick (new_poller 0 False) (prompt_inputs 0 (new_poller 0 False) False [(5, False)])
     = Some (from_secs 6, from_secs 6 + poll_interval False)
   \<and> tick (new_poller 0 True) (prompt_inputs 0 (new_poller 0 True) True [(from_secs 100, False)])
     = Some (from_secs 100 + from_secs 6, from_secs 100 + from_secs 6 + from_secs 6)"
  using poll_timer_follows_status [of 0 "from_secs 180" 0 "[]" True]
    poll_timer_follows_status [of 0 "from_secs 6" 0 "[(5, False)]" False]
    poll_timer_follows_status [of 0 "from_secs 180" "from_secs 100" "[]" False]
  by (simp add: new_poller_def poll_interval_def trigger_consts from_secs_def)

end
