(* ===== verification/Notices.thy ===== *)
theory Notices
  imports Acked_Loop Work_Trigger
begin

text \<open>
  No notification of the event source is lost: the locale \<open>notified_poller\<close> is a polling loop which,
  at the end of an iteration, has something outstanding exactly if it was notified since it last
  began a lookup from the head of the queue. Over any run, alone or composed with its processor, every
  notification is then followed by such a lookup, or still waits in the trigger. Both workers
  interpret the locale.
\<close>

text \<open>An iteration as the event source sees it: what it notified before the request was made, whether the
  request was for the head of the queue, and what it notified after.\<close>

type_synonym notice_step = "notification list \<times> bool \<times> notification list"

definition notices :: "notice_step list \<Rightarrow> notification list" where
  "notices steps = concat (map (\<lambda>(before, head, during). before @ during) steps)"

lemma notices_simps [simp]:
  "notices [] = []" "notices ((before, head, during) # steps) = before @ during @ notices steps"
  by (simp_all add: notices_def)

text \<open>Whether a lookup from the head began after the \<open>k\<close>-th notification, \<open>told\<close> of them being past.\<close>

fun looked_up :: "nat \<Rightarrow> nat \<Rightarrow> notice_step list \<Rightarrow> bool" where
  "looked_up told k [] = False"
| "looked_up told k ((before, head, during) # steps) =
     (head \<and> k < told + length before
      \<or> looked_up (told + length before + length during) k steps)"

lemma looked_up_iff:
  "looked_up told k steps \<longleftrightarrow>
     (\<exists>earlier before during later. steps = earlier @ (before, True, during) # later
        \<and> k < told + length (notices earlier) + length before)"
proof (induction told k steps rule: looked_up.induct)
  case (2 told k before head during steps)
  show ?case
  proof
    assume "looked_up told k ((before, head, during) # steps)"
    then show "\<exists>earlier b d later. (before, head, during) # steps = earlier @ (b, True, d) # later
        \<and> k < told + length (notices earlier) + length b"
    proof (cases "head \<and> k < told + length before")
      case True
      then have "(before, head, during) # steps = [] @ (before, True, during) # steps
          \<and> k < told + length (notices []) + length before" by simp
      then show ?thesis by blast
    next
      case False
      then obtain earlier b d later where "steps = earlier @ (b, True, d) # later"
        "k < told + length before + length during + length (notices earlier) + length b"
        using \<open>looked_up told k ((before, head, during) # steps)\<close> 2 by auto
      then have "(before, head, during) # steps = ((before, head, during) # earlier) @ (b, True, d) # later
          \<and> k < told + length (notices ((before, head, during) # earlier)) + length b" by simp
      then show ?thesis by blast
    qed
  next
    assume "\<exists>earlier b d later. (before, head, during) # steps = earlier @ (b, True, d) # later
        \<and> k < told + length (notices earlier) + length b"
    then obtain earlier b d later where split: "(before, head, during) # steps = earlier @ (b, True, d) # later"
      "k < told + length (notices earlier) + length b" by blast
    then show "looked_up told k ((before, head, during) # steps)"
      using 2 by (cases earlier) (auto simp: add.assoc)
  qed
qed simp

definition notice_steps ::
    "('i \<Rightarrow> notification list) \<Rightarrow> ('a list \<Rightarrow> bool) \<Rightarrow> ('i \<Rightarrow> notification list) \<Rightarrow> ('i \<times> 'v) list
     \<Rightarrow> ('k \<times> 'a list \<times> 'r list) list \<Rightarrow> notice_step list" where
  "notice_steps before from_head during xs log =
     map2 (\<lambda>(i, env) (k, actions, reports). (before i, from_head actions, during i)) xs log"

lemma notices_notice_steps:
  "length log = length xs \<Longrightarrow>
     notices (notice_steps before from_head during xs log) = concat (map (\<lambda>(i, env). before i @ during i) xs)"
proof (induction xs log rule: list_induct2')
  case (4 x xs d log)
  then show ?case by (cases x; cases d) (simp add: notice_steps_def)
qed (simp_all add: notice_steps_def)

locale notified_poller =
  fixes poll :: "'k \<Rightarrow> 'i \<Rightarrow> 's \<Rightarrow> 'a list \<times> ('e + 's)"
    and before during :: "'i \<Rightarrow> notification list"
    and from_head :: "'a list \<Rightarrow> bool"
    and trigger :: "'s \<Rightarrow> trigger_state"
    and invar :: "'s \<Rightarrow> bool"
  assumes invar_trigger: "invar s \<Longrightarrow> trigger_inv (trigger s)"
    and invar_poll: "\<lbrakk>invar s; poll k i s = (actions, Inr s')\<rbrakk> \<Longrightarrow> invar s'"
    and poll_holds: "\<lbrakk>invar s; poll k i s = (actions, Inr s')\<rbrakk> \<Longrightarrow>
      outstanding (trigger s') \<longleftrightarrow>
        during i \<noteq> [] \<or> \<not> from_head actions \<and> (before i \<noteq> [] \<or> outstanding (trigger s))"
begin

lemma iteration_polls:
  assumes "acked_iteration poll ticks_in ack_of handle (i, env) (s, proc) = ((k, actions, reports), r, proc')"
  shows "poll k i s = (actions, r)"
  using assms by (auto simp: acked_iteration_def Let_def split: list.splits prod.splits)

lemma invar_run:
  "\<lbrakk>acked_run poll ticks_in ack_of handle xs (s, proc) = (log, Inr s', proc'); invar s\<rbrakk> \<Longrightarrow> invar s'"
  by (induction xs arbitrary: s proc log)
    (auto split: prod.splits sum.splits dest!: iteration_polls dest: invar_poll)

lemma run_answers:
  assumes "acked_run poll ticks_in ack_of handle xs (s, proc) = (log, Inr s', proc')" and "invar s"
    and "n < told + length (notices (notice_steps before from_head during xs log))" and "n < told \<Longrightarrow> outstanding (trigger s)"
  shows "looked_up told n (notice_steps before from_head during xs log) \<or> outstanding (trigger s')"
  using assms
proof (induction xs arbitrary: s proc log told)
  case Nil
  then show ?case by (simp add: notice_steps_def)
next
  case (Cons x xs)
  let ?steps = "notice_steps before from_head during"
  obtain i env where x: "x = (i, env)" by (cases x)
  from Cons.prems(1) obtain k actions reports s1 proc1 rest where
    it: "acked_iteration poll ticks_in ack_of handle (i, env) (s, proc) = ((k, actions, reports), Inr s1, proc1)"
    and run: "acked_run poll ticks_in ack_of handle xs (s1, proc1) = (rest, Inr s', proc')"
    and log: "log = (k, actions, reports) # rest"
    by (auto simp: x split: prod.splits sum.splits)
  note polls = iteration_polls [OF it]
  have steps: "?steps (x # xs) log = (before i, from_head actions, during i) # ?steps xs rest"
    by (simp add: notice_steps_def x log)
  show ?case
  proof (cases "from_head actions \<and> n < told + length (before i)")
    case False
    have "looked_up (told + length (before i) + length (during i)) n (?steps xs rest) \<or> outstanding (trigger s')"
    proof (rule Cons.IH [OF run invar_poll [OF Cons.prems(2) polls]])
      show "n < told + length (before i) + length (during i) + length (notices (?steps xs rest))"
        using Cons.prems(3) steps by simp
      show "outstanding (trigger s1)" if "n < told + length (before i) + length (during i)"
        using that False Cons.prems(4) poll_holds [OF Cons.prems(2) polls] by fastforce
    qed
    then show ?thesis using steps by auto
  qed (use steps in simp)
qed

text \<open>The same at any later moment, with the notifications since the last iteration.\<close>

lemma notice_answered:
  assumes run: "acked_run poll ticks_in ack_of handle xs (s, proc) = (log, Inr s', proc')" and "invar s"
    and told: "n < length (concat (map (\<lambda>(i, env). before i @ during i) xs) @ waiting)"
  shows "looked_up 0 n (notice_steps before from_head during xs log)
       \<or> outstanding (fold deliver waiting (trigger s')) \<and> (\<exists>now. trigger_ready now (fold deliver waiting (trigger s')))"
proof -
  have inv: "trigger_inv (trigger s')" using invar_run [OF run assms(2)] by (rule invar_trigger)
  note len = length_acked_run [OF run]
  have "looked_up 0 n (notice_steps before from_head during xs log) \<or> outstanding (fold deliver waiting (trigger s'))"
  proof (cases "waiting = []")
    case True
    then show ?thesis
      using run_answers [OF run assms(2), of n 0] told by (simp add: notices_notice_steps [OF len])
  next
    case False
    then show ?thesis by (simp add: trigger.pending_notifies [OF inv])
  qed
  then show ?thesis using outstanding_ready [OF trigger.invar_notifies [OF inv]] by blast
qed

end

end
