(* ===== verification/Scan_Pacing.thy ===== *)
theory Scan_Pacing
  imports Work_Trigger
begin

text \<open>
  What keeps a polling loop from becoming a storm of requests, for the two pollers of
  \<open>src/src/transaction.rs\<close> and \<open>src/src/wallet.rs\<close> alike: the locale \<open>paced_poller\<close> is a loop in which
  every request that made no progress and is followed by another without a pause uses up some of
  a bounded budget. Both pollers interpret it.
\<close>

text \<open>\<open>poll\<close> is one iteration, \<open>hasty\<close> says that it made no progress and that the next request follows
  without any pause.\<close>

fun hasty_run :: "('i \<Rightarrow> 's \<Rightarrow> 's option) \<Rightarrow> ('i \<Rightarrow> 's \<Rightarrow> bool) \<Rightarrow> 'i list \<Rightarrow> 's \<Rightarrow> bool" where
  "hasty_run poll hasty [] s = True"
| "hasty_run poll hasty (i # inputs) s =
     (hasty i s \<and> (case poll i s of None \<Rightarrow> False | Some s' \<Rightarrow> hasty_run poll hasty inputs s'))"

fun poll_run :: "('i \<Rightarrow> 's \<Rightarrow> 's option) \<Rightarrow> 'i list \<Rightarrow> 's \<Rightarrow> 's option" where
  "poll_run poll [] s = Some s"
| "poll_run poll (i # inputs) s =
     (case poll i s of None \<Rightarrow> None | Some s' \<Rightarrow> poll_run poll inputs s')"

locale paced_poller =
  fixes poll :: "'i \<Rightarrow> 's \<Rightarrow> 's option"
    and hasty :: "'i \<Rightarrow> 's \<Rightarrow> bool"
    and invar :: "'s \<Rightarrow> bool"
    and rank :: "'s \<Rightarrow> nat"
    and limit :: nat
  assumes invar_poll: "\<lbrakk>invar s; poll i s = Some s'\<rbrakk> \<Longrightarrow> invar s'"
    and rank_limit: "invar s \<Longrightarrow> rank s \<le> limit"
    and hasty_decreases: "\<lbrakk>invar s; hasty i s; poll i s = Some s'\<rbrakk> \<Longrightarrow> rank s' < rank s"
begin

lemma invar_run: "\<lbrakk>invar s; poll_run poll inputs s = Some s'\<rbrakk> \<Longrightarrow> invar s'"
  by (induction inputs arbitrary: s) (auto intro: invar_poll split: option.splits)

lemma hasty_run_rank: "\<lbrakk>invar s; hasty_run poll hasty inputs s\<rbrakk> \<Longrightarrow> length inputs \<le> rank s"
proof (induction inputs arbitrary: s)
  case (Cons i inputs)
  then obtain s' where "poll i s = Some s'" "hasty i s" "hasty_run poll hasty inputs s'"
    by (auto split: option.splits)
  with Cons show ?case using hasty_decreases [of s i s'] invar_poll [of s i s'] by fastforce
qed simp

lemma hasty_run_bounded:
  assumes "invar s" and "poll_run poll before s = Some s'" and "hasty_run poll hasty inputs s'"
  shows "length inputs \<le> limit"
  using hasty_run_rank [OF invar_run [OF assms(1,2)] assms(3)]
    rank_limit [OF invar_run [OF assms(1,2)]] by simp

end

subsection \<open>Scans\<close>

text \<open>One scan follows the cursors of the platform from page to page. A chain of pages is the requests
  made from each page with the cursor that the platform gives for the next: each cursor is a new
  one, the last page has none.\<close>

fun page_chain :: "string option \<Rightarrow> ('r list \<times> string option) list \<Rightarrow> bool" where
  "page_chain c [] = False"
| "page_chain c [(requests, next_cursor)] = (next_cursor = None)"
| "page_chain c ((requests, next_cursor) # page # pages) =
     (next_cursor \<notin> {None, Some [], c} \<and> page_chain next_cursor (page # pages))"

text \<open>\<open>scan_step\<close> is one iteration of a poller: the requests it hands over, and its next state.\<close>

fun scan_run :: "('i \<Rightarrow> 's \<Rightarrow> ('r list \<times> 's) option) \<Rightarrow> 'i list \<Rightarrow> 's \<Rightarrow> ('r list \<times> 's) option" where
  "scan_run scan_step [] s = Some ([], s)"
| "scan_run scan_step (i # inputs) s =
     (case scan_step i s of
        None \<Rightarrow> None
      | Some (requests, s') \<Rightarrow>
          (case scan_run scan_step inputs s' of
             None \<Rightarrow> None
           | Some (rest, s'') \<Rightarrow> Some (requests @ rest, s'')))"

text \<open>\<open>serves i page\<close> says that the platform answers with the page in iteration \<open>i\<close>, \<open>barren i page\<close> that
  the iteration makes no progress. A poller stays on its scan for 20 barren pages.\<close>

definition barren_count ::
    "('i \<Rightarrow> 'r list \<Rightarrow> bool) \<Rightarrow> 'i list \<Rightarrow> ('r list \<times> string option) list \<Rightarrow> nat" where
  "barren_count barren inputs pages = length (filter (\<lambda>(i, r, c). barren i r) (zip inputs pages))"

lemma barren_count_simps [simp]:
  "barren_count barren [] [] = 0"
  "barren_count barren (i # inputs) ((r, c) # pages) =
     (if barren i r then 1 else 0) + barren_count barren inputs pages"
  by (simp_all add: barren_count_def)

locale page_scanner =
  fixes scan_step :: "'i \<Rightarrow> 's \<Rightarrow> ('r list \<times> 's) option"
    and at_cursor :: "'s \<Rightarrow> string option"
    and misses :: "'s \<Rightarrow> nat"
    and serves :: "'i \<Rightarrow> 'r list \<times> string option \<Rightarrow> bool"
    and barren :: "'i \<Rightarrow> 'r list \<Rightarrow> bool"
  assumes serve:
    "\<lbrakk>serves i (requests, next_cursor); next_cursor \<noteq> Some [];
      next_cursor \<noteq> None \<longrightarrow> next_cursor \<noteq> at_cursor s;
      misses s + (if barren i requests then 1 else 0) \<le> 20\<rbrakk>
     \<Longrightarrow> \<exists>s'. scan_step i s = Some (requests, s') \<and> at_cursor s' = next_cursor
          \<and> misses s' \<le> misses s + (if barren i requests then 1 else 0)"
begin

lemma scan_hands_over_every_page:
  assumes "list_all2 serves inputs pages" and "page_chain (at_cursor s) pages"
    and "misses s + barren_count barren inputs pages \<le> 20"
  shows "\<exists>s'. scan_run scan_step inputs s = Some (concat (map fst pages), s') \<and> at_cursor s' = None"
  using assms
proof (induction inputs pages arbitrary: s rule: list_all2_induct)
  case Nil
  then show ?case by simp
next
  case (Cons i inputs page pages)
  obtain requests next_cursor where page: "page = (requests, next_cursor)" by (cases page)
  have chain: "next_cursor \<noteq> Some []" "next_cursor \<noteq> None \<longrightarrow> next_cursor \<noteq> at_cursor s"
    using Cons.prems(1) page by (cases pages; auto)+
  obtain s' where s': "scan_step i s = Some (requests, s')" "at_cursor s' = next_cursor"
    "misses s' \<le> misses s + (if barren i requests then 1 else 0)"
    using serve [OF Cons.hyps(1) [unfolded page] chain] Cons.prems(2) page by auto
  show ?case
  proof (cases pages)
    case Nil
    then have "inputs = []" using Cons.hyps(2) by simp
    then show ?thesis using Nil s' page Cons.prems(1) by simp
  next
    case (Cons p ps)
    then have "page_chain (at_cursor s') pages" "misses s' + barren_count barren inputs pages \<le> 20"
      using Cons.prems s' page by auto
    from Cons.IH [OF this] show ?thesis using s' page by auto
  qed
qed

end

lemma drain_continuesI:
  "\<lbrakk>next_cursor \<noteq> Some []; next_cursor \<noteq> None; next_cursor \<noteq> cursor; unat n < 20\<rbrakk>
     \<Longrightarrow> should_continue_empty_drain cursor next_cursor n"
  by (auto simp: should_continue_empty_drain_def MAX_CONSECUTIVE_EMPTY_PAGES_def word_less_nat_alt)

lemma drain_needs_cursor [simp]:
  "\<not> should_continue_empty_drain c (Some []) n" "\<not> should_continue_empty_drain c None n"
  by (simp_all add: should_continue_empty_drain_def)

lemma drain_step:
  assumes "should_continue_empty_drain cursor next_cursor n"
  shows "unat (n + 1) = unat n + 1" "unat n < 20" "next_cursor \<noteq> None" "next_cursor \<noteq> Some []"
proof -
  show n: "unat n < 20" using assms by (rule drain_continuesD)
  then show "unat (n + 1) = unat n + 1" by (simp add: unat_add_fits)
  show "next_cursor \<noteq> None" "next_cursor \<noteq> Some []"
    using assms by (auto simp: should_continue_empty_drain_def split: option.splits)
qed

end
