(* ===== verification/Enjin_Config.thy ===== *)
theory Enjin_Config
  imports Prelude
begin

text \<open>
  \<open>src/src/substrate_client.rs\<close>: the configuration of a chain client, \<open>EnjinConfig\<close>, which answers for
  the genesis hash itself and forwards the other questions to the \<open>SubstrateConfig\<close> of \<open>subxt\<close>. What
  the builder of a \<open>SubstrateConfig\<close> was given is the record \<open>substrate_config\<close>; what it answers is a
  parameter, the record \<open>substrate_lib\<close>, and \<open>documented_config\<close> states what its documentation says of
  a configuration with one range and one metadata, the only kind the daemon builds.
\<close>

type_synonym h256 = bytes

text \<open>\<open>block_range\<close> is the half-open range \<open>start..end\<close>.\<close>

record spec_version_for_range =
  block_range :: "u64 \<times> u64"
  sr_spec_version :: u32
  sr_transaction_version :: u32

record 'meta substrate_config =
  sc_ranges :: "spec_version_for_range list"
  sc_metadata :: "(u32 \<times> 'meta) list"
  sc_genesis_hash :: "h256 option"

record ('meta, 'types) substrate_lib =
  sl_legacy_types :: "'meta substrate_config \<Rightarrow> u32 \<Rightarrow> 'types option"
  sl_metadata :: "'meta substrate_config \<Rightarrow> u32 \<Rightarrow> 'meta option"
  sl_set_metadata :: "'meta substrate_config \<Rightarrow> u32 \<Rightarrow> 'meta \<Rightarrow> 'meta substrate_config"
  sl_versions :: "'meta substrate_config \<Rightarrow> u64 \<Rightarrow> (u32 \<times> u32) option"

record 'meta enjin_config =
  enjin_genesis :: h256
  enjin_inner :: "'meta substrate_config"

definition genesis_hash :: "'meta enjin_config \<Rightarrow> h256 option" where
  "genesis_hash c = Some (enjin_genesis c)"

definition legacy_types_for_spec_version ::
    "('meta, 'types) substrate_lib \<Rightarrow> 'meta enjin_config \<Rightarrow> u32 \<Rightarrow> 'types option" where
  "legacy_types_for_spec_version S c version = sl_legacy_types S (enjin_inner c) version"

definition metadata_for_spec_version ::
    "('meta, 'types) substrate_lib \<Rightarrow> 'meta enjin_config \<Rightarrow> u32 \<Rightarrow> 'meta option" where
  "metadata_for_spec_version S c version = sl_metadata S (enjin_inner c) version"

text \<open>The inner configuration is shared and changed in place.\<close>

definition set_metadata_for_spec_version ::
    "('meta, 'types) substrate_lib \<Rightarrow> 'meta enjin_config \<Rightarrow> u32 \<Rightarrow> 'meta \<Rightarrow> 'meta enjin_config" where
  "set_metadata_for_spec_version S c version metadata =
     c\<lparr>enjin_inner := sl_set_metadata S (enjin_inner c) version metadata\<rparr>"

definition spec_and_transaction_version_for_block_number ::
    "('meta, 'types) substrate_lib \<Rightarrow> 'meta enjin_config \<Rightarrow> u64 \<Rightarrow> (u32 \<times> u32) option" where
  "spec_and_transaction_version_for_block_number S c block_number =
     sl_versions S (enjin_inner c) block_number"

lemmas enjin_config_defs = genesis_hash_def legacy_types_for_spec_version_def
  metadata_for_spec_version_def set_metadata_for_spec_version_def
  spec_and_transaction_version_for_block_number_def

definition documented_config :: "('meta, 'types) substrate_lib \<Rightarrow> bool" where
  "documented_config S \<longleftrightarrow>
     (\<forall>cfg r block. sc_ranges cfg = [r] \<longrightarrow>
        sl_versions S cfg block =
          (if fst (block_range r) \<le> block \<and> block < snd (block_range r)
           then Some (sr_spec_version r, sr_transaction_version r) else None))
     \<and> (\<forall>cfg version metadata v. sc_metadata cfg = [(version, metadata)] \<longrightarrow>
        sl_metadata S cfg v = (if v = version then Some metadata else None))"

text \<open>One concrete choice: the first range that holds the block, the first metadata of the version.\<close>

definition sample_substrate_lib :: "('meta, unit) substrate_lib" where
  "sample_substrate_lib =
     \<lparr>sl_legacy_types = (\<lambda>cfg v. None),
      sl_metadata = (\<lambda>cfg v. map_of (sc_metadata cfg) v),
      sl_set_metadata = (\<lambda>cfg v m. cfg\<lparr>sc_metadata := (v, m) # sc_metadata cfg\<rparr>),
      sl_versions = (\<lambda>cfg b.
        map_option (\<lambda>r. (sr_spec_version r, sr_transaction_version r))
          (find (\<lambda>r. fst (block_range r) \<le> b \<and> b < snd (block_range r)) (sc_ranges cfg)))\<rparr>"

lemma sample_substrate_lib_documented: "documented_config sample_substrate_lib"
  by (simp add: documented_config_def sample_substrate_lib_def)

text \<open>The configuration the daemon builds for a chain: one range for every block below the largest
  \<open>u64\<close>, one metadata, and the genesis hash, in the builder as in the configuration itself.\<close>

definition chain_config :: "u32 \<Rightarrow> u32 \<Rightarrow> 'meta \<Rightarrow> h256 \<Rightarrow> 'meta enjin_config" where
  "chain_config version transaction_version metadata genesis =
     \<lparr>enjin_genesis = genesis,
      enjin_inner =
        \<lparr>sc_ranges = [\<lparr>block_range = (0, - 1), sr_spec_version = version,
                      sr_transaction_version = transaction_version\<rparr>],
         sc_metadata = [(version, metadata)], sc_genesis_hash = Some genesis\<rparr>\<rparr>"

text \<open>A \<open>u32\<close> block number is in the range, so the client finds the versions for it.\<close>

lemma ucast_less_max: "ucast (b :: u32) < (- 1 :: u64)"
proof -
  have "unat b < 2 ^ 32" using unsigned_less [of b] by simp
  then have "unat (ucast b :: u64) < unat (- 1 :: u64)"
    by (simp add: unat_max_word unsigned_ucast_eq take_bit_nat_eq_self)
  then show ?thesis by (simp add: word_less_nat_alt)
qed

lemma chain_config_answers:
  assumes "documented_config S"
  shows "genesis_hash (chain_config v tx m g) = Some g"
    and "metadata_for_spec_version S (chain_config v tx m g) v = Some m"
    and "spec_and_transaction_version_for_block_number S (chain_config v tx m g) (ucast (b :: u32))
      = Some (v, tx)"
  using assms ucast_less_max [of b]
  by (simp_all add: enjin_config_defs chain_config_def documented_config_def)

end
