(* ===== verification/Types.thy ===== *)
theory Types
  imports Enjin_Config
begin

text \<open>
  \<open>src/src/types.rs\<close>, the metadata store of \<open>src/src/global.rs\<close> and the message types of
  \<open>graphql/schema.graphql\<close> that the polling loops exchange with the platform. The GraphQL client
  generates, for each enum of the schema, an enum with one more variant for unknown values; the
  four generated copies of \<open>Chain\<close> and of \<open>Network\<close> have the same shape and are one datatype each
  here. A public key, a hash and an encoded extrinsic are lists of bytes.
\<close>

datatype chain = Matrix | Relay
datatype network = Canary | Enjin

datatype gql_chain = MATRIX | RELAY | OtherChain string
datatype gql_network = CANARY | ENJIN | OtherNetwork string

fun chain_to_gql :: "chain \<Rightarrow> gql_chain" where
  "chain_to_gql Matrix = MATRIX"
| "chain_to_gql Relay = RELAY"

fun gql_to_chain :: "gql_chain \<Rightarrow> chain result" where
  "gql_to_chain RELAY = Inr Relay"
| "gql_to_chain MATRIX = Inr Matrix"
| "gql_to_chain (OtherChain e) = Inl e"

fun network_to_gql :: "network \<Rightarrow> gql_network" where
  "network_to_gql Canary = CANARY"
| "network_to_gql Enjin = ENJIN"

fun gql_to_network :: "gql_network \<Rightarrow> network result" where
  "gql_to_network CANARY = Inr Canary"
| "gql_to_network ENJIN = Inr Enjin"
| "gql_to_network (OtherNetwork e) = Inl e"

text \<open>The conversions for the other three queries; each has its own copy of the two enums, of the same
  shape.\<close>

fun chain_info_chain :: "chain \<Rightarrow> gql_chain" where
  "chain_info_chain Matrix = MATRIX"
| "chain_info_chain Relay = RELAY"

fun block_chain :: "chain \<Rightarrow> gql_chain" where
  "block_chain Matrix = MATRIX"
| "block_chain Relay = RELAY"

fun nonce_chain :: "chain \<Rightarrow> gql_chain" where
  "nonce_chain Matrix = MATRIX"
| "nonce_chain Relay = RELAY"

fun chain_info_network :: "network \<Rightarrow> gql_network" where
  "chain_info_network Canary = CANARY"
| "chain_info_network Enjin = ENJIN"

fun block_network :: "network \<Rightarrow> gql_network" where
  "block_network Canary = CANARY"
| "block_network Enjin = ENJIN"

fun nonce_network :: "network \<Rightarrow> gql_network" where
  "nonce_network Canary = CANARY"
| "nonce_network Enjin = ENJIN"

type_synonym chain_key = "network \<times> chain"
type_synonym public_key = bytes
type_synonym nonce_key = "network \<times> chain \<times> public_key"
type_synonym block_info = "u32 \<times> h256 \<times> u32"

text \<open>There are finitely many chains: sets of chain keys are finite, and what holds of every chain can be
  computed.\<close>

instantiation chain :: enum
begin

definition enum_chain :: "chain list" where
  "enum_chain = [Matrix, Relay]"

definition enum_all_chain :: "(chain \<Rightarrow> bool) \<Rightarrow> bool" where
  "enum_all_chain P \<longleftrightarrow> P Matrix \<and> P Relay"

definition enum_ex_chain :: "(chain \<Rightarrow> bool) \<Rightarrow> bool" where
  "enum_ex_chain P \<longleftrightarrow> P Matrix \<or> P Relay"

instance
proof
  have all: "P Matrix \<Longrightarrow> P Relay \<Longrightarrow> P c" for P and c :: chain by (cases c) simp_all
  show "UNIV = set (enum_class.enum :: chain list)"
    using chain.exhaust by (auto simp: enum_chain_def)
  show "distinct (enum_class.enum :: chain list)" by (simp add: enum_chain_def)
  show "enum_class.enum_all P \<longleftrightarrow> Ball UNIV P" for P :: "chain \<Rightarrow> bool"
    by (auto simp: enum_all_chain_def intro: all)
  show "enum_class.enum_ex P \<longleftrightarrow> Bex UNIV P" for P :: "chain \<Rightarrow> bool"
    unfolding enum_ex_chain_def by (metis (full_types) chain.exhaust UNIV_I)
qed

end

instantiation network :: enum
begin

definition enum_network :: "network list" where
  "enum_network = [Canary, Enjin]"

definition enum_all_network :: "(network \<Rightarrow> bool) \<Rightarrow> bool" where
  "enum_all_network P \<longleftrightarrow> P Canary \<and> P Enjin"

definition enum_ex_network :: "(network \<Rightarrow> bool) \<Rightarrow> bool" where
  "enum_ex_network P \<longleftrightarrow> P Canary \<or> P Enjin"

instance
proof
  have all: "P Canary \<Longrightarrow> P Enjin \<Longrightarrow> P n" for P and n :: network by (cases n) simp_all
  show "UNIV = set (enum_class.enum :: network list)"
    using network.exhaust by (auto simp: enum_network_def)
  show "distinct (enum_class.enum :: network list)" by (simp add: enum_network_def)
  show "enum_class.enum_all P \<longleftrightarrow> Ball UNIV P" for P :: "network \<Rightarrow> bool"
    by (auto simp: enum_all_network_def intro: all)
  show "enum_class.enum_ex P \<longleftrightarrow> Bex UNIV P" for P :: "network \<Rightarrow> bool"
    unfolding enum_ex_network_def by (metis (full_types) network.exhaust UNIV_I)
qed

end

fun chain_key_of :: "nonce_key \<Rightarrow> chain_key" where
  "chain_key_of (n, c, k) = (n, c)"

subsection \<open>Chain clients and the metadata store\<close>

text \<open>\<open>SubstrateClient\<close>, an \<open>OfflineClient<EnjinConfig>\<close>, keeps the configuration it is made with.\<close>

type_synonym 'meta client = "'meta enjin_config"

record 'meta metadata_info =
  spec_version :: u32
  md_client :: "'meta client"

type_synonym 'meta metadata_store = "chain_key \<rightharpoonup> 'meta metadata_info"

definition insert_metadata ::
    "network \<Rightarrow> chain \<Rightarrow> 'meta metadata_info \<Rightarrow> 'meta metadata_store \<Rightarrow> 'meta metadata_store" where
  "insert_metadata network chain metadata store = store((network, chain) \<mapsto> metadata)"

definition metadata_spec_version :: "network \<Rightarrow> chain \<Rightarrow> 'meta metadata_store \<Rightarrow> u32 option" where
  "metadata_spec_version network chain store = map_option spec_version (store (network, chain))"

definition substrate_client :: "network \<Rightarrow> chain \<Rightarrow> 'meta metadata_store \<Rightarrow> 'meta client option" where
  "substrate_client network chain store = map_option md_client (store (network, chain))"

lemmas store_defs = insert_metadata_def metadata_spec_version_def substrate_client_def

subsection \<open>Properties\<close>

text \<open>The conversions between the daemon's chains and networks and those of the GraphQL schema
  are inverse to each other; only an unknown value of the schema is refused, with its text.\<close>

lemma gql_conversions_roundtrip:
  "(gql_to_chain g = Inr c \<longleftrightarrow> g = chain_to_gql c)
   \<and> (gql_to_network h = Inr n \<longleftrightarrow> h = network_to_gql n)
   \<and> (gql_to_chain g = Inl e \<longleftrightarrow> g = OtherChain e)
   \<and> (gql_to_network h = Inl e \<longleftrightarrow> h = OtherNetwork e)"
  by (cases g; cases c; cases h; cases n) simp_all

end
