(* ===== verification/Rust_Text.thy ===== *)
theory Rust_Text
  imports Prelude "HOL-Library.Sublist"
begin

text \<open>
  The operations of Rust's \<open>str\<close> that the daemon uses, on texts as their UTF-8 bytes:
  \<open>split_whitespace\<close>, \<open>trim\<close>, \<open>trim_matches\<close>, \<open>join\<close>, \<open>contains\<close>, \<open>as_bytes\<close>. White space is Unicode's
  \<open>White_Space\<close>, whose characters take one to three bytes.
\<close>

fun join_with :: "string \<Rightarrow> string list \<Rightarrow> string" where
  "join_with sep [] = []"
| "join_with sep [x] = x"
| "join_with sep (x # y # xs) = x @ sep @ join_with sep (y # xs)"

definition text_contains :: "string \<Rightarrow> string \<Rightarrow> bool" where
  "text_contains text part \<longleftrightarrow> sublist part text"

definition is_ascii_alphanumeric :: "char \<Rightarrow> bool" where
  "is_ascii_alphanumeric c =
     (let b = (of_char c :: nat)
      in (48 \<le> b \<and> b \<le> 57) \<or> (65 \<le> b \<and> b \<le> 90) \<or> (97 \<le> b \<and> b \<le> 122))"

definition string_bytes :: "string \<Rightarrow> bytes" where
  "string_bytes s = map (\<lambda>c. of_nat (of_char c)) s"

text \<open>The white space characters of one, two and three bytes, and the length of the one that a UTF-8
  text begins with, 0 if there is none.\<close>

definition white1 :: "char \<Rightarrow> bool" where
  "white1 a = (let x = (of_char a :: nat) in 9 \<le> x \<and> x \<le> 13 \<or> x = 32)"

definition white2 :: "char \<Rightarrow> char \<Rightarrow> bool" where
  "white2 a b = (a = CHR 0xC2 \<and> (b = CHR 0x85 \<or> b = CHR 0xA0))"

definition white3 :: "char \<Rightarrow> char \<Rightarrow> char \<Rightarrow> bool" where
  "white3 a b c =
     (let z = (of_char c :: nat)
      in a = CHR 0xE1 \<and> b = CHR 0x9A \<and> z = 0x80
         \<or> a = CHR 0xE2 \<and> b = CHR 0x80
           \<and> (0x80 \<le> z \<and> z \<le> 0x8A \<or> z = 0xA8 \<or> z = 0xA9 \<or> z = 0xAF)
         \<or> a = CHR 0xE2 \<and> b = CHR 0x81 \<and> z = 0x9F
         \<or> a = CHR 0xE3 \<and> b = CHR 0x80 \<and> z = 0x80)"

fun white_len :: "string \<Rightarrow> nat" where
  "white_len [] = 0"
| "white_len [a] = (if white1 a then 1 else 0)"
| "white_len [a, b] = (if white1 a then 1 else if white2 a b then 2 else 0)"
| "white_len (a # b # c # s) =
     (if white1 a then 1 else if white2 a b then 2 else if white3 a b c then 3 else 0)"

definition flush_word :: "string \<Rightarrow> string list" where
  "flush_word w = (if w = [] then [] else [w])"

function split_words :: "string \<Rightarrow> string \<Rightarrow> string list" where
  "split_words w [] = flush_word w"
| "split_words w (c # cs) =
     (if white_len (c # cs) = 0 then split_words (w @ [c]) cs
      else flush_word w @ split_words [] (drop (white_len (c # cs) - 1) cs))"
  by pat_completeness auto
termination by (relation "measure (\<lambda>(w, s). length s)") auto

definition split_whitespace :: "string \<Rightarrow> string list" where
  "split_whitespace s = split_words [] s"

text \<open>The length of the white space character that a text ends with; \<open>s\<close> is the text reversed.\<close>

fun white_len_end :: "string \<Rightarrow> nat" where
  "white_len_end [] = 0"
| "white_len_end [a] = (if white1 a then 1 else 0)"
| "white_len_end [b, a] = (if white1 b then 1 else if white2 a b then 2 else 0)"
| "white_len_end (c # b # a # s) =
     (if white1 c then 1 else if white2 b c then 2 else if white3 a b c then 3 else 0)"

function drop_white :: "(string \<Rightarrow> nat) \<Rightarrow> string \<Rightarrow> string" where
  "drop_white len [] = []"
| "drop_white len (c # cs) =
     (if len (c # cs) = 0 then c # cs else drop_white len (drop (len (c # cs) - 1) cs))"
  by pat_completeness auto
termination by (relation "measure (\<lambda>(len, s). length s)") auto

definition trim :: "string \<Rightarrow> string" where
  "trim s = rev (drop_white white_len_end (rev (drop_white white_len s)))"

definition trim_matches :: "(char \<Rightarrow> bool) \<Rightarrow> string \<Rightarrow> string" where
  "trim_matches p s = rev (dropWhile p (rev (dropWhile p s)))"

subsection \<open>White space\<close>

text \<open>No white space begins at any place of the text.\<close>

definition white_free :: "string \<Rightarrow> bool" where
  "white_free w \<longleftrightarrow> (\<forall>i < length w. white_len (drop i w) = 0)"

lemma space_bytes [simp]:
  "white1 CHR '' ''" "\<not> white2 a CHR '' ''" "\<not> white3 a b CHR '' ''" "\<not> white3 a CHR '' '' c"
  by (simp_all add: white1_def white2_def white3_def)

lemma white_len_append: "white_len x \<noteq> 0 \<Longrightarrow> white_len (x @ y) = white_len x"
proof (cases x rule: white_len.cases)
  case (2 a)
  then show "white_len x \<noteq> 0 \<Longrightarrow> ?thesis" by (cases "a # y" rule: white_len.cases) (auto split: if_splits)
next
  case (3 a b)
  then show "white_len x \<noteq> 0 \<Longrightarrow> ?thesis" by (cases y) (auto split: if_splits)
qed auto

lemma white_len_before_space:
  "\<lbrakk>x \<noteq> []; white_len x = 0\<rbrakk> \<Longrightarrow> white_len (x @ CHR '' '' # y) = 0"
proof (cases x rule: white_len.cases)
  case (2 a)
  then show "\<lbrakk>x \<noteq> []; white_len x = 0\<rbrakk> \<Longrightarrow> ?thesis" by (cases y) (auto split: if_splits)
qed (auto split: if_splits)

lemma white_free_in_context:
  assumes "white_free w" and "i < length w" and "s = [] \<or> hd s = CHR '' ''"
  shows "white_len (drop i w @ s) = 0"
proof -
  have "white_len (drop i w) = 0" "drop i w \<noteq> []"
    using assms(1,2) by (auto simp: white_free_def)
  then show ?thesis
    using assms(3) white_len_before_space [of "drop i w" "tl s"] by (cases s) auto
qed

lemma split_words_prefix:
  "\<forall>i < length w. white_len (drop i w @ s) = 0 \<Longrightarrow> split_words v (w @ s) = split_words (v @ w) s"
proof (induction w arbitrary: v)
  case (Cons c w)
  have "white_len (c # w @ s) = 0" using Cons.prems by (auto dest: spec [of _ 0])
  moreover have "\<forall>i < length w. white_len (drop i w @ s) = 0"
    using Cons.prems by (auto dest: spec [of _ "Suc _"])
  ultimately show ?case using Cons.IH [of "v @ [c]"] by simp
qed simp

lemma white_len_space [simp]: "white_len (CHR '' '' # s) = 1"
  by (cases "CHR '' '' # s" rule: white_len.cases) auto

lemma split_join:
  "\<forall>w \<in> set ws. white_free w \<and> w \<noteq> [] \<Longrightarrow> split_whitespace (join_with '' '' ws) = ws"
proof (induction ws rule: induct_list012)
  case (2 w)
  then have "split_words [] (w @ []) = split_words ([] @ w) []"
    by (intro split_words_prefix) (auto simp: white_free_def)
  with 2 show ?case by (simp add: split_whitespace_def flush_word_def)
next
  case (3 w w' ws)
  let ?rest = "CHR '' '' # join_with '' '' (w' # ws)"
  have "split_words [] (w @ ?rest) = split_words ([] @ w) ?rest"
    using 3 by (intro split_words_prefix allI impI white_free_in_context) auto
  with 3 show ?case by (simp add: split_whitespace_def flush_word_def)
qed (simp add: split_whitespace_def flush_word_def)

lemma split_words_free:
  "\<forall>i < length w. white_len (drop i w @ s) = 0
     \<Longrightarrow> \<forall>x \<in> set (split_words w s). white_free x \<and> x \<noteq> []"
proof (induction w s rule: split_words.induct)
  case (1 w)
  then show ?case by (simp add: flush_word_def white_free_def)
next
  case (2 w c cs)
  show ?case
  proof (cases "white_len (c # cs) = 0")
    case True
    have "\<forall>i < length (w @ [c]). white_len (drop i (w @ [c]) @ cs) = 0"
      using 2(3) True by (auto simp: less_Suc_eq)
    from 2(1) [OF True this] show ?thesis using True by simp
  next
    case False
    have "white_free w"
      using 2(3) white_len_append by (fastforce simp: white_free_def)
    then show ?thesis using False 2(2) by (simp add: flush_word_def)
  qed
qed

lemma split_whitespace_free: "x \<in> set (split_whitespace s) \<Longrightarrow> white_free x \<and> x \<noteq> []"
  using split_words_free [of "[]" s] by (simp add: split_whitespace_def)

lemma white_free_simps:
  "white_free []" "white_free (c # w) \<longleftrightarrow> white_len (c # w) = 0 \<and> white_free w"
  by (simp_all add: white_free_def All_less_Suc2)

end
