(* ===== verification/Graphql_Query.thy ===== *)
theory Graphql_Query
  imports Types Rust_Text
begin

text \<open>
  \<open>src/src/utils.rs\<close> and \<open>src/src/platform_client.rs\<close>: one GraphQL request and how its outcome
  becomes a \<open>Result\<close>, and the three mutations the daemon sends. The outcome of the HTTP exchange
  (after the retries of \<open>backon\<close> where a strategy is given) is an argument: sending failed, or a
  response came with a status and a body that parses or does not. Error texts that print a value
  with a foreign formatter take the formatter from the record \<open>text_lib\<close>.
\<close>

datatype json = JNull | JBool bool | JInt int | JFloat string | JStr string
  | JArr "json list" | JObj "(string \<times> json) list"

record text_lib =
  json_display :: "json \<Rightarrow> string"
  show_status :: "nat \<Rightarrow> string"
  show_count :: "nat \<Rightarrow> string"
  debug_strings :: "string list \<Rightarrow> string"

text \<open>One concrete choice of the formatters, for evaluation.\<close>

definition sample_text_lib :: text_lib where
  "sample_text_lib = \<lparr>json_display = (\<lambda>j. ''json''), show_status = (\<lambda>n. ''status''),
                      show_count = (\<lambda>n. ''count''), debug_strings = (\<lambda>ss. ''strings'')\<rparr>"

subsection \<open>The outcome of a request\<close>

record gql_error =
  err_message :: string
  err_extensions :: "(string \<times> json) list option"

record 'd gql_response =
  resp_data :: "'d option"
  resp_errors :: "gql_error list option"

datatype 'd http_outcome = SendFailed string | Responded nat "'d gql_response result"

definition gql_error_text :: "text_lib \<Rightarrow> gql_error \<Rightarrow> string" where
  "gql_error_text L e =
     (case err_extensions e of
        None \<Rightarrow> err_message e
      | Some extensions \<Rightarrow>
          (case map_of extensions ''category'' of
             None \<Rightarrow> err_message e
           | Some category \<Rightarrow>
               if category = JStr ''validation''
               then let ext_str = join_with '',''
                          (map (\<lambda>(k, v). json_display L v)
                             (filter (\<lambda>(k, v). k \<noteq> ''category'') extensions))
                    in if ext_str \<noteq> []
                       then err_message e @ [CHR 0x0A] @ ''    Extensions: '' @ ext_str
                       else err_message e
               else err_message e))"

text \<open>The first component is the response bodies written to the debug log.\<close>

definition execute_query_inner ::
    "text_lib \<Rightarrow> bool \<Rightarrow> 'd http_outcome \<Rightarrow> 'd gql_response list \<times> 'd result" where
  "execute_query_inner L log_response_body outcome =
     (case outcome of
        SendFailed e \<Rightarrow> ([], Inl e)
      | Responded status body \<Rightarrow>
          if status = 200
          then (case body of
                  Inl e \<Rightarrow> ([], Inl e)
                | Inr response_body \<Rightarrow>
                    (if log_response_body then [response_body] else [],
                     case resp_data response_body of
                       Some d \<Rightarrow> Inr d
                     | None \<Rightarrow>
                         Inl (case resp_errors response_body of
                                Some errors \<Rightarrow>
                                  ''The following error(s) occurred:'' @ [CHR 0x0A] @ ''- ''
                                  @ join_with ([CHR 0x0A] @ ''- '') (map (gql_error_text L) errors)
                              | None \<Rightarrow> ''no response data'')))
          else ([], Inl (''Received invalid response with status code '' @ show_status L status)))"

definition execute_query :: "text_lib \<Rightarrow> 'd http_outcome \<Rightarrow> 'd result" where
  "execute_query L outcome = snd (execute_query_inner L True outcome)"

definition execute_query_redacted :: "text_lib \<Rightarrow> 'd http_outcome \<Rightarrow> 'd result" where
  "execute_query_redacted L outcome = snd (execute_query_inner L False outcome)"

lemma execute_query_Ok_iff:
  "execute_query L outcome = Inr d \<longleftrightarrow>
     (\<exists>r. outcome = Responded 200 (Inr r) \<and> resp_data r = Some d)"
  by (auto simp: execute_query_def execute_query_inner_def
      split: http_outcome.splits sum.splits option.splits if_splits)

subsection \<open>Retrying a request\<close>

text \<open>The strategy the two batch mutations are retried with: an \<open>ExponentialBuilder\<close> of \<open>backon\<close>, with the
  factor in tenths.\<close>

record backoff_strategy =
  with_jitter :: bool
  factor_tenths :: nat
  min_delay :: duration
  max_delay :: duration
  max_times :: nat

definition platform_backoff :: backoff_strategy where
  "platform_backoff = \<lparr>with_jitter = True, factor_tenths = 15, min_delay = from_secs 6,
     max_delay = from_secs 40, max_times = 6\<rparr>"

text \<open>\<open>retry\<close> is the \<open>Retryable\<close> of \<open>backon\<close>: what becomes of a list of attempts, the first one and those
  it may be repeated with. Without a strategy there is one attempt.\<close>

definition send_request ::
    "(backoff_strategy \<Rightarrow> 'd http_outcome list \<Rightarrow> 'd http_outcome) \<Rightarrow> backoff_strategy option
     \<Rightarrow> 'd http_outcome list \<Rightarrow> 'd http_outcome" where
  "send_request retry strategy attempts =
     (case strategy of Some s \<Rightarrow> retry s attempts | None \<Rightarrow> hd attempts)"

text \<open>As documented: attempts are repeated \<open>max_times\<close> times at most, until one does not fail; a response,
  of whatever status, is not a failure of the attempt.\<close>

fun send_failed :: "'d http_outcome \<Rightarrow> bool" where
  "send_failed (SendFailed e) = True"
| "send_failed (Responded status body) = False"

definition documented_retry :: "(backoff_strategy \<Rightarrow> 'd http_outcome list \<Rightarrow> 'd http_outcome) \<Rightarrow> bool" where
  "documented_retry retry \<longleftrightarrow>
     (\<forall>s attempts. attempts \<noteq> [] \<longrightarrow>
        retry s attempts =
          (case dropWhile send_failed (take (Suc (max_times s)) attempts) of
             [] \<Rightarrow> last (take (Suc (max_times s)) attempts)
           | response # _ \<Rightarrow> response))"

lemma send_request_attempts:
  assumes "documented_retry retry" and "attempts \<noteq> []"
  shows "send_request retry (Some platform_backoff) attempts \<in> set (take 7 attempts)"
    and "list_ex (\<lambda>a. \<not> send_failed a) (take 7 attempts) \<Longrightarrow>
      \<not> send_failed (send_request retry (Some platform_backoff) attempts)"
    and "send_request retry None attempts = hd attempts"
proof -
  have times: "Suc (max_times platform_backoff) = 7" by (simp add: platform_backoff_def)
  have "retry platform_backoff attempts =
      (case dropWhile send_failed (take 7 attempts) of
         [] \<Rightarrow> last (take 7 attempts) | response # _ \<Rightarrow> response)"
    using assms unfolding documented_retry_def times [symmetric] by blast
  then have "send_request retry (Some platform_backoff) attempts =
      (case dropWhile send_failed (take 7 attempts) of
         [] \<Rightarrow> last (take 7 attempts) | response # _ \<Rightarrow> response)"
    by (simp add: send_request_def)
  moreover have "take 7 attempts \<noteq> []" using assms(2) by simp
  moreover have "x \<in> set (take 7 attempts)" "\<not> send_failed x"
    if "dropWhile send_failed (take 7 attempts) = x # xs" for x xs
    using that by (metis set_dropWhileD list.set_intros(1), metis dropWhile_eq_Cons_conv)
  moreover have "\<not> list_ex (\<lambda>a. \<not> send_failed a) (take 7 attempts)"
    if "dropWhile send_failed (take 7 attempts) = []"
    using that by (auto simp: dropWhile_eq_Nil_conv list_ex_iff)
  ultimately show "send_request retry (Some platform_backoff) attempts \<in> set (take 7 attempts)"
    "list_ex (\<lambda>a. \<not> send_failed a) (take 7 attempts) \<Longrightarrow>
      \<not> send_failed (send_request retry (Some platform_backoff) attempts)"
    by (auto split: list.split)
qed (simp add: send_request_def)

subsection \<open>Mutations\<close>

record sign_transaction_input =
  uuid :: string
  signed_extrinsic :: string
  signed_abandon_extrinsic :: string

record populate_managed_wallet_input =
  pw_external_id :: string
  pw_public_key :: string
  pw_signed_message :: string

text \<open>The response type of both mutations is \<open>Boolean!\<close>, a field named \<open>result\<close>.\<close>

definition sign_transactions ::
    "text_lib \<Rightarrow> bool http_outcome \<Rightarrow> sign_transaction_input list \<Rightarrow> unit result" where
  "sign_transactions L outcome transactions =
     (case execute_query L outcome of Inr r \<Rightarrow> Inr () | Inl e \<Rightarrow> Inl e)"

definition populate_managed_wallets ::
    "text_lib \<Rightarrow> bool http_outcome \<Rightarrow> populate_managed_wallet_input list \<Rightarrow> unit result" where
  "populate_managed_wallets L outcome wallets =
     (case execute_query L outcome of
        Inr r \<Rightarrow>
          if \<not> r
          then Inl (''Platform rejected PopulateManagedWallets for ''
                    @ show_count L (length wallets) @ '' wallet(s): ''
                    @ debug_strings L (map pw_external_id wallets))
          else Inr ()
      | Inl e \<Rightarrow> Inl e)"

record pusher_subscription =
  ps_auth :: string
  ps_channel :: string

text \<open>\<open>auth.chars().count()\<close> counts the bytes that do not continue a UTF-8 sequence.\<close>

definition chars_count :: "string \<Rightarrow> nat" where
  "chars_count s = length (filter (\<lambda>c. of_char c div 64 \<noteq> (2::nat)) s)"

definition redact_auth :: "string \<Rightarrow> string" where
  "redact_auth auth = replicate (chars_count auth) CHR ''*''"

text \<open>The result, and what reaches the debug log: the response bodies logged by the query, and the
  redacted \<open>auth\<close> with the channel.\<close>

definition authenticate_pusher_socket ::
    "text_lib \<Rightarrow> pusher_subscription http_outcome
     \<Rightarrow> (pusher_subscription gql_response list \<times> (string \<times> string) list)
        \<times> pusher_subscription result" where
  "authenticate_pusher_socket L outcome =
     (case execute_query_inner L False outcome of
        (logged, Inl e) \<Rightarrow> ((logged, []), Inl e)
      | (logged, Inr response) \<Rightarrow>
          ((logged, [(redact_auth (ps_auth response), ps_channel response)]), Inr response))"

lemma populate_ok_iff: "populate_managed_wallets L outcome ws = Inr () \<longleftrightarrow> execute_query L outcome = Inr True"
  by (cases "execute_query L outcome") (auto simp: populate_managed_wallets_def)

lemma sign_transactions_ok_iff:
  "sign_transactions L outcome ts = Inr () \<longleftrightarrow> (\<exists>b. execute_query L outcome = Inr b)"
  by (cases "execute_query L outcome") (auto simp: sign_transactions_def)

subsection \<open>Properties\<close>

text \<open>A query succeeds exactly on a response with status 200 whose body parses and carries data;
  every other outcome (no connection, another status, an unreadable body, GraphQL errors, no data
  at all) is an error. The redacted variant gives the same result and logs no response body.\<close>

lemma execute_query_total:
  "(execute_query L outcome = Inr d \<longleftrightarrow>
      (\<exists>r. outcome = Responded 200 (Inr r) \<and> resp_data r = Some d))
   \<and> execute_query_redacted L outcome = execute_query L outcome
   \<and> fst (execute_query_inner L False outcome) = []"
proof -
  have "execute_query_redacted L outcome = execute_query L outcome"
    by (auto simp: execute_query_def execute_query_redacted_def execute_query_inner_def
        split: http_outcome.splits sum.splits)
  moreover have "fst (execute_query_inner L False outcome) = []"
    by (auto simp: execute_query_inner_def split: http_outcome.splits sum.splits)
  ultimately show ?thesis by (simp add: execute_query_Ok_iff)
qed

text \<open>the Pusher credential never reaches the log: authenticating logs no response body, and
  what it logs of the credential is one asterisk per character.\<close>

lemma pusher_auth_not_logged:
  "fst (fst (authenticate_pusher_socket L outcome)) = []
   \<and> snd (fst (authenticate_pusher_socket L outcome)) =
       (case snd (authenticate_pusher_socket L outcome) of
          Inl e \<Rightarrow> []
        | Inr s \<Rightarrow> [(replicate (chars_count (ps_auth s)) CHR ''*'', ps_channel s)])"
  by (auto simp: authenticate_pusher_socket_def execute_query_inner_def redact_auth_def
      split: http_outcome.splits sum.splits option.splits if_splits)

text \<open>the two batch mutations treat the platform's boolean answer differently. A populate
  mutation succeeds exactly on the answer \<open>true\<close>; a sign mutation succeeds on any answer, so that
  a batch the platform answers with \<open>false\<close> counts as submitted.\<close>

lemma mutation_success:
  "(populate_managed_wallets L outcome ws = Inr () \<longleftrightarrow>
      (\<exists>r. outcome = Responded 200 (Inr r) \<and> resp_data r = Some True))
   \<and> (sign_transactions L outcome ts = Inr () \<longleftrightarrow>
      (\<exists>r b. outcome = Responded 200 (Inr r) \<and> resp_data r = Some b))"
  by (auto simp: populate_ok_iff sign_transactions_ok_iff execute_query_Ok_iff)

end
