(* ===== verification/Key_Derivation.thy ===== *)
theory Key_Derivation
  imports Types
begin

text \<open>
  From an external id to the key that signs for it: \<open>derive_junction\<close> of \<open>src/src/wallet.rs\<close>, which
  creates managed wallets, and \<open>derive_signer\<close> of \<open>src/src/transaction.rs\<close>, which signs for them.
  \<open>str::parse::<i64>\<close> is the standard library's: an optional sign, at least one digit, only
  digits, and a value in range. The soft derivation itself is a parameter.
\<close>

definition digit_value :: "char \<Rightarrow> nat option" where
  "digit_value c = (if 48 \<le> (of_char c :: nat) \<and> (of_char c :: nat) \<le> 57
                    then Some (of_char c - 48) else None)"

fun parse_digits :: "nat \<Rightarrow> string \<Rightarrow> nat option" where
  "parse_digits acc [] = Some acc"
| "parse_digits acc (c # cs) =
     (case digit_value c of None \<Rightarrow> None | Some d \<Rightarrow> parse_digits (acc * 10 + d) cs)"

definition parse_i64 :: "string \<Rightarrow> int option" where
  "parse_i64 s =
     (let (negative, digits) =
        (case s of
           [] \<Rightarrow> (False, [])
         | c # cs \<Rightarrow> if c = CHR ''-'' then (True, cs) else if c = CHR ''+'' then (False, cs)
                     else (False, s))
      in if digits = [] then None
         else case parse_digits 0 digits of
           None \<Rightarrow> None
         | Some n \<Rightarrow>
             (let v = (if negative then - int n else int n)
              in if - (2 ^ 63) \<le> v \<and> v < 2 ^ 63 then Some v else None))"

datatype junction = SoftInt int | SoftStr string

definition derive_junction :: "string \<Rightarrow> junction" where
  "derive_junction external_id =
     (case parse_i64 external_id of Some number \<Rightarrow> SoftInt number | None \<Rightarrow> SoftStr external_id)"

definition derive_signer :: "('kp \<Rightarrow> junction \<Rightarrow> 'kp) \<Rightarrow> 'kp \<Rightarrow> string option \<Rightarrow> 'kp" where
  "derive_signer derive keypair external_id =
     (case external_id of
        Some eid \<Rightarrow>
          derive keypair (case parse_i64 eid of Some n \<Rightarrow> SoftInt n | None \<Rightarrow> SoftStr eid)
      | None \<Rightarrow> keypair)"

subsection \<open>Decimal texts\<close>

definition digit_char :: "nat \<Rightarrow> char" where
  "digit_char d = char_of (48 + d)"

fun show_nat :: "nat \<Rightarrow> string" where
  "show_nat n = (if n < 10 then [digit_char n] else show_nat (n div 10) @ [digit_char (n mod 10)])"

declare show_nat.simps [simp del]

definition show_int :: "int \<Rightarrow> string" where
  "show_int v = (if v < 0 then CHR ''-'' # show_nat (nat (- v)) else show_nat (nat v))"

lemma digit_value_char [simp]: "d < 10 \<Longrightarrow> digit_value (digit_char d) = Some d"
  by (simp add: digit_value_def digit_char_def)

lemma digit_char_not_sign: "d < 10 \<Longrightarrow> digit_char d \<noteq> CHR ''-'' \<and> digit_char d \<noteq> CHR ''+''"
proof -
  assume "d < 10"
  then have "digit_value (digit_char d) \<noteq> None" by simp
  moreover have "digit_value CHR ''-'' = None" "digit_value CHR ''+'' = None"
    by (simp_all add: digit_value_def)
  ultimately show ?thesis by metis
qed

lemma parse_digits_append:
  "parse_digits acc (xs @ ys) =
     (case parse_digits acc xs of None \<Rightarrow> None | Some n \<Rightarrow> parse_digits n ys)"
  by (induction xs arbitrary: acc) (auto split: option.splits)

lemma parse_show_nat: "parse_digits 0 (show_nat n) = Some n"
proof (induction n rule: show_nat.induct)
  case (1 n)
  then show ?case by (subst show_nat.simps) (auto simp: parse_digits_append)
qed

lemma show_nat_Cons: "\<exists>d cs. d < 10 \<and> show_nat n = digit_char d # cs"
proof (induction n rule: show_nat.induct)
  case (1 n)
  then show ?case by (cases "n < 10") (auto simp: show_nat.simps [of n])
qed

lemma parse_show_int:
  "parse_i64 (show_int v) = (if - (2 ^ 63) \<le> v \<and> v < 2 ^ 63 then Some v else None)"
proof -
  obtain d cs where n: "d < 10" "show_nat (nat \<bar>v\<bar>) = digit_char d # cs"
    using show_nat_Cons by blast
  then have "parse_digits 0 (digit_char d # cs) = Some (nat \<bar>v\<bar>)"
    using parse_show_nat by metis
  then show ?thesis
    using n digit_char_not_sign [of d]
    by (cases "v < 0") (auto simp: parse_i64_def show_int_def Let_def)
qed

subsection \<open>Properties\<close>

text \<open>The wallet identity contract on numbers: the decimal text of every \<open>i64\<close> derives from
  that number, the decimal text of any other integer derives from the text itself, and no text
  ever derives from a number out of the \<open>i64\<close> range.\<close>

lemma derive_junction_numbers:
  "derive_junction (show_int v) =
     (if - (2 ^ 63) \<le> v \<and> v < 2 ^ 63 then SoftInt v else SoftStr (show_int v))
   \<and> (derive_junction eid = SoftInt w \<longrightarrow> - (2 ^ 63) \<le> w \<and> w < 2 ^ 63)"
proof -
  have "- (2 ^ 63) \<le> w \<and> w < 2 ^ 63" if "parse_i64 eid = Some w"
    using that by (auto simp: parse_i64_def Let_def split: prod.splits option.splits if_splits)
  then show ?thesis
    by (auto simp: derive_junction_def parse_show_int split: option.splits)
qed

theorem derive_junction_numbers_witness:
  "derive_junction (show_int 42) = SoftInt 42
   \<and> derive_junction (show_int (2 ^ 63)) = SoftStr (show_int (2 ^ 63))"
  using derive_junction_numbers [of 42 "[]" 0] derive_junction_numbers [of "2 ^ 63" "[]" 0]
  by simp

text \<open>Wallet creation and signing agree: for every external id, the key a transaction for that
  id is signed with is the key derived for the managed wallet of that id; two ids share a wallet
  exactly when they are equal or are texts of the same \<open>i64\<close> (\<open>7\<close>, \<open>07\<close> and \<open>+7\<close>).\<close>

lemma signer_matches_managed_wallet:
  "derive_signer derive kp (Some eid) = derive kp (derive_junction eid)
   \<and> derive_signer derive kp None = kp
   \<and> (derive_junction eid = derive_junction eid' \<longleftrightarrow>
        eid = eid' \<or> (parse_i64 eid \<noteq> None \<and> parse_i64 eid = parse_i64 eid'))"
  by (auto simp: derive_signer_def derive_junction_def split: option.splits)

end
