(* ===== verification/Chain_Lib.thy ===== *)
theory Chain_Lib
  imports Key_Derivation
begin

text \<open>
  What the third-party crates (\<open>subxt\<close>, \<open>subxt_signer\<close>, \<open>scale_value\<close>, \<open>scale_decode\<close>, \<open>hex\<close>)
  compute for the daemon: the data they exchange with it and, in the record \<open>chain_lib\<close>, their
  operations, all parameters of the model. Nothing is assumed of them here; a property that needs
  documented behaviour of one names it as a hypothesis. \<open>sample_lib\<close> is one concrete choice, on which
  the hypotheses are shown to be satisfiable.
\<close>

type_synonym u128 = "128 word"

text \<open>\<open>DefaultExtrinsicParamsBuilder\<close>, with the tip that is zero unless it is set.\<close>

record tx_params =
  tx_nonce :: u64
  tx_tip :: u128
  tx_mortality :: u64
  tx_from_block :: u64
  tx_from_block_hash :: h256

record raw_payload =
  pallet_name :: string
  call_name :: string
  field_bytes :: bytes

record call_info =
  ci_pallet_name :: string
  ci_call_name :: string
  ci_args :: "(string \<times> u32) list"

text \<open>\<open>scale_value::Value\<close>.\<close>

datatype primitive = PBool bool | PChar nat | PString string | PU128 nat | PI128 int
  | PU256 bytes | PI256 bytes

datatype composite = Named "(string \<times> scale_value) list" | Unnamed "scale_value list"
  and scale_value = VComposite composite | VVariant string composite
    | VBitSequence "bool list" | VPrimitive primitive

text \<open>How \<open>scale_decode::decode_with_visitor\<close> walks an encoded value: it hands the visitor a leaf
  (a primitive, a string, a bit sequence) with the bytes it takes, or a container whose items it
  decodes one after the other, after the bytes of the container's own header; or it fails.\<close>

datatype scale_walk = Leaf nat | Container nat "scale_walk list" | Undecodable string

record ('meta, 'cab, 'tx, 'kp) chain_lib =
  hex_encode :: "bytes \<Rightarrow> string"
  hex_decode :: "string \<Rightarrow> bytes result"
  h256_from_slice :: "bytes \<Rightarrow> h256 exec"
  decode_option_bytes :: "bytes \<Rightarrow> bytes option result"
  decode_metadata :: "bytes \<Rightarrow> 'meta result"
  at_block :: "'meta client \<Rightarrow> u64 \<Rightarrow> 'cab result"
  metadata_ref :: "'cab \<Rightarrow> 'meta"
  call_info_by_index :: "'meta \<Rightarrow> u8 \<Rightarrow> u8 \<Rightarrow> call_info result"
  create_signable_offline :: "'cab \<Rightarrow> raw_payload \<Rightarrow> tx_params \<Rightarrow> 'tx result"
  sign_extrinsic :: "'tx \<Rightarrow> 'kp \<Rightarrow> bytes result"
  public_key_of :: "'kp \<Rightarrow> public_key"
  sign_message :: "'kp \<Rightarrow> bytes \<Rightarrow> bytes"
  derive_soft :: "'kp \<Rightarrow> junction \<Rightarrow> 'kp"
  walk_value :: "'meta \<Rightarrow> u32 \<Rightarrow> bytes \<Rightarrow> scale_walk"
  decode_value :: "'meta \<Rightarrow> u32 \<Rightarrow> bytes \<Rightarrow> scale_value result"
  encode_value :: "'meta \<Rightarrow> u32 \<Rightarrow> scale_value \<Rightarrow> bytes result"
  value_from_bytes :: "bytes \<Rightarrow> scale_value"

text \<open>A keypair of the sample is one byte, metadata is a list of bytes, and an extrinsic its call and
  its parameters. The call 54/5 is a fuel tank dispatch with a one-byte inner call and settings;
  settings encode to one byte for each field.\<close>

definition sample_call_info :: "bytes \<Rightarrow> u8 \<Rightarrow> u8 \<Rightarrow> call_info result" where
  "sample_call_info m p c =
     (if (p, c) = (0, 0) then Inr \<lparr>ci_pallet_name = ''System'', ci_call_name = ''remark'',
                                   ci_args = [(''remark'', 0)]\<rparr>
      else if (p, c) = (54, 5)
      then Inr \<lparr>ci_pallet_name = ''FuelTanks'', ci_call_name = ''dispatch'',
                ci_args = [(''call'', 0), (''settings'', 1)]\<rparr>
      else Inl ''call not found'')"

definition sample_settings :: scale_value where
  "sample_settings = VVariant ''Some'' (Unnamed [VComposite (Named
     [(''use_none_origin'', VPrimitive (PBool False)),
      (''signature'', VVariant ''None'' (Unnamed []))])])"

fun sample_encode :: "scale_value \<Rightarrow> bytes result" where
  "sample_encode (VVariant n (Unnamed [VComposite (Named fs)])) = Inr (1 # replicate (length fs) 2)"
| "sample_encode v = Inl ''cannot encode''"

definition sample_lib :: "(bytes, bytes, raw_payload \<times> tx_params, u8) chain_lib" where
  "sample_lib =
     \<lparr>hex_encode = map (\<lambda>b. char_of (unat b)),
      hex_decode = (\<lambda>s. Inr (map (\<lambda>c. of_nat (of_char c)) s)),
      h256_from_slice = (\<lambda>b. if length b = 32 then Return b else Panic),
      decode_option_bytes = (\<lambda>b. Inr (Some b)),
      decode_metadata = Inr,
      at_block = (\<lambda>c n. case sc_metadata (enjin_inner c) of
                     [] \<Rightarrow> Inl ''no metadata'' | (v, m) # ms \<Rightarrow> Inr m),
      metadata_ref = (\<lambda>m. m),
      call_info_by_index = sample_call_info,
      create_signable_offline = (\<lambda>c p prm. Inr (p, prm)),
      sign_extrinsic = (\<lambda>(p, prm) kp. Inr (kp # ucast (tx_nonce prm) # field_bytes p)),
      public_key_of = (\<lambda>kp. [kp]),
      sign_message = (\<lambda>kp m. replicate 64 kp),
      derive_soft = (\<lambda>kp j. case j of SoftInt n \<Rightarrow> kp + 1 + word_of_int n
                                   | SoftStr s \<Rightarrow> kp + 128 + of_nat (length s)),
      walk_value = (\<lambda>m t b. if b = [] then Undecodable ''Not enough data'' else Container 0 [Leaf 1]),
      decode_value = (\<lambda>m t b. Inr sample_settings),
      encode_value = (\<lambda>m t v. sample_encode v),
      value_from_bytes = (\<lambda>b. VComposite (Unnamed (map (\<lambda>x. VPrimitive (PU128 (unat x))) b)))\<rparr>"

end
