(* ===== verification/Chain_Info.thy ===== *)
theory Chain_Info
  imports Graphql_Query Chain_Lib
begin

text \<open>
  \<open>src/src/chain_info.rs\<close>: chain data read from the platform. What the third-party crates compute is
  in the record \<open>chain_lib\<close>.
\<close>

text \<open>\<open>s.split('x').nth(1)\<close>: the text between the first and the second \<open>x\<close>, or after the only one.\<close>

fun split_on :: "char \<Rightarrow> string \<Rightarrow> string list" where
  "split_on c [] = [[]]"
| "split_on c (a # s) =
     (if a = c then [] # split_on c s
      else (case split_on c s of [] \<Rightarrow> [[a]] | p # ps \<Rightarrow> (a # p) # ps))"

definition split_nth_1 :: "string \<Rightarrow> string option" where
  "split_nth_1 s = (case split_on CHR ''x'' s of p # q # ps \<Rightarrow> Some q | _ \<Rightarrow> None)"

lemma split_on_no_sep: "c \<notin> set s \<Longrightarrow> split_on c s = [s]"
  by (induction s) auto

lemma split_on_sep: "c \<notin> set s \<Longrightarrow> split_on c (s @ c # t) = s # split_on c t"
  by (induction s) auto

lemma split_nth_1_0x: "CHR ''x'' \<notin> set s \<Longrightarrow> split_nth_1 (''0x'' @ s) = Some s"
  by (simp add: split_nth_1_def split_on_no_sep)

subsection \<open>Queries\<close>

record chain_info_reply =
  ci_spec_version :: i64
  ci_transaction_version :: i64
  ci_metadata_version :: i64
  ci_metadata :: string

record block_reply =
  br_current_block_number :: i64
  br_current_block_hash :: string
  br_spec_version :: i64

text \<open>\<open>as u32\<close> keeps the low 32 bits and \<open>as u64\<close> all 64 bits of an \<open>i64\<close>.\<close>

definition as_u32 :: "i64 \<Rightarrow> u32" where "as_u32 x = ucast x"
definition as_u64 :: "i64 \<Rightarrow> u64" where "as_u64 x = x"

fun get_genesis_hash :: "network \<Rightarrow> chain \<Rightarrow> h256" where
  "get_genesis_hash Canary Relay =
     [0x73, 0x5D, 0x87, 0x73, 0xC6, 0x3E, 0x74, 0xFF, 0x84, 0x90, 0xFE, 0xE5, 0x75, 0x1A, 0xC0, 0x7E,
      0x15, 0xBF, 0xE2, 0xB3, 0xB5, 0x26, 0x3B, 0xE4, 0xD6, 0x83, 0xC4, 0x8D, 0xBD, 0xFB, 0xCD, 0x15]"
| "get_genesis_hash Canary Matrix =
     [0xA3, 0x77, 0x25, 0xFD, 0x89, 0x43, 0xD2, 0xA5, 0x24, 0xCB, 0x7E, 0xCC, 0x65, 0xDA, 0x43, 0x8F,
      0x9F, 0xA6, 0x44, 0xDB, 0x78, 0xBA, 0x24, 0xDC, 0xD0, 0x00, 0x3E, 0x2F, 0x95, 0x64, 0x5E, 0x8F]"
| "get_genesis_hash Enjin Relay =
     [0xD8, 0x76, 0x1D, 0x3C, 0x88, 0xF2, 0x6D, 0xC1, 0x28, 0x75, 0xC0, 0x0D, 0x31, 0x65, 0xF7, 0xD6,
      0x72, 0x43, 0xD5, 0x6F, 0xC8, 0x5B, 0x4C, 0xF1, 0x99, 0x37, 0x60, 0x1A, 0x79, 0x16, 0xE5, 0xA9]"
| "get_genesis_hash Enjin Matrix =
     [0x3A, 0xF4, 0xFF, 0x48, 0xEC, 0x76, 0xD2, 0xEF, 0xC8, 0x47, 0x67, 0x30, 0xF4, 0x23, 0xAC, 0x07,
      0xE2, 0x5A, 0xD4, 0x8F, 0x5F, 0x4C, 0x9D, 0xC3, 0x9C, 0x77, 0x8B, 0x16, 0x4D, 0x80, 0x86, 0x15]"

definition build_metadata_info ::
    "('meta, 'cab, 'tx, 'kp) chain_lib \<Rightarrow> network \<Rightarrow> chain \<Rightarrow> chain_info_reply
     \<Rightarrow> 'meta metadata_info result" where
  "build_metadata_info lib network chain info =
     (if 16 < sint (ci_metadata_version info)
      then Inl ''metadata version greater than 16 is not supported''
      else case ok_or (split_nth_1 (ci_metadata info)) ''missing 0x'' of
        Inl e \<Rightarrow> Inl e
      | Inr hex \<Rightarrow>
      (case hex_decode lib hex of
        Inl e \<Rightarrow> Inl e
      | Inr encoded \<Rightarrow>
      (case decode_option_bytes lib encoded of
        Inl e \<Rightarrow> Inl e
      | Inr decoded \<Rightarrow>
      (case ok_or decoded ''No metadata returned'' of
        Inl e \<Rightarrow> Inl e
      | Inr metadata_bytes \<Rightarrow>
      (case decode_metadata lib metadata_bytes of
        Inl e \<Rightarrow> Inl e
      | Inr metadata \<Rightarrow>
          Inr \<lparr>spec_version = as_u32 (ci_spec_version info),
               md_client = chain_config (as_u32 (ci_spec_version info))
                 (as_u32 (ci_transaction_version info)) metadata (get_genesis_hash network chain)\<rparr>)))))"

definition update_metadata_and_substrate_client ::
    "text_lib \<Rightarrow> ('meta, 'cab, 'tx, 'kp) chain_lib \<Rightarrow> chain_info_reply option http_outcome
     \<Rightarrow> network \<Rightarrow> chain \<Rightarrow> 'meta metadata_store \<Rightarrow> 'meta metadata_store \<times> unit result" where
  "update_metadata_and_substrate_client L lib outcome network chain store =
     (case execute_query L outcome of
        Inl e \<Rightarrow> (store, Inl e)
      | Inr response \<Rightarrow>
      (case ok_or response ''no result for metadata'' of
        Inl e \<Rightarrow> (store, Inl e)
      | Inr info \<Rightarrow>
      (case build_metadata_info lib network chain info of
        Inl e \<Rightarrow> (store, Inl e)
      | Inr metadata \<Rightarrow> (insert_metadata network chain metadata store, Inr ()))))"

definition get_block_and_spec_version ::
    "text_lib \<Rightarrow> ('meta, 'cab, 'tx, 'kp) chain_lib \<Rightarrow> block_reply option http_outcome
     \<Rightarrow> block_info result exec" where
  "get_block_and_spec_version L lib outcome =
     (case execute_query L outcome of
        Inl e \<Rightarrow> Return (Inl e)
      | Inr response \<Rightarrow>
      (case ok_or response ''no result for current block'' of
        Inl e \<Rightarrow> Return (Inl e)
      | Inr info \<Rightarrow>
      (case ok_or (split_nth_1 (br_current_block_hash info)) ''decode block hash failed'' of
        Inl e \<Rightarrow> Return (Inl e)
      | Inr hex \<Rightarrow>
      (case hex_decode lib hex of
        Inl e \<Rightarrow> Return (Inl e)
      | Inr block_hash \<Rightarrow>
      (case h256_from_slice lib block_hash of
        Panic \<Rightarrow> Panic
      | Return hash \<Rightarrow>
          Return (Inr (as_u32 (br_current_block_number info), hash,
                       as_u32 (br_spec_version info))))))))"

text \<open>The response of \<open>GetAccountNonce\<close> is an \<open>Int!\<close>.\<close>

definition get_account_nonce :: "text_lib \<Rightarrow> i64 http_outcome \<Rightarrow> u64 result" where
  "get_account_nonce L outcome =
     (case execute_query L outcome of Inl e \<Rightarrow> Inl e | Inr n \<Rightarrow> Inr (as_u64 n))"

text \<open>The variables of the three queries: network, chain and, for a nonce, the account.\<close>

definition chain_info_variables :: "network \<Rightarrow> chain \<Rightarrow> gql_network \<times> gql_chain" where
  "chain_info_variables network chain = (chain_info_network network, chain_info_chain chain)"

definition block_variables :: "network \<Rightarrow> chain \<Rightarrow> gql_network \<times> gql_chain" where
  "block_variables network chain = (block_network network, block_chain chain)"

definition nonce_variables ::
    "('meta, 'cab, 'tx, 'kp) chain_lib \<Rightarrow> network \<Rightarrow> chain \<Rightarrow> public_key
     \<Rightarrow> gql_network \<times> gql_chain \<times> string" where
  "nonce_variables lib network chain account =
     (nonce_network network, nonce_chain chain, ''0x'' @ hex_encode lib account)"

text \<open>What is asked is asked about one chain, and one account: the answers to different questions are
  answers to different queries, as \<open>batch_env\<close> takes them to be.\<close>

lemma query_variables_inj:
  "chain_info_variables n c = chain_info_variables n' c' \<longleftrightarrow> (n, c) = (n', c')"
  "block_variables n c = block_variables n' c' \<longleftrightarrow> (n, c) = (n', c')"
  "inj (hex_encode lib) \<Longrightarrow>
     nonce_variables lib n c k = nonce_variables lib n' c' k' \<longleftrightarrow> (n, c, k) = (n', c', k')"
  by (cases n; cases c; cases n'; cases c';
      simp add: chain_info_variables_def block_variables_def nonce_variables_def inj_eq)+

subsection \<open>Properties\<close>

text \<open>C40: refreshing the metadata of a chain either fails and leaves the whole store as it was, or
  stores for that chain alone a client configured with the reported versions, the spec version
  being the cached one as well, and with the genesis hash of that very network and chain.\<close>

theorem update_metadata_commits_on_success:
  assumes "update_metadata_and_substrate_client L lib outcome network chain store = (store', r)"
  shows "(r \<noteq> Inr () \<longrightarrow> store' = store)
       \<and> (r = Inr () \<longrightarrow>
            (\<forall>k. k \<noteq> (network, chain) \<longrightarrow> store' k = store k)
            \<and> (\<exists>info client.
                  execute_query L outcome = Inr (Some info)
                  \<and> sint (ci_metadata_version info) \<le> 16
                  \<and> metadata_spec_version network chain store' = Some (as_u32 (ci_spec_version info))
                  \<and> substrate_client network chain store' = Some client
                  \<and> (\<exists>metadata. client = chain_config (as_u32 (ci_spec_version info))
                         (as_u32 (ci_transaction_version info)) metadata
                         (get_genesis_hash network chain))))"
  using assms
  by (auto simp: update_metadata_and_substrate_client_def build_metadata_info_def store_defs ok_or_def
      split: sum.splits option.splits if_splits)

theorem update_metadata_commits_on_success_witness:
  "\<exists>store'. update_metadata_and_substrate_client sample_text_lib sample_lib
       (Responded 200 (Inr \<lparr>resp_data = Some (Some \<lparr>ci_spec_version = 9, ci_transaction_version = 2,
          ci_metadata_version = 14, ci_metadata = ''0xm''\<rparr>), resp_errors = None\<rparr>))
       Enjin Relay Map.empty = (store', Inr ())
     \<and> metadata_spec_version Enjin Relay store' = Some 9 \<and> store' (Enjin, Matrix) = None"
proof -
  define info where "info = \<lparr>ci_spec_version = (9::i64), ci_transaction_version = (2::i64),
    ci_metadata_version = (14::i64), ci_metadata = ''0xm''\<rparr>"
  define outcome where "outcome = Responded 200 (Inr \<lparr>resp_data = Some (Some info), resp_errors = None\<rparr>)"
  have reply: "execute_query sample_text_lib outcome = Inr (Some info)"
    by (simp add: execute_query_Ok_iff outcome_def)
  have "split_nth_1 (ci_metadata info) = Some ''m''"
    by (simp add: info_def split_nth_1_def)
  then have "\<exists>store'. update_metadata_and_substrate_client sample_text_lib sample_lib outcome Enjin Relay Map.empty
      = (store', Inr ())"
    by (simp add: update_metadata_and_substrate_client_def build_metadata_info_def reply)
      (simp add: info_def sample_lib_def)
  then obtain store' where up: "update_metadata_and_substrate_client sample_text_lib sample_lib outcome Enjin Relay
      Map.empty = (store', Inr ())" by blast
  from update_metadata_commits_on_success [OF up] reply have
    "metadata_spec_version Enjin Relay store' = Some 9" "store' (Enjin, Matrix) = None"
    by (auto simp: info_def as_u32_def)
  with up show ?thesis by (auto simp: info_def outcome_def)
qed

text \<open>The genesis hashes the daemon signs with are 32 bytes long and different for the four
  chains, so an extrinsic signed for one chain is never valid on another.\<close>

lemma genesis_hashes_distinct:
  "length (get_genesis_hash n c) = 32
   \<and> (get_genesis_hash n c = get_genesis_hash n' c' \<longleftrightarrow> (n, c) = (n', c'))"
  by (cases n; cases c; cases n'; cases c') simp_all

text \<open>With the documented \<open>H256::from_slice\<close>, which panics on a slice that is not 32 bytes long,
  a platform reply whose block hash decodes to another length ends the task instead of giving an
  error; every other malformed reply is an error value, and a good one gives the low 32 bits of
  the block number and spec version.\<close>

lemma block_query_outcome:
  assumes from_slice: "\<And>b. h256_from_slice lib b = (if length b = 32 then Return b else Panic)"
    and reply: "execute_query L outcome = Inr (Some info)"
    and hash: "split_nth_1 (br_current_block_hash info) = Some hex" "hex_decode lib hex = Inr hash"
  shows "get_block_and_spec_version L lib outcome =
           (if length hash = 32
            then Return (Inr (as_u32 (br_current_block_number info), hash,
                              as_u32 (br_spec_version info)))
            else Panic)"
  using assms by (simp add: get_block_and_spec_version_def)

lemma block_query_panics_iff:
  assumes "\<And>b. h256_from_slice lib b = (if length b = 32 then Return b else Panic)"
  shows "get_block_and_spec_version L lib outcome = Panic \<longleftrightarrow>
    (\<exists>info hex b. execute_query L outcome = Inr (Some info)
       \<and> split_nth_1 (br_current_block_hash info) = Some hex \<and> hex_decode lib hex = Inr b
       \<and> length b \<noteq> 32)"
  using assms
  by (auto simp: get_block_and_spec_version_def ok_or_def split: sum.splits option.splits exec.splits)

lemma block_query_reply:
  assumes "get_block_and_spec_version L lib outcome = Return (Inr (b, h, v))"
  obtains info where "execute_query L outcome = Inr (Some info)"
    "b = as_u32 (br_current_block_number info)"
  using assms
  by (auto simp: get_block_and_spec_version_def ok_or_def split: sum.splits option.splits exec.splits)

theorem block_query_outcome_witness:
  "get_block_and_spec_version sample_text_lib sample_lib
     (Responded 200 (Inr \<lparr>resp_data = Some (Some \<lparr>br_current_block_number = 7,
        br_current_block_hash = ''0x'', br_spec_version = 1\<rparr>), resp_errors = None\<rparr>)) = Panic"
proof -
  define info where "info = \<lparr>br_current_block_number = (7::i64), br_current_block_hash = ''0x'',
    br_spec_version = (1::i64)\<rparr>"
  have "split_nth_1 (br_current_block_hash info) = Some []"
    by (simp add: info_def split_nth_1_def)
  moreover have "hex_decode sample_lib [] = Inr []"
    by (simp add: sample_lib_def)
  moreover have "execute_query sample_text_lib (Responded 200 (Inr \<lparr>resp_data = Some (Some info),
      resp_errors = None\<rparr>)) = Inr (Some info)"
    by (simp add: execute_query_Ok_iff)
  ultimately show ?thesis
    using block_query_outcome [of sample_lib sample_text_lib _ info "[]" "[]"]
    by (simp add: info_def) (simp add: sample_lib_def)
qed

end
