(* ===== verification/Tx_Request.thy ===== *)
theory Tx_Request
  imports Chain_Info
begin

text \<open>
  The transaction requests of \<open>src/src/transaction.rs\<close>: a row of \<open>GetPendingTransactions\<close>, the request
  made from it (\<open>TransactionRequest\<close>), the page the poller fetches, and the payload of an extrinsic
  named by the chain's metadata (\<open>RawPayload\<close>).
\<close>

definition NO_TRANSACTIONS_MSG :: string where
  "NO_TRANSACTIONS_MSG = ''No transactions present in the body''"

definition TRANSACTION_PAGE_SIZE :: int where "TRANSACTION_PAGE_SIZE = 25"

record pending_transaction =
  pt_external_id :: "string option"
  pt_uuid :: string
  pt_encoded_data :: string
  pt_network :: gql_network
  pt_chain :: gql_chain
  pt_should_sign_fuel_tank :: bool
  pt_fuel_tank_signer_external_id :: "string option"

record pending_page =
  pp_data :: "pending_transaction list"
  pp_next_cursor :: "string option"

text \<open>If the last field is \<open>Some\<close>, the extrinsic is a fuel tank dispatch that needs a signature, by the
  wallet with that external id or by the daemon's own key.\<close>

record transaction_request =
  request_id :: string
  external_id :: "string option"
  req_network :: network
  req_chain :: chain
  payload :: bytes
  fuel_tank_signer_external_id :: "string option option"

definition transaction_request_try_from ::
    "('meta, 'cab, 'tx, 'kp) chain_lib \<Rightarrow> pending_transaction \<Rightarrow> transaction_request result" where
  "transaction_request_try_from lib data =
     (case gql_to_network (pt_network data) of
        Inl e \<Rightarrow> Inl e
      | Inr network \<Rightarrow>
      (case gql_to_chain (pt_chain data) of
        Inl e \<Rightarrow> Inl e
      | Inr chain \<Rightarrow>
      (case ok_or (split_nth_1 (pt_encoded_data data)) ''missing 0x'' of
        Inl e \<Rightarrow> Inl e
      | Inr hex \<Rightarrow>
      (case hex_decode lib hex of
        Inl e \<Rightarrow> Inl e
      | Inr encoded \<Rightarrow>
          Inr \<lparr>request_id = pt_uuid data, external_id = pt_external_id data,
               req_network = network, req_chain = chain, payload = encoded,
               fuel_tank_signer_external_id =
                 (if pt_should_sign_fuel_tank data
                  then Some (pt_fuel_tank_signer_external_id data) else None)\<rparr>))))"

definition get_pending_transactions ::
    "text_lib \<Rightarrow> ('meta, 'cab, 'tx, 'kp) chain_lib \<Rightarrow> pending_page option http_outcome
     \<Rightarrow> (transaction_request list \<times> string option) result" where
  "get_pending_transactions L lib outcome =
     (case execute_query L outcome of
        Inl e \<Rightarrow> Inl e
      | Inr None \<Rightarrow> Inl NO_TRANSACTIONS_MSG
      | Inr (Some result) \<Rightarrow>
          (let next_cursor = (case pp_next_cursor result of
                 Some c \<Rightarrow> if c \<noteq> [] then Some c else None | None \<Rightarrow> None)
           in if pp_data result = [] then Inl NO_TRANSACTIONS_MSG
              else Inr (keep_ok (map (transaction_request_try_from lib) (pp_data result)),
                        next_cursor)))"

definition from_bytes ::
    "('meta, 'cab, 'tx, 'kp) chain_lib \<Rightarrow> 'meta \<Rightarrow> bytes \<Rightarrow> raw_payload option" where
  "from_bytes lib metadata encoded =
     (case encoded of
        pallet_index # call_index # rest \<Rightarrow>
          (case call_info_by_index lib metadata pallet_index call_index of
             Inl e \<Rightarrow> None
           | Inr info \<Rightarrow> Some \<lparr>pallet_name = ci_pallet_name info,
                              call_name = ci_call_name info, field_bytes = rest\<rparr>)
      | _ \<Rightarrow> None)"

text \<open>\<open>RawFields\<close> encode to the bytes themselves, whatever the fields the metadata lists.\<close>

definition encode_as_fields_to :: "bytes \<Rightarrow> bytes \<Rightarrow> bytes result" where
  "encode_as_fields_to raw_fields out = Inr (out @ raw_fields)"

text \<open>What \<open>subxt\<close> encodes for a payload, as its documentation has it: the indices under which the
  metadata has the pallet and the call, then the fields. \<open>index_of\<close> is that look-up.\<close>

definition call_data_of ::
    "(string \<Rightarrow> string \<Rightarrow> (u8 \<times> u8) option) \<Rightarrow> raw_payload \<Rightarrow> bytes option" where
  "call_data_of index_of raw =
     (case index_of (pallet_name raw) (call_name raw) of
        None \<Rightarrow> None
      | Some (pallet_index, call_index) \<Rightarrow>
          (case encode_as_fields_to (field_bytes raw) [pallet_index, call_index] of
             Inl e \<Rightarrow> None | Inr encoded \<Rightarrow> Some encoded))"

lemma from_bytes_call_data:
  assumes "\<And>p c info. call_info_by_index lib metadata p c = Inr info \<Longrightarrow>
      index_of (ci_pallet_name info) (ci_call_name info) = Some (p, c)"
    and "from_bytes lib metadata encoded = Some raw"
  shows "call_data_of index_of raw = Some encoded"
  using assms by (auto simp: from_bytes_def call_data_of_def encode_as_fields_to_def
      split: list.splits sum.splits)

subsection \<open>Rows and requests\<close>

text \<open>The row a platform would send for a request.\<close>

definition row_of_request ::
    "('meta, 'cab, 'tx, 'kp) chain_lib \<Rightarrow> transaction_request \<Rightarrow> pending_transaction" where
  "row_of_request lib r =
     \<lparr>pt_external_id = external_id r, pt_uuid = request_id r,
      pt_encoded_data = ''0x'' @ hex_encode lib (payload r),
      pt_network = network_to_gql (req_network r), pt_chain = chain_to_gql (req_chain r),
      pt_should_sign_fuel_tank = (fuel_tank_signer_external_id r \<noteq> None),
      pt_fuel_tank_signer_external_id =
        (case fuel_tank_signer_external_id r of Some e \<Rightarrow> e | None \<Rightarrow> None)\<rparr>"

lemma keep_ok_map_append:
  "keep_ok (map f (xs @ y # ys)) = keep_ok (map f xs) @
     (case f y of Inl e \<Rightarrow> [] | Inr z \<Rightarrow> [z]) @ keep_ok (map f ys)"
  by (cases "f y") simp_all

lemma network_roundtrip [simp]: "gql_to_network (network_to_gql n) = Inr n"
  by (cases n) simp_all

lemma chain_roundtrip [simp]: "gql_to_chain (chain_to_gql c) = Inr c"
  by (cases c) simp_all

lemma pending_page_cursor_nonempty:
  "get_pending_transactions L lib outcome = Inr (reqs, next_cursor) \<Longrightarrow> next_cursor \<noteq> Some []"
  by (auto simp: get_pending_transactions_def Let_def split: sum.splits option.splits if_splits)

end
