(* ===== verification/Nonce_Cache.thy ===== *)
theory Nonce_Cache
  imports Tx_Request
begin

text \<open>
  The first two loops of \<open>transaction_handler\<close> in \<open>src/src/transaction.rs\<close>, which prepare a batch: the
  block and metadata of each chain (\<open>prefetch_chain\<close>) and the rebased nonce of each signer
  (\<open>refresh_nonce\<close>), and the evictions from the nonce cache. The cache is a map from
  \<open>(network, chain, public key)\<close> to the next nonce. What the platform answers to a batch is the
  record \<open>batch_env\<close>; the requests made to it are listed in the order they are made, and each is
  made at most once per batch, so an answer is a function of what is asked.
\<close>

datatype platform_call = GetBlock chain_key | GetChainInfo chain_key | GetNonce nonce_key
  | SubmitBatch "sign_transaction_input list"

record batch_env =
  env_block :: "chain_key \<Rightarrow> block_reply option http_outcome"
  env_chain_info :: "chain_key \<Rightarrow> chain_info_reply option http_outcome"
  env_nonce :: "nonce_key \<Rightarrow> i64 http_outcome"
  env_submit :: "sign_transaction_input list \<Rightarrow> bool http_outcome"

type_synonym nonce_map = "nonce_key \<rightharpoonup> u64"

definition request_chain :: "transaction_request \<Rightarrow> chain_key" where
  "request_chain r = (req_network r, req_chain r)"

definition request_key ::
    "('meta, 'cab, 'tx, 'kp) chain_lib \<Rightarrow> 'kp \<times> transaction_request \<Rightarrow> nonce_key" where
  "request_key lib sr =
     (req_network (snd sr), req_chain (snd sr), public_key_of lib (fst sr))"

lemma chain_key_of_request [simp]: "chain_key_of (request_key lib sr) = request_chain (snd sr)"
  by (simp add: request_key_def request_chain_def)

subsection \<open>Prefetching blocks and metadata\<close>

record 'meta prefetch =
  block_infos :: "chain_key \<rightharpoonup> block_info"
  failed_chains :: "chain_key set"
  pf_store :: "'meta metadata_store"
  pf_calls :: "platform_call list"

definition prefetch_chain ::
    "text_lib \<Rightarrow> ('meta, 'cab, 'tx, 'kp) chain_lib \<Rightarrow> batch_env \<Rightarrow> transaction_request
     \<Rightarrow> 'meta prefetch \<Rightarrow> 'meta prefetch exec" where
  "prefetch_chain L lib env request s =
     (let key = (req_network request, req_chain request)
      in if block_infos s key \<noteq> None \<or> key \<in> failed_chains s then Return s
      else
       (let s1 = s\<lparr>pf_calls := pf_calls s @ [GetBlock key]\<rparr>
        in case get_block_and_spec_version L lib (env_block env key) of
          Panic \<Rightarrow> Panic
        | Return (Inl e) \<Rightarrow> Return (s1\<lparr>failed_chains := insert key (failed_chains s1)\<rparr>)
        | Return (Inr (block_number, block_hash, reported)) \<Rightarrow>
           (let needs_update =
                  (case metadata_spec_version (req_network request) (req_chain request) (pf_store s1) of
                     Some local_version \<Rightarrow> local_version < reported | None \<Rightarrow> True);
                (s2, updated) =
                  (if needs_update
                   then (let (store, r) = update_metadata_and_substrate_client L lib
                               (env_chain_info env key) (req_network request) (req_chain request)
                               (pf_store s1)
                         in (s1\<lparr>pf_store := store, pf_calls := pf_calls s1 @ [GetChainInfo key]\<rparr>, r))
                   else (s1, Inr ()))
            in case updated of
                 Inl e \<Rightarrow> Return (s2\<lparr>failed_chains := insert key (failed_chains s2)\<rparr>)
               | Inr u \<Rightarrow>
                   Return (s2\<lparr>block_infos :=
                     (block_infos s2)(key \<mapsto> (block_number, block_hash, reported))\<rparr>))))"

definition prefetch_chains ::
    "text_lib \<Rightarrow> ('meta, 'cab, 'tx, 'kp) chain_lib \<Rightarrow> batch_env \<Rightarrow> 'meta metadata_store
     \<Rightarrow> transaction_request list \<Rightarrow> 'meta prefetch exec" where
  "prefetch_chains L lib env store requests =
     fold_exec (prefetch_chain L lib env) requests
       \<lparr>block_infos = Map.empty, failed_chains = {}, pf_store = store, pf_calls = []\<rparr>"

subsection \<open>Refreshing nonces\<close>

record nonce_refresh =
  nr_nonces :: nonce_map
  refreshed_keys :: "nonce_key set"
  failed_keys :: "nonce_key set"
  nr_calls :: "platform_call list"

text \<open>\<open>entry(key).or_insert(platform_nonce)\<close>, then a slot below the platform's nonce is raised to it.\<close>

definition rebase_slot :: "nonce_key \<Rightarrow> u64 \<Rightarrow> nonce_map \<Rightarrow> nonce_map" where
  "rebase_slot key platform_nonce nonces =
     (let slot = (case nonces key of Some cached \<Rightarrow> cached | None \<Rightarrow> platform_nonce)
      in nonces(key \<mapsto> (if slot < platform_nonce then platform_nonce else slot)))"

definition refresh_nonce ::
    "text_lib \<Rightarrow> ('meta, 'cab, 'tx, 'kp) chain_lib \<Rightarrow> batch_env \<Rightarrow> chain_key set
     \<Rightarrow> 'kp \<times> transaction_request \<Rightarrow> nonce_refresh \<Rightarrow> nonce_refresh" where
  "refresh_nonce L lib env failed = (\<lambda>(signer, request) s.
     if (req_network request, req_chain request) \<in> failed then s
     else
       (let key = (req_network request, req_chain request, public_key_of lib signer)
        in if key \<in> refreshed_keys s \<or> key \<in> failed_keys s then s
        else
         (let s1 = s\<lparr>nr_calls := nr_calls s @ [GetNonce key]\<rparr>
          in case get_account_nonce L (env_nonce env key) of
               Inr platform_nonce \<Rightarrow>
                 s1\<lparr>nr_nonces := rebase_slot key platform_nonce (nr_nonces s1),
                    refreshed_keys := insert key (refreshed_keys s1)\<rparr>
             | Inl e \<Rightarrow> s1\<lparr>failed_keys := insert key (failed_keys s1)\<rparr>)))"

definition refresh_nonces ::
    "text_lib \<Rightarrow> ('meta, 'cab, 'tx, 'kp) chain_lib \<Rightarrow> batch_env \<Rightarrow> chain_key set \<Rightarrow> nonce_map
     \<Rightarrow> ('kp \<times> transaction_request) list \<Rightarrow> nonce_refresh" where
  "refresh_nonces L lib env failed nonces srs =
     fold (refresh_nonce L lib env failed) srs
       \<lparr>nr_nonces = nonces, refreshed_keys = {}, failed_keys = {}, nr_calls = []\<rparr>"

subsection \<open>Evictions\<close>

definition evict_idle_chains :: "nonce_map \<Rightarrow> chain_key set \<Rightarrow> nonce_map" where
  "evict_idle_chains nonces idle =
     (\<lambda>(net, chain, pk). if (net, chain) \<notin> idle then nonces (net, chain, pk) else None)"

definition evict_nonce_keys :: "nonce_map \<Rightarrow> nonce_key set \<Rightarrow> nonce_map" where
  "evict_nonce_keys nonces keys = (\<lambda>k. if k \<notin> keys then nonces k else None)"

text \<open>The number of entries evicted, which both functions return for the log: \<open>before - nonces.len()\<close>.\<close>

definition evicted_entries :: "nonce_map \<Rightarrow> nonce_map \<Rightarrow> nat" where
  "evicted_entries before retained = card (dom before) - card (dom retained)"

lemma evict_idle_lookup:
  "evict_idle_chains nonces idle k = (if chain_key_of k \<in> idle then None else nonces k)"
  by (cases k) (simp add: evict_idle_chains_def)

lemma evict_keys_lookup:
  "evict_nonce_keys nonces keys k = (if k \<in> keys then None else nonces k)"
  by (simp add: evict_nonce_keys_def)

subsection \<open>What the two loops compute\<close>

lemma rebase_slot_lookup:
  "rebase_slot key p nonces key = Some (case nonces key of Some c \<Rightarrow> max c p | None \<Rightarrow> p)"
  "k \<noteq> key \<Longrightarrow> rebase_slot key p nonces k = nonces k"
  by (auto simp: rebase_slot_def Let_def max_def split: option.splits)

text \<open>After the refresh a key is in one of three classes. Every request's chain has failed or its
  key has been refreshed or has failed; only the refreshed keys have changed, to the larger of the
  cached and the platform's nonce.\<close>

definition slot_after ::
    "text_lib \<Rightarrow> batch_env \<Rightarrow> nonce_map \<Rightarrow> nonce_key set \<Rightarrow> nonce_key \<Rightarrow> u64 option \<Rightarrow> bool" where
  "slot_after L env nonces refreshed k slot \<longleftrightarrow>
     (if k \<in> refreshed
      then \<exists>p. get_account_nonce L (env_nonce env k) = Inr p
             \<and> slot = Some (case nonces k of Some c \<Rightarrow> max c p | None \<Rightarrow> p)
      else slot = nonces k)"

definition refresh_inv ::
    "text_lib \<Rightarrow> ('meta, 'cab, 'tx, 'kp) chain_lib \<Rightarrow> batch_env \<Rightarrow> chain_key set \<Rightarrow> nonce_map
     \<Rightarrow> ('kp \<times> transaction_request) list \<Rightarrow> nonce_refresh \<Rightarrow> bool" where
  "refresh_inv L lib env failed nonces srs s \<longleftrightarrow>
     refreshed_keys s \<inter> failed_keys s = {}
     \<and> refreshed_keys s \<union> failed_keys s
         = {k \<in> request_key lib ` set srs. chain_key_of k \<notin> failed}
     \<and> (\<forall>k. slot_after L env nonces (refreshed_keys s) k (nr_nonces s k))
     \<and> (\<forall>k \<in> failed_keys s. \<exists>e. get_account_nonce L (env_nonce env k) = Inl e)
     \<and> (\<exists>ks. nr_calls s = map GetNonce ks \<and> distinct ks
            \<and> set ks = refreshed_keys s \<union> failed_keys s)"


lemma refresh_invD:
  assumes "refresh_inv L lib env failed nonces srs s"
  shows "refreshed_keys s \<inter> failed_keys s = {}"
    and "refreshed_keys s \<union> failed_keys s
      = {k \<in> request_key lib ` set srs. chain_key_of k \<notin> failed}"
    and "\<forall>k. slot_after L env nonces (refreshed_keys s) k (nr_nonces s k)"
    and "\<forall>k \<in> failed_keys s. \<exists>e. get_account_nonce L (env_nonce env k) = Inl e"
    and "\<exists>ks. nr_calls s = map GetNonce ks \<and> distinct ks
      \<and> set ks = refreshed_keys s \<union> failed_keys s"
proof -
  note s = assms [unfolded refresh_inv_def]
  from s show "refreshed_keys s \<inter> failed_keys s = {}" by (elim conjE)
  from s show "refreshed_keys s \<union> failed_keys s
      = {k \<in> request_key lib ` set srs. chain_key_of k \<notin> failed}" by (elim conjE)
  from s show "\<forall>k. slot_after L env nonces (refreshed_keys s) k (nr_nonces s k)" by (elim conjE)
  from s show "\<forall>k \<in> failed_keys s. \<exists>e. get_account_nonce L (env_nonce env k) = Inl e"
    by (elim conjE)
  from s show "\<exists>ks. nr_calls s = map GetNonce ks \<and> distinct ks
      \<and> set ks = refreshed_keys s \<union> failed_keys s" by (elim conjE)
qed

lemma refresh_nonce_cases:
  obtains
    (skip) "refresh_nonce L lib env failed sr s = s"
      "chain_key_of (request_key lib sr) \<in> failed
       \<or> request_key lib sr \<in> refreshed_keys s \<union> failed_keys s"
  | (failed) e where
      "chain_key_of (request_key lib sr) \<notin> failed" "request_key lib sr \<notin> refreshed_keys s \<union> failed_keys s"
      "get_account_nonce L (env_nonce env (request_key lib sr)) = Inl e"
      "refresh_nonce L lib env failed sr s =
         s\<lparr>nr_calls := nr_calls s @ [GetNonce (request_key lib sr)],
           failed_keys := insert (request_key lib sr) (failed_keys s)\<rparr>"
  | (refreshed) p where
      "chain_key_of (request_key lib sr) \<notin> failed" "request_key lib sr \<notin> refreshed_keys s \<union> failed_keys s"
      "get_account_nonce L (env_nonce env (request_key lib sr)) = Inr p"
      "refresh_nonce L lib env failed sr s =
         s\<lparr>nr_calls := nr_calls s @ [GetNonce (request_key lib sr)],
           nr_nonces := rebase_slot (request_key lib sr) p (nr_nonces s),
           refreshed_keys := insert (request_key lib sr) (refreshed_keys s)\<rparr>"
proof -
  obtain signer request where sr: "sr = (signer, request)" by (cases sr)
  have key: "(req_network request, req_chain request, public_key_of lib signer) = request_key lib sr"
    "(req_network request, req_chain request) = chain_key_of (request_key lib sr)"
    by (simp_all add: sr request_key_def)
  note result = refresh_nonce_def [of L lib env failed, THEN fun_cong, THEN fun_cong, of sr s,
      unfolded sr prod.case key [unfolded sr] Let_def, folded sr]
  show thesis
  proof (cases "chain_key_of (request_key lib sr) \<in> failed
      \<or> request_key lib sr \<in> refreshed_keys s \<union> failed_keys s")
    case True
    then show thesis using result by (intro skip) auto
  next
    case False
    then show thesis
      using result failed refreshed
      by (cases "get_account_nonce L (env_nonce env (request_key lib sr))") auto
  qed
qed

text \<open>A key asked for the first time.\<close>

lemma new_key_call:
  assumes "\<exists>ks. calls = map GetNonce ks \<and> distinct ks \<and> set ks = known" and "key \<notin> known"
  shows "\<exists>ks. calls @ [GetNonce key] = map GetNonce ks \<and> distinct ks \<and> set ks = insert key known"
proof -
  from assms(1) obtain ks where "calls = map GetNonce ks" "distinct ks" "set ks = known" by blast
  then show ?thesis using assms(2) by (intro exI [of _ "ks @ [key]"]) auto
qed

lemma slot_after_insert:
  assumes "\<forall>k. slot_after L env nonces refreshed k (slots k)" and "key \<notin> refreshed"
    and "get_account_nonce L (env_nonce env key) = Inr p"
  shows "\<forall>k. slot_after L env nonces (insert key refreshed) k (rebase_slot key p slots k)"
proof
  fix k
  have "slots key = nonces key" using spec [OF assms(1), of key] assms(2) by (simp add: slot_after_def)
  then show "slot_after L env nonces (insert key refreshed) k (rebase_slot key p slots k)"
    using spec [OF assms(1), of k] assms(3)
    by (cases "k = key") (auto simp: rebase_slot_lookup slot_after_def)
qed

lemma refresh_inv_step:
  assumes s: "refresh_inv L lib env failed nonces srs s"
  shows "refresh_inv L lib env failed nonces (srs @ [sr]) (refresh_nonce L lib env failed sr s)"
proof -
  let ?key = "request_key lib sr"
  have keys: "{k \<in> request_key lib ` set (srs @ [sr]). chain_key_of k \<notin> failed} =
      (if chain_key_of ?key \<in> failed then {} else {?key}) \<union> (refreshed_keys s \<union> failed_keys s)"
    unfolding refresh_invD(2) [OF s] by auto
  show ?thesis
  proof (cases rule: refresh_nonce_cases [of L lib env failed sr s])
    case skip
    then show ?thesis
      using refresh_invD(1,3,4,5) [OF s] unfolding refresh_inv_def keys skip(1)
      by (intro conjI) (auto simp del: split_paired_All)
  next
    case (failed e)
    then show ?thesis
      using refresh_invD(1,3,4) [OF s] new_key_call [OF refresh_invD(5) [OF s], of ?key]
      unfolding refresh_inv_def keys by (intro conjI) (auto simp del: split_paired_All)
  next
    case (refreshed p)
    then show ?thesis
      using refresh_invD(1,4) [OF s] new_key_call [OF refresh_invD(5) [OF s], of ?key]
        slot_after_insert [OF refresh_invD(3) [OF s], of ?key p]
      unfolding refresh_inv_def keys by (intro conjI) (auto simp del: split_paired_All)
  qed
qed

lemma refresh_nonces_inv:
  "refresh_inv L lib env failed nonces srs (refresh_nonces L lib env failed nonces srs)"
proof (induction srs rule: rev_induct)
  case Nil
  then show ?case by (simp add: refresh_nonces_def refresh_inv_def slot_after_def)
next
  case (snoc sr srs)
  then show ?case using refresh_inv_step by (fastforce simp: refresh_nonces_def)
qed

text \<open>After the prefetch every chain of the batch is ready or has failed; a ready chain has the block
  the platform reported and a client in the store; each request is made once for each chain.\<close>

definition prefetch_inv ::
    "text_lib \<Rightarrow> ('meta, 'cab, 'tx, 'kp) chain_lib \<Rightarrow> batch_env \<Rightarrow> 'meta metadata_store
     \<Rightarrow> transaction_request list \<Rightarrow> 'meta prefetch \<Rightarrow> bool" where
  "prefetch_inv L lib env store requests s \<longleftrightarrow>
     dom (block_infos s) \<inter> failed_chains s = {}
     \<and> dom (block_infos s) \<union> failed_chains s = request_chain ` set requests
     \<and> (\<forall>k \<in> dom (block_infos s).
           get_block_and_spec_version L lib (env_block env k) = Return (Inr (the (block_infos s k)))
           \<and> pf_store s k \<noteq> None)
     \<and> (\<forall>k \<in> - request_chain ` set requests. pf_store s k = store k)
     \<and> distinct (pf_calls s)
     \<and> set (pf_calls s) \<subseteq> GetBlock ` request_chain ` set requests
                         \<union> GetChainInfo ` request_chain ` set requests"

lemma update_metadata_store:
  assumes "update_metadata_and_substrate_client L lib outcome n c store = (store', r)"
  shows "k \<noteq> (n, c) \<Longrightarrow> store' k = store k" and "r = Inr () \<Longrightarrow> store' (n, c) \<noteq> None"
    and "store k \<noteq> None \<Longrightarrow> store' k \<noteq> None"
  using assms
  by (auto simp: update_metadata_and_substrate_client_def insert_metadata_def
      split: sum.splits if_splits)


text \<open>A chain whose block is known: it is ready, unless its metadata had to be fetched and could not be.\<close>

lemma prefetch_known_block:
  assumes "prefetch_chain L lib env request s = Return s'"
    and "request_chain request \<notin> dom (block_infos s) \<union> failed_chains s"
    and "get_block_and_spec_version L lib (env_block env (request_chain request)) = Return (Inr b)"
  obtains store calls where
    "calls \<in> {[GetBlock (request_chain request)],
      [GetBlock (request_chain request), GetChainInfo (request_chain request)]}"
    "\<forall>k \<in> - {request_chain request}. store k = pf_store s k"
    "s' = s\<lparr>pf_store := store, pf_calls := pf_calls s @ calls,
             failed_chains := insert (request_chain request) (failed_chains s)\<rparr>
     \<or> s' = s\<lparr>pf_store := store, pf_calls := pf_calls s @ calls,
               block_infos := (block_infos s)(request_chain request \<mapsto> b)\<rparr>
       \<and> store (request_chain request) \<noteq> None"
proof -
  define key where "key = request_chain request"
  have key: "(req_network request, req_chain request) = key"
    by (simp add: key_def request_chain_def)
  obtain bn bh reported where b: "b = (bn, bh, reported)" by (cases b)
  define needs where "needs \<longleftrightarrow>
    (case metadata_spec_version (req_network request) (req_chain request) (pf_store s) of
       Some v \<Rightarrow> v < reported | None \<Rightarrow> True)"
  obtain store u where up: "update_metadata_and_substrate_client L lib (env_chain_info env key)
      (req_network request) (req_chain request) (pf_store s) = (store, u)"
    by fastforce
  have fresh: "\<not> (block_infos s key \<noteq> None \<or> key \<in> failed_chains s)"
    using assms(2) by (auto simp: key_def)
  have result: "prefetch_chain L lib env request s =
      (if needs
       then (case u of
               Inl e \<Rightarrow> Return (s\<lparr>pf_store := store, pf_calls := pf_calls s @ [GetBlock key, GetChainInfo key],
                 failed_chains := insert key (failed_chains s)\<rparr>)
             | Inr v \<Rightarrow> Return (s\<lparr>pf_store := store, pf_calls := pf_calls s @ [GetBlock key, GetChainInfo key],
                 block_infos := (block_infos s)(key \<mapsto> b)\<rparr>))
       else Return (s\<lparr>pf_calls := pf_calls s @ [GetBlock key], block_infos := (block_infos s)(key \<mapsto> b)\<rparr>))"
    using assms(3) [folded key_def] fresh b up
    by (cases u) (simp_all add: prefetch_chain_def key Let_def flip: needs_def)
  show thesis
  proof (cases needs)
    case True
    then show thesis
      using assms(1) result update_metadata_store [OF up] key
      by (cases u; intro that [of "[GetBlock key, GetChainInfo key]" store]) (auto simp: key_def)
  next
    case False
    then have "pf_store s key \<noteq> None"
      unfolding needs_def metadata_spec_version_def key by (auto split: option.splits)
    then show thesis
      using assms(1) result False by (intro that [of "[GetBlock key]" "pf_store s"]) (auto simp: key_def)
  qed
qed

lemma prefetch_chain_cases:
  assumes "prefetch_chain L lib env request s = Return s'"
  obtains (seen) "request_chain request \<in> dom (block_infos s) \<union> failed_chains s" "s' = s"
  | (failed) store calls where
      "request_chain request \<notin> dom (block_infos s) \<union> failed_chains s"
      "s' = s\<lparr>pf_store := store, pf_calls := pf_calls s @ calls,
              failed_chains := insert (request_chain request) (failed_chains s)\<rparr>"
      "calls \<in> {[GetBlock (request_chain request)],
        [GetBlock (request_chain request), GetChainInfo (request_chain request)]}"
      "\<forall>k \<in> - {request_chain request}. store k = pf_store s k"
  | (ready) store calls b where
      "request_chain request \<notin> dom (block_infos s) \<union> failed_chains s"
      "s' = s\<lparr>pf_store := store, pf_calls := pf_calls s @ calls,
              block_infos := (block_infos s)(request_chain request \<mapsto> b)\<rparr>"
      "calls \<in> {[GetBlock (request_chain request)],
        [GetBlock (request_chain request), GetChainInfo (request_chain request)]}"
      "\<forall>k \<in> - {request_chain request}. store k = pf_store s k"
      "get_block_and_spec_version L lib (env_block env (request_chain request)) = Return (Inr b)"
      "store (request_chain request) \<noteq> None"
proof (cases "request_chain request \<in> dom (block_infos s) \<union> failed_chains s")
  case True
  then have "s' = s" using assms by (auto simp: prefetch_chain_def request_chain_def)
  with True show thesis by (rule seen)
next
  case new: False
  then have fresh: "\<not> (block_infos s (request_chain request) \<noteq> None \<or> request_chain request \<in> failed_chains s)"
    by auto
  note key = request_chain_def [of request, symmetric]
  show thesis
  proof (cases "get_block_and_spec_version L lib (env_block env (request_chain request))")
    case Panic
    then show thesis using assms fresh by (simp add: prefetch_chain_def key Let_def)
  next
    case (Return r)
    show thesis
    proof (cases r)
      case (Inl e)
      then have "s' = s\<lparr>pf_store := pf_store s, pf_calls := pf_calls s @ [GetBlock (request_chain request)],
          failed_chains := insert (request_chain request) (failed_chains s)\<rparr>"
        using assms fresh Return by (simp add: prefetch_chain_def key Let_def)
      then show thesis using new by (intro failed [where store = "pf_store s"]) auto
    next
      case (Inr b)
      then have block: "get_block_and_spec_version L lib (env_block env (request_chain request)) = Return (Inr b)"
        using Return by simp
      show thesis
        by (rule prefetch_known_block [OF assms new block]) (use new block failed ready in blast)
    qed
  qed
qed


lemma prefetch_invD:
  assumes "prefetch_inv L lib env store0 requests s"
  shows "dom (block_infos s) \<inter> failed_chains s = {}"
    and "dom (block_infos s) \<union> failed_chains s = request_chain ` set requests"
    and "\<And>k b. block_infos s k = Some b \<Longrightarrow>
           get_block_and_spec_version L lib (env_block env k) = Return (Inr b) \<and> pf_store s k \<noteq> None"
    and "\<And>k. k \<notin> request_chain ` set requests \<Longrightarrow> pf_store s k = store0 k"
    and "distinct (pf_calls s)"
    and "set (pf_calls s) \<subseteq> GetBlock ` request_chain ` set requests
                         \<union> GetChainInfo ` request_chain ` set requests"
proof -
  note i = assms [unfolded prefetch_inv_def]
  from i show "dom (block_infos s) \<inter> failed_chains s = {}" by (elim conjE)
  from i show "dom (block_infos s) \<union> failed_chains s = request_chain ` set requests" by (elim conjE)
  from i show "distinct (pf_calls s)" by (elim conjE)
  from i show "set (pf_calls s) \<subseteq> GetBlock ` request_chain ` set requests
                         \<union> GetChainInfo ` request_chain ` set requests" by (elim conjE)
  fix k
  from i have "\<forall>k \<in> dom (block_infos s).
      get_block_and_spec_version L lib (env_block env k) = Return (Inr (the (block_infos s k)))
      \<and> pf_store s k \<noteq> None" by (elim conjE)
  then show "get_block_and_spec_version L lib (env_block env k) = Return (Inr b) \<and> pf_store s k \<noteq> None"
    if "block_infos s k = Some b" for b using that by (metis domI option.sel)
  from i have "\<forall>k \<in> - request_chain ` set requests. pf_store s k = store0 k" by (elim conjE)
  then show "k \<notin> request_chain ` set requests \<Longrightarrow> pf_store s k = store0 k" by blast
qed

lemma prefetch_inv_extend:
  assumes inv: "prefetch_inv L lib env store0 requests s"
    and key: "request_chain request \<notin> request_chain ` set requests"
    and bi: "dom bi \<inter> fc = {}"
      "dom bi \<union> fc = insert (request_chain request) (dom (block_infos s) \<union> failed_chains s)"
      "\<And>k b. bi k = Some b \<Longrightarrow>
         if k = request_chain request
         then get_block_and_spec_version L lib (env_block env k) = Return (Inr b) \<and> store k \<noteq> None
         else block_infos s k = Some b"
    and store: "\<forall>k \<in> - {request_chain request}. store k = pf_store s k"
    and calls: "calls \<in> {[GetBlock (request_chain request)],
        [GetBlock (request_chain request), GetChainInfo (request_chain request)]}"
  shows "prefetch_inv L lib env store0 (requests @ [request])
    (s\<lparr>pf_store := store, pf_calls := pf_calls s @ calls, block_infos := bi, failed_chains := fc\<rparr>)"
proof -
  note D = prefetch_invD [OF inv]
  have img: "request_chain ` set (requests @ [request])
      = insert (request_chain request) (request_chain ` set requests)"
    by simp
  have "\<forall>k \<in> dom bi. get_block_and_spec_version L lib (env_block env k) = Return (Inr (the (bi k)))
      \<and> store k \<noteq> None"
  proof
    fix k
    assume "k \<in> dom bi"
    then obtain b where "bi k = Some b" by blast
    from bi(3) [OF this] this show "get_block_and_spec_version L lib (env_block env k)
        = Return (Inr (the (bi k))) \<and> store k \<noteq> None"
      using D(3) [of k b] bspec [OF store, of k] by (auto split: if_splits)
  qed
  moreover have "dom bi \<union> fc = insert (request_chain request) (request_chain ` set requests)"
    using bi(2) D(2) by simp
  moreover have "\<forall>k \<in> - insert (request_chain request) (request_chain ` set requests). store k = store0 k"
    using store D(4) by simp
  moreover have "GetBlock (request_chain request) \<notin> set (pf_calls s)"
    "GetChainInfo (request_chain request) \<notin> set (pf_calls s)"
    using D(6) key by (auto dest!: subsetD)
  then have "distinct calls" "set (pf_calls s) \<inter> set calls = {}"
    using calls by auto
  moreover have "set calls \<subseteq> GetBlock ` insert (request_chain request) (request_chain ` set requests)
      \<union> GetChainInfo ` insert (request_chain request) (request_chain ` set requests)"
    using calls by auto
  moreover have "set (pf_calls s)
      \<subseteq> GetBlock ` insert (request_chain request) (request_chain ` set requests)
      \<union> GetChainInfo ` insert (request_chain request) (request_chain ` set requests)"
    using D(6) by blast
  ultimately show ?thesis
    unfolding prefetch_inv_def img using bi(1) D(5) by (intro conjI) simp_all
qed

lemma prefetch_inv_step:
  assumes inv: "prefetch_inv L lib env store0 requests s"
    and step: "prefetch_chain L lib env request s = Return s'"
  shows "prefetch_inv L lib env store0 (requests @ [request]) s'"
proof -
  note D = prefetch_invD [OF inv]
  from step show ?thesis
  proof (cases rule: prefetch_chain_cases)
    case seen
    have "request_chain request \<in> request_chain ` set requests"
      using seen(1) D(2) by simp
    then have "request_chain ` set (requests @ [request]) = request_chain ` set requests"
      by auto
    then show ?thesis using inv unfolding seen(2) prefetch_inv_def by simp
  next
    case (failed store calls)
    have "prefetch_inv L lib env store0 (requests @ [request])
      (s\<lparr>pf_store := store, pf_calls := pf_calls s @ calls, block_infos := block_infos s,
         failed_chains := insert (request_chain request) (failed_chains s)\<rparr>)"
      using failed(1) D(1,2) by (intro prefetch_inv_extend [OF inv _ _ _ _ failed(4,3)]) auto
    then show ?thesis using failed(2) by simp
  next
    case (ready store calls b0)
    have "prefetch_inv L lib env store0 (requests @ [request])
      (s\<lparr>pf_store := store, pf_calls := pf_calls s @ calls,
         block_infos := (block_infos s)(request_chain request \<mapsto> b0),
         failed_chains := failed_chains s\<rparr>)"
      using ready(1,5,6) D(1,2)
      by (intro prefetch_inv_extend [OF inv _ _ _ _ ready(4,3)]) (auto split: if_splits)
    then show ?thesis using ready(2) by simp
  qed
qed

lemma prefetch_chains_inv:
  assumes "prefetch_chains L lib env store requests = Return s"
  shows "prefetch_inv L lib env store requests s"
  using assms unfolding prefetch_chains_def
  by (rule fold_exec_invariant) (auto intro: prefetch_inv_step simp: prefetch_inv_def [of _ _ _ _ "[]"])

subsection \<open>What is asked of the platform, and which chains are ready\<close>

text \<open>Said of the answers alone: the metadata of a chain is asked for when its block is known and
  the store has none for it, or one of an older spec version than the block's; a chain is ready when
  its block is known and its metadata, if it had to be asked for, could be stored.\<close>

definition asks_metadata ::
    "text_lib \<Rightarrow> ('meta, 'cab, 'tx, 'kp) chain_lib \<Rightarrow> batch_env \<Rightarrow> 'meta metadata_store
     \<Rightarrow> chain_key \<Rightarrow> bool" where
  "asks_metadata L lib env store k \<longleftrightarrow>
     (case get_block_and_spec_version L lib (env_block env k) of
        Return (Inr (b, h, reported)) \<Rightarrow>
          (case metadata_spec_version (fst k) (snd k) store of
             Some version \<Rightarrow> version < reported | None \<Rightarrow> True)
      | _ \<Rightarrow> False)"

definition chain_ready ::
    "text_lib \<Rightarrow> ('meta, 'cab, 'tx, 'kp) chain_lib \<Rightarrow> batch_env \<Rightarrow> 'meta metadata_store
     \<Rightarrow> chain_key \<Rightarrow> bool" where
  "chain_ready L lib env store k \<longleftrightarrow>
     (\<exists>block. get_block_and_spec_version L lib (env_block env k) = Return (Inr block))
     \<and> (asks_metadata L lib env store k \<longrightarrow>
          snd (update_metadata_and_substrate_client L lib (env_chain_info env k) (fst k) (snd k) store)
            = Inr ())"

lemma update_metadata_result:
  "snd (update_metadata_and_substrate_client L lib outcome n c store) =
   snd (update_metadata_and_substrate_client L lib outcome n c store')"
  by (simp add: update_metadata_and_substrate_client_def split: sum.splits)

lemma prefetch_chain_answers:
  assumes step: "prefetch_chain L lib env request s = Return s'"
    and new: "request_chain request \<notin> dom (block_infos s) \<union> failed_chains s"
    and same: "pf_store s (request_chain request) = store (request_chain request)"
  shows "get_block_and_spec_version L lib (env_block env (request_chain request)) \<noteq> Panic"
    and "dom (block_infos s') = dom (block_infos s)
      \<union> (if chain_ready L lib env store (request_chain request) then {request_chain request} else {})"
    and "pf_calls s' = pf_calls s @ GetBlock (request_chain request)
      # (if asks_metadata L lib env store (request_chain request)
         then [GetChainInfo (request_chain request)] else [])"
proof -
  define key where "key = request_chain request"
  have key: "(req_network request, req_chain request) = key" "req_network request = fst key"
    "req_chain request = snd key"
    by (simp_all add: key_def request_chain_def)
  have spec: "metadata_spec_version (fst key) (snd key) (pf_store s)
      = metadata_spec_version (fst key) (snd key) store"
    using same by (simp add: metadata_spec_version_def flip: key_def)
  have update: "snd (update_metadata_and_substrate_client L lib (env_chain_info env key) (fst key)
        (snd key) (pf_store s))
      = snd (update_metadata_and_substrate_client L lib (env_chain_info env key) (fst key) (snd key) store)"
    by (rule update_metadata_result)
  have fresh: "block_infos s key = None" "key \<notin> failed_chains s"
    using new by (auto simp flip: key_def)
  let ?block = "get_block_and_spec_version L lib (env_block env key)"
  have "?block \<noteq> Panic
      \<and> dom (block_infos s') = dom (block_infos s) \<union> (if chain_ready L lib env store key then {key} else {})
      \<and> pf_calls s' = pf_calls s @ GetBlock key
          # (if asks_metadata L lib env store key then [GetChainInfo key] else [])"
  proof (cases "\<exists>b h v. ?block = Return (Inr (b, h, v))")
    case True
    then obtain b h v where block: "?block = Return (Inr (b, h, v))" by blast
    obtain st u where up: "update_metadata_and_substrate_client L lib (env_chain_info env key) (fst key)
        (snd key) (pf_store s) = (st, u)" by fastforce
    have asks: "asks_metadata L lib env store key \<longleftrightarrow>
        (case metadata_spec_version (fst key) (snd key) (pf_store s) of Some l \<Rightarrow> l < v | None \<Rightarrow> True)"
      by (simp add: asks_metadata_def block spec)
    have ready: "chain_ready L lib env store key \<longleftrightarrow> (asks_metadata L lib env store key \<longrightarrow> u = Inr ())"
      using update by (simp add: chain_ready_def block up)
    show ?thesis
      using step fresh unfolding ready asks
      by (cases u; cases "metadata_spec_version (fst key) (snd key) (pf_store s)")
        (auto simp: prefetch_chain_def Let_def key(1) key(2,3) block up split: if_splits)
  next
    case False
    then have "\<not> chain_ready L lib env store key" "\<not> asks_metadata L lib env store key"
      by (auto simp: chain_ready_def asks_metadata_def split: exec.splits sum.splits prod.splits)
    moreover obtain e where "?block = Return (Inl e)"
    proof (cases ?block)
      case Panic
      then show thesis using step fresh by (simp add: prefetch_chain_def Let_def key(1))
    next
      case (Return r)
      then show thesis using False that by (cases r) (auto simp: split_paired_all)
    qed
    ultimately show ?thesis
      using step fresh by (auto simp: prefetch_chain_def Let_def key(1))
  qed
  then show "get_block_and_spec_version L lib (env_block env (request_chain request)) \<noteq> Panic"
    "dom (block_infos s') = dom (block_infos s)
      \<union> (if chain_ready L lib env store (request_chain request) then {request_chain request} else {})"
    "pf_calls s' = pf_calls s @ GetBlock (request_chain request)
      # (if asks_metadata L lib env store (request_chain request)
         then [GetChainInfo (request_chain request)] else [])"
    by (simp_all add: key_def)
qed

definition prefetch_answers ::
    "text_lib \<Rightarrow> ('meta, 'cab, 'tx, 'kp) chain_lib \<Rightarrow> batch_env \<Rightarrow> 'meta metadata_store
     \<Rightarrow> transaction_request list \<Rightarrow> 'meta prefetch \<Rightarrow> bool" where
  "prefetch_answers L lib env store requests s \<longleftrightarrow>
     (\<forall>k \<in> request_chain ` set requests. get_block_and_spec_version L lib (env_block env k) \<noteq> Panic)
     \<and> dom (block_infos s) = {k \<in> request_chain ` set requests. chain_ready L lib env store k}
     \<and> set (pf_calls s) = GetBlock ` request_chain ` set requests
         \<union> GetChainInfo ` {k \<in> request_chain ` set requests. asks_metadata L lib env store k}"

lemma prefetch_answers_step:
  assumes inv: "prefetch_inv L lib env store requests s"
    and answers: "prefetch_answers L lib env store requests s"
    and step: "prefetch_chain L lib env request s = Return s'"
  shows "prefetch_answers L lib env store (requests @ [request]) s'"
proof (cases "request_chain request \<in> dom (block_infos s) \<union> failed_chains s")
  case True
  then have "s' = s" using step by (auto simp: prefetch_chain_def request_chain_def)
  moreover have "request_chain ` set (requests @ [request]) = request_chain ` set requests"
    using True prefetch_invD(2) [OF inv] by auto
  ultimately show ?thesis using answers unfolding prefetch_answers_def by simp
next
  case False
  then have "request_chain request \<notin> request_chain ` set requests"
    using prefetch_invD(2) [OF inv] by simp
  then have same: "pf_store s (request_chain request) = store (request_chain request)"
    by (rule prefetch_invD(4) [OF inv])
  note new = prefetch_chain_answers [OF step False, of store, OF same]
  have chains: "{k \<in> request_chain ` set (requests @ [request]). P k} =
      {k \<in> request_chain ` set requests. P k} \<union> (if P (request_chain request) then {request_chain request} else {})"
    for P by auto
  from answers show ?thesis
    unfolding prefetch_answers_def chains new(2,3) using new(1)
    by (intro conjI) (simp_all add: image_Un Un_ac insert_is_Un [symmetric])
qed

lemma prefetch_chains_answers:
  assumes "prefetch_chains L lib env store requests = Return s"
  shows "prefetch_answers L lib env store requests s"
proof -
  let ?I = "\<lambda>rs t. prefetch_inv L lib env store rs t \<and> prefetch_answers L lib env store rs t"
  have "?I requests s"
    using assms unfolding prefetch_chains_def
  proof (rule fold_exec_invariant [where I = ?I])
    show "?I [] \<lparr>block_infos = Map.empty, failed_chains = {}, pf_store = store, pf_calls = []\<rparr>"
      by (simp add: prefetch_inv_def prefetch_answers_def)
    fix rs r t t'
    assume "?I rs t" and step: "prefetch_chain L lib env r t = Return t'"
    then show "?I (rs @ [r]) t'"
      using prefetch_inv_step [OF _ step] prefetch_answers_step [OF _ _ step] by blast
  qed
  then show ?thesis by blast
qed

text \<open>The chains that have failed are those that are not ready.\<close>

lemma failed_chains_not_ready:
  assumes "prefetch_chains L lib env store requests = Return s" and "k \<in> request_chain ` set requests"
  shows "k \<in> failed_chains s \<longleftrightarrow> \<not> chain_ready L lib env store k"
proof -
  note D = prefetch_invD(1,2) [OF prefetch_chains_inv [OF assms(1)]]
  have "k \<in> dom (block_infos s) \<longleftrightarrow> chain_ready L lib env store k"
    using prefetch_chains_answers [OF assms(1)] assms(2) by (simp add: prefetch_answers_def)
  moreover have "k \<in> dom (block_infos s) \<union> failed_chains s" using D(2) assms(2) by simp
  ultimately show ?thesis using D(1) by (metis IntI UnE empty_iff)
qed

text \<open>The prefetch panics exactly when the block query of a chain does.\<close>

lemma prefetch_chains_panics:
  assumes "request \<in> set requests"
    and "get_block_and_spec_version L lib (env_block env (request_chain request)) = Panic"
  shows "prefetch_chains L lib env store requests = Panic"
proof (rule ccontr)
  assume "prefetch_chains L lib env store requests \<noteq> Panic"
  then obtain s where "prefetch_chains L lib env store requests = Return s"
    by (cases "prefetch_chains L lib env store requests") simp_all
  from prefetch_chains_answers [OF this] assms show False by (simp add: prefetch_answers_def)
qed

lemma prefetch_chains_returns:
  assumes "\<And>request. request \<in> set requests \<Longrightarrow>
      get_block_and_spec_version L lib (env_block env (request_chain request)) \<noteq> Panic"
  obtains s where "prefetch_chains L lib env store requests = Return s"
proof -
  have "\<exists>s'. prefetch_chain L lib env request s = Return s'" if "request \<in> set requests" for request s
  proof -
    from assms [OF that] obtain r where
      "get_block_and_spec_version L lib (env_block env (req_network request, req_chain request)) = Return r"
      by (cases "get_block_and_spec_version L lib (env_block env (request_chain request))")
        (auto simp: request_chain_def)
    then show ?thesis
      by (auto simp: prefetch_chain_def Let_def split: sum.splits prod.splits if_splits)
  qed
  then have "\<exists>s. prefetch_chains L lib env store requests = Return s \<and> True"
    unfolding prefetch_chains_def by (intro fold_exec_returns) auto
  then show thesis using that by blast
qed

end
