(* ===== verification/Fuel_Tank.thy ===== *)
theory Fuel_Tank
  imports Chain_Lib
begin

text \<open>
  \<open>src/src/transaction/fuel_tank.rs\<close>: signing the inner call of a fuel tank dispatch and putting the
  signature into the dispatch settings. \<open>sign_dispatch\<close> gives, beside its result, the messages it
  passed to the signing closure, so that a refusal can be shown to come before any signature.
  The walk over an encoded value is the decoder's (\<open>walk_value\<close> of \<open>chain_lib\<close>); the visitor that
  bounds it, \<open>Measure\<close>, is the daemon's and is \<open>measure_walk\<close> here.
\<close>

definition MAX_NESTING :: nat where "MAX_NESTING = 128"

definition DEFAULT_SETTINGS :: bytes where "DEFAULT_SETTINGS = (replicate 256 0)[0 := 1]"

subsection \<open>Measuring a value\<close>

datatype measure_error = Decode string | TooDeep

text \<open>The visitor at a depth: refuses beyond \<open>MAX_NESTING\<close>, accepts a leaf, visits the items of a
  container one level deeper and stops at the first error. The result is the bytes taken.\<close>

fun measure_walk :: "nat \<Rightarrow> scale_walk \<Rightarrow> measure_error + nat"
  and measure_items :: "nat \<Rightarrow> scale_walk list \<Rightarrow> measure_error + nat" where
  "measure_walk depth (Leaf n) = (if depth > MAX_NESTING then Inl TooDeep else Inr n)"
| "measure_walk depth (Undecodable e) =
     (if depth > MAX_NESTING then Inl TooDeep else Inl (Decode e))"
| "measure_walk depth (Container n items) =
     (if depth > MAX_NESTING then Inl TooDeep
      else case measure_items (depth + 1) items of Inl e \<Rightarrow> Inl e | Inr m \<Rightarrow> Inr (n + m))"
| "measure_items depth [] = Inr 0"
| "measure_items depth (item # items) =
     (case measure_walk depth item of
        Inl e \<Rightarrow> Inl e
      | Inr n \<Rightarrow> (case measure_items depth items of Inl e \<Rightarrow> Inl e | Inr m \<Rightarrow> Inr (n + m)))"

fun walk_height :: "scale_walk \<Rightarrow> nat" where
  "walk_height (Leaf n) = 0"
| "walk_height (Undecodable e) = 0"
| "walk_height (Container n items) = (if items = [] then 0 else 1 + Max (walk_height ` set items))"

fun walk_decodable :: "scale_walk \<Rightarrow> bool" where
  "walk_decodable (Leaf n) = True"
| "walk_decodable (Undecodable e) = False"
| "walk_decodable (Container n items) = (\<forall>item \<in> set items. walk_decodable item)"

fun walk_size :: "scale_walk \<Rightarrow> nat" where
  "walk_size (Leaf n) = n"
| "walk_size (Undecodable e) = 0"
| "walk_size (Container n items) = n + sum_list (map walk_size items)"

fun show_measure_error :: "measure_error \<Rightarrow> string" where
  "show_measure_error (Decode e) = e"
| "show_measure_error TooDeep = ''nested more than 128 levels deep''"

subsection \<open>Locating the arguments\<close>

type_synonym byte_range = "nat \<times> nat"

fun slice :: "byte_range \<Rightarrow> bytes \<Rightarrow> bytes" where
  "slice (i, j) tx = take (j - i) (drop i tx)"

record located =
  loc_remaining :: bytes
  loc_call :: "byte_range option"
  loc_settings :: "(byte_range \<times> u32) option"

fun locate_fields ::
    "('meta, 'cab, 'tx, 'kp) chain_lib \<Rightarrow> 'meta \<Rightarrow> bytes \<Rightarrow> (string \<times> u32) list \<Rightarrow> located
     \<Rightarrow> located result" where
  "locate_fields lib metadata tx [] loc = Inr loc"
| "locate_fields lib metadata tx ((name, ty) # args) loc =
     (let start = length tx - length (loc_remaining loc)
      in case measure_walk 0 (walk_value lib metadata ty (loc_remaining loc)) of
        Inl e \<Rightarrow> Inl (''decoding fuel tank '' @ name @ '': '' @ show_measure_error e)
      | Inr consumed \<Rightarrow>
          (let remaining = drop consumed (loc_remaining loc);
               range = (start, length tx - length remaining);
               moved = loc\<lparr>loc_remaining := remaining\<rparr>
           in locate_fields lib metadata tx args
                (if name = ''call'' then moved\<lparr>loc_call := Some range\<rparr>
                 else if name = ''settings'' then moved\<lparr>loc_settings := Some (range, ty)\<rparr>
                 else moved)))"

subsection \<open>The dispatch settings\<close>

fun is_zero :: "scale_value \<Rightarrow> bool" where
  "is_zero (VPrimitive (PBool flag)) = (\<not> flag)"
| "is_zero (VVariant name values) =
     (name = ''None'' \<and> (values = Named [] \<or> values = Unnamed []))"
| "is_zero v = False"

definition dispatch_settings ::
    "('meta, 'cab, 'tx, 'kp) chain_lib \<Rightarrow> 'meta \<Rightarrow> bytes \<Rightarrow> u32
     \<Rightarrow> (string \<times> scale_value) list result" where
  "dispatch_settings lib metadata encoded settings_type =
     (case decode_value lib metadata settings_type encoded of
        Inl e \<Rightarrow> Inl (''decoding fuel tank settings: '' @ e)
      | Inr decoded \<Rightarrow>
      (let is_default = (case decoded of VVariant name vs \<Rightarrow> name = ''None'' | _ \<Rightarrow> False)
       in case (if is_default
                then (case decode_value lib metadata settings_type DEFAULT_SETTINGS of
                        Inl e \<Rightarrow> Inl (''dispatch settings have no known default: '' @ e)
                      | Inr d \<Rightarrow> Inr d)
                else Inr decoded) of
        Inl e \<Rightarrow> Inl e
      | Inr (VVariant name (Unnamed [VComposite (Named flds)])) \<Rightarrow>
          if name = ''Some''
          then (if is_default
                then (case find (\<lambda>(field, v). field \<noteq> ''signature'' \<and> \<not> is_zero v) flds of
                        Some (field, v) \<Rightarrow>
                          Inl (''dispatch settings field '' @ field @ '' has no known default'')
                      | None \<Rightarrow> Inr flds)
                else Inr flds)
          else Inl ''invalid dispatch settings''
      | Inr _ \<Rightarrow> Inl ''invalid dispatch settings''))"

fun position :: "('a \<Rightarrow> bool) \<Rightarrow> 'a list \<Rightarrow> nat option" where
  "position p [] = None"
| "position p (x # xs) = (if p x then Some 0 else map_option Suc (position p xs))"

definition signature_field ::
    "('meta, 'cab, 'tx, 'kp) chain_lib \<Rightarrow> u32 \<Rightarrow> bytes \<Rightarrow> scale_value" where
  "signature_field lib expiration_block signature =
     VVariant ''Some'' (Unnamed [VComposite (Named
       [(''signature'', value_from_bytes lib signature),
        (''expiry_block'', VPrimitive (PU128 (unat expiration_block)))])])"

definition encode_settings ::
    "('meta, 'cab, 'tx, 'kp) chain_lib \<Rightarrow> 'meta \<Rightarrow> u32 \<Rightarrow> (string \<times> scale_value) list \<Rightarrow> nat \<Rightarrow> u32
     \<Rightarrow> bytes \<Rightarrow> bytes result" where
  "encode_settings lib metadata settings_type flds signature_index expiration_block signature =
     (let settings = VVariant ''Some'' (Unnamed [VComposite (Named
            (flds[signature_index :=
               (fst (flds ! signature_index),
                signature_field lib expiration_block signature)]))])
      in case encode_value lib metadata settings_type settings of
           Inl e \<Rightarrow> Inl (''encoding fuel tank settings: '' @ e)
         | Inr encoded \<Rightarrow> Inr encoded)"

definition u32_to_le_bytes :: "u32 \<Rightarrow> bytes" where
  "u32_to_le_bytes x = map (\<lambda>i. ucast (drop_bit (8 * i) x)) [0, 1, 2, 3]"

subsection \<open>Signing\<close>

text \<open>Up to the first encoding: where the inner call and the settings are, their type, the fields of
  the settings and the place of the signature among them.\<close>

definition prepare_dispatch ::
    "('meta, 'cab, 'tx, 'kp) chain_lib \<Rightarrow> bytes \<Rightarrow> 'meta
     \<Rightarrow> (byte_range \<times> byte_range \<times> u32 \<times> (string \<times> scale_value) list \<times> nat) result" where
  "prepare_dispatch lib tx metadata =
     (case tx of
        pallet_index # call_index # rest \<Rightarrow>
          (case call_info_by_index lib metadata pallet_index call_index of
             Inl e \<Rightarrow> Inl (''fuel tank call metadata: '' @ e)
           | Inr info \<Rightarrow>
          if ci_pallet_name info \<noteq> ''FuelTanks''
             \<or> ci_call_name info \<notin> {''dispatch'', ''dispatch_and_touch''}
          then Inl ''expected FuelTanks.dispatch or FuelTanks.dispatch_and_touch''
          else (case locate_fields lib metadata tx (ci_args info)
                       \<lparr>loc_remaining = rest, loc_call = None, loc_settings = None\<rparr> of
             Inl e \<Rightarrow> Inl e
           | Inr loc \<Rightarrow>
          if loc_remaining loc \<noteq> [] then Inl ''unexpected trailing bytes in fuel tank call''
          else (case loc_call loc of
             None \<Rightarrow> Inl ''fuel tank call is missing its inner call''
           | Some call \<Rightarrow>
          (case loc_settings loc of
             None \<Rightarrow> Inl ''fuel tank call is missing dispatch settings''
           | Some (settings_range, settings_type) \<Rightarrow>
          (case dispatch_settings lib metadata (slice settings_range tx) settings_type of
             Inl e \<Rightarrow> Inl e
           | Inr flds \<Rightarrow>
          (case position (\<lambda>(name, v). name = ''signature'') flds of
             None \<Rightarrow> Inl ''dispatch settings is missing its signature field''
           | Some signature_index \<Rightarrow>
               Inr (call, settings_range, settings_type, flds, signature_index)))))))
      | _ \<Rightarrow> Inl ''fuel tank call is missing its call index'')"

definition sign_dispatch ::
    "('meta, 'cab, 'tx, 'kp) chain_lib \<Rightarrow> bytes \<Rightarrow> 'meta \<Rightarrow> public_key \<Rightarrow> u32
     \<Rightarrow> (bytes \<Rightarrow> bytes) \<Rightarrow> bytes list \<times> bytes result" where
  "sign_dispatch lib tx metadata public_key expiration_block sign =
     (case prepare_dispatch lib tx metadata of
        Inl e \<Rightarrow> ([], Inl e)
      | Inr (call, settings_range, settings_type, flds, signature_index) \<Rightarrow>
      (let encode = encode_settings lib metadata settings_type flds signature_index
                      expiration_block
       in case encode (replicate 64 0) of
        Inl e \<Rightarrow> ([], Inl e)
      | Inr _ \<Rightarrow>
      (let message = slice call tx @ public_key @ u32_to_le_bytes expiration_block
       in ([message],
           case encode (sign message) of
             Inl e \<Rightarrow> Inl e
           | Inr encoded_settings \<Rightarrow>
               Inr (take (fst settings_range) tx @ encoded_settings
                    @ drop (snd settings_range) tx)))))"

subsection \<open>Lemmas\<close>

lemma measure_bound:
  "measure_walk d w = Inr n \<longleftrightarrow>
     d + walk_height w \<le> MAX_NESTING \<and> walk_decodable w \<and> n = walk_size w"
  "measure_items d ws = Inr n \<longleftrightarrow>
     (\<forall>w \<in> set ws. d + walk_height w \<le> MAX_NESTING \<and> walk_decodable w)
     \<and> n = sum_list (map walk_size ws)"
proof (induction d w and d ws arbitrary: n and n rule: measure_walk_measure_items.induct)
  case (3 d k items)
  have "d + walk_height (Container k items) \<le> MAX_NESTING \<longleftrightarrow>
      d \<le> MAX_NESTING \<and> (\<forall>w \<in> set items. Suc d + walk_height w \<le> MAX_NESTING)"
  proof (cases "items = []")
    case False
    then have "Max (walk_height ` set items) \<le> MAX_NESTING - Suc d \<longleftrightarrow>
        (\<forall>w \<in> set items. walk_height w \<le> MAX_NESTING - Suc d)"
      by simp
    moreover obtain w where "w \<in> set items" using False by (cases items) auto
    ultimately show ?thesis using False by (auto simp del: Max_le_iff)
  qed simp
  moreover have "measure_walk d (Container k items) = Inr n \<longleftrightarrow>
      d \<le> MAX_NESTING \<and> (\<exists>m. measure_items (d + 1) items = Inr m \<and> n = k + m)"
    by (auto split: sum.splits)
  ultimately show ?case using 3 by (cases "d \<le> MAX_NESTING") auto
next
  case (5 d item items)
  have "measure_items d (item # items) = Inr n \<longleftrightarrow>
      (\<exists>a b. measure_walk d item = Inr a \<and> measure_items d items = Inr b \<and> n = a + b)"
    by (auto split: sum.splits)
  with 5 show ?case by (cases "measure_walk d item") auto
qed auto

definition chunk_range :: "nat \<Rightarrow> bytes list \<Rightarrow> nat \<Rightarrow> byte_range" where
  "chunk_range s chunks j =
     (s + length (concat (take j chunks)), s + length (concat (take (Suc j) chunks)))"

lemma slice_chunk:
  assumes "j < length chunks"
  shows "slice (chunk_range (length p) chunks j) (p @ concat chunks @ q) = chunks ! j"
proof -
  have "chunks = take j chunks @ chunks ! j # drop (Suc j) chunks"
    using assms by (simp add: id_take_nth_drop)
  then have "concat chunks = concat (take j chunks) @ chunks ! j @ concat (drop (Suc j) chunks)"
    by (metis concat.simps(2) concat_append)
  then show ?thesis
    using assms by (simp add: chunk_range_def take_Suc_conv_app_nth)
qed

lemma chunk_range_Cons:
  "chunk_range s (c # chunks) (Suc j) = chunk_range (s + length c) chunks j"
  by (simp add: chunk_range_def)

text \<open>What an argument takes of the bytes that are left: the bytes of one value of its type, as the decoder
  walks it, which decodes and is nested at most \<open>MAX_NESTING\<close> levels deep.\<close>

definition takes_argument ::
    "('meta, 'cab, 'tx, 'kp) chain_lib \<Rightarrow> 'meta \<Rightarrow> u32 \<Rightarrow> bytes \<Rightarrow> bytes \<Rightarrow> bool" where
  "takes_argument lib metadata ty remaining chunk \<longleftrightarrow>
     (let w = walk_value lib metadata ty remaining
      in walk_decodable w \<and> walk_height w \<le> MAX_NESTING \<and> chunk = take (walk_size w) remaining)"

text \<open>One argument: it takes the first bytes of what remained, and notes their range if it is the inner
  call or the settings.\<close>

lemma locate_fields_step:
  assumes "locate_fields lib metadata tx ((name, ty) # args) loc = Inr loc'"
    and "length (loc_remaining loc) \<le> length tx"
  obtains c loc1 where "locate_fields lib metadata tx args loc1 = Inr loc'"
    "loc_remaining loc = c @ loc_remaining loc1" "length (loc_remaining loc1) \<le> length tx"
    "length tx - length (loc_remaining loc1) = length tx - length (loc_remaining loc) + length c"
    "loc_call loc1 = (if name = ''call''
       then Some (chunk_range (length tx - length (loc_remaining loc)) [c] 0) else loc_call loc)"
    "loc_settings loc1 = (if name = ''settings''
       then Some (chunk_range (length tx - length (loc_remaining loc)) [c] 0, ty) else loc_settings loc)"
    "takes_argument lib metadata ty (loc_remaining loc) c"
proof -
  from assms(1) obtain n where
    n: "measure_walk 0 (walk_value lib metadata ty (loc_remaining loc)) = Inr n"
    by (auto simp: Let_def split: sum.splits)
  define s where "s = length tx - length (loc_remaining loc)"
  define c where "c = take n (loc_remaining loc)"
  define range where "range = (s, length tx - length (drop n (loc_remaining loc)))"
  define loc1 where "loc1 = (let moved = loc\<lparr>loc_remaining := drop n (loc_remaining loc)\<rparr> in
     if name = ''call'' then moved\<lparr>loc_call := Some range\<rparr>
     else if name = ''settings'' then moved\<lparr>loc_settings := Some (range, ty)\<rparr> else moved)"
  have rem1: "loc_remaining loc1 = drop n (loc_remaining loc)"
    by (simp add: loc1_def Let_def)
  have s1: "length tx - length (loc_remaining loc1) = s + length c"
    using assms(2) by (simp add: rem1 s_def c_def)
  have "locate_fields lib metadata tx ((name, ty) # args) loc = locate_fields lib metadata tx args loc1"
    unfolding locate_fields.simps Let_def n sum.case loc1_def range_def s_def ..
  with assms(1) have "locate_fields lib metadata tx args loc1 = Inr loc'"
    by (simp only:)
  moreover have "loc_remaining loc = c @ loc_remaining loc1" by (simp only: rem1 c_def append_take_drop_id)
  moreover have "takes_argument lib metadata ty (loc_remaining loc) c"
    using n measure_bound(1) [of 0] by (simp add: takes_argument_def c_def Let_def)
  moreover have "length (loc_remaining loc1) \<le> length tx" using assms(2) by (simp add: rem1)
  moreover have range: "range = chunk_range s [c] 0"
    using s1 by (simp add: range_def chunk_range_def rem1)
  have "loc_call loc1 = (if name = ''call'' then Some (chunk_range s [c] 0) else loc_call loc)"
    "loc_settings loc1 = (if name = ''settings'' then Some (chunk_range s [c] 0, ty) else loc_settings loc)"
    unfolding range [symmetric] by (simp_all add: loc1_def Let_def)
  ultimately show thesis using s1 that unfolding s_def by blast
qed

text \<open>The arguments found are consecutive pieces of what remained, each with the bytes of its value, and
  the ranges noted for the inner call and the settings are those of arguments with that name.\<close>

lemma locate_fields_chunks:
  assumes "locate_fields lib metadata tx args loc = Inr loc'"
    and "length (loc_remaining loc) \<le> length tx"
  shows "\<exists>chunks. length chunks = length args
      \<and> loc_remaining loc = concat chunks @ loc_remaining loc'
      \<and> (\<forall>i < length args. takes_argument lib metadata (snd (args ! i))
            (concat (drop i chunks) @ loc_remaining loc') (chunks ! i))
      \<and> (loc_call loc' = loc_call loc \<or>
           (\<exists>j < length args. fst (args ! j) = ''call''
              \<and> loc_call loc' = Some (chunk_range (length tx - length (loc_remaining loc)) chunks j)))
      \<and> (loc_settings loc' = loc_settings loc \<or>
           (\<exists>j < length args. fst (args ! j) = ''settings''
              \<and> loc_settings loc' =
                  Some (chunk_range (length tx - length (loc_remaining loc)) chunks j, snd (args ! j))))"
  using assms
proof (induction args arbitrary: loc)
  case Nil
  then show ?case by (intro exI [of _ "[]"]) simp
next
  case (Cons arg args)
  obtain name ty where arg: "arg = (name, ty)" by (cases arg)
  obtain c loc1 where step: "locate_fields lib metadata tx args loc1 = Inr loc'"
    "loc_remaining loc = c @ loc_remaining loc1" "length (loc_remaining loc1) \<le> length tx"
    "length tx - length (loc_remaining loc1) = length tx - length (loc_remaining loc) + length c"
    and noted: "loc_call loc1 = (if name = ''call''
       then Some (chunk_range (length tx - length (loc_remaining loc)) [c] 0) else loc_call loc)"
    "loc_settings loc1 = (if name = ''settings''
       then Some (chunk_range (length tx - length (loc_remaining loc)) [c] 0, ty) else loc_settings loc)"
    and taken: "takes_argument lib metadata ty (loc_remaining loc) c"
    by (rule locate_fields_step [OF Cons.prems [unfolded arg]])
  let ?s = "length tx - length (loc_remaining loc)"
  from Cons.IH [OF step(1,3), unfolded step(4)] obtain chunks where ch: "length chunks = length args"
      "loc_remaining loc1 = concat chunks @ loc_remaining loc'"
      "\<forall>i < length args. takes_argument lib metadata (snd (args ! i))
         (concat (drop i chunks) @ loc_remaining loc') (chunks ! i)"
      "loc_call loc' = loc_call loc1 \<or>
         (\<exists>j < length args. fst (args ! j) = ''call''
            \<and> loc_call loc' = Some (chunk_range (?s + length c) chunks j))"
      "loc_settings loc' = loc_settings loc1 \<or>
         (\<exists>j < length args. fst (args ! j) = ''settings''
            \<and> loc_settings loc' = Some (chunk_range (?s + length c) chunks j, snd (args ! j)))"
    by blast
  have first: "chunk_range ?s [c] 0 = chunk_range ?s (c # chunks) 0" by (simp add: chunk_range_def)
  have "loc_call loc' = loc_call loc \<or>
      (\<exists>j < length (arg # args). fst ((arg # args) ! j) = ''call''
         \<and> loc_call loc' = Some (chunk_range ?s (c # chunks) j))"
    using ch(4) noted(1) first arg by (auto simp: chunk_range_Cons split: if_splits)
  moreover have "loc_settings loc' = loc_settings loc \<or>
      (\<exists>j < length (arg # args). fst ((arg # args) ! j) = ''settings''
         \<and> loc_settings loc' = Some (chunk_range ?s (c # chunks) j, snd ((arg # args) ! j)))"
    using ch(5) noted(2) first arg by (auto simp: chunk_range_Cons split: if_splits)
  moreover have "\<forall>i < length (arg # args). takes_argument lib metadata (snd ((arg # args) ! i))
      (concat (drop i (c # chunks)) @ loc_remaining loc') ((c # chunks) ! i)"
    using ch(2,3) step(2) taken arg by (auto simp: nth_Cons' drop_Cons')
  ultimately show ?case
    using ch(1,2) step(2) by (intro exI [of _ "c # chunks"]) simp
qed

lemma concat_split_at:
  assumes "k < length chunks"
  shows "take (snd (chunk_range (length p) chunks k)) (p @ concat chunks)
      = p @ concat (take (Suc k) chunks)"
    and "take (fst (chunk_range (length p) chunks k)) (p @ concat chunks)
      = p @ concat (take k chunks)"
    and "drop (snd (chunk_range (length p) chunks k)) (p @ concat chunks)
      = concat (drop (Suc k) chunks)"
proof -
  have "concat chunks = concat (take j chunks) @ concat (drop j chunks)" for j
    by (simp flip: concat_append)
  then show "take (snd (chunk_range (length p) chunks k)) (p @ concat chunks)
      = p @ concat (take (Suc k) chunks)"
    "take (fst (chunk_range (length p) chunks k)) (p @ concat chunks) = p @ concat (take k chunks)"
    "drop (snd (chunk_range (length p) chunks k)) (p @ concat chunks) = concat (drop (Suc k) chunks)"
    by (simp_all add: chunk_range_def) (metis append_eq_conv_conj)+
qed

lemma concat_update:
  "k < length chunks \<Longrightarrow>
     concat (chunks[k := c]) = concat (take k chunks) @ c @ concat (drop (Suc k) chunks)"
  by (simp add: upd_conv_take_nth_drop)

lemma position_SomeD: "position p xs = Some i \<Longrightarrow> i < length xs \<and> p (xs ! i)"
  by (induction xs arbitrary: i) (auto split: if_splits)

text \<open>A prepared dispatch is a fuel tank call whose arguments are consecutive pieces of the payload,
  after its two index bytes.\<close>

lemma prepare_dispatchE:
  assumes "prepare_dispatch lib tx metadata = Inr (call, rng, ty, flds, i)"
  obtains info chunks j k where
    "call_info_by_index lib metadata (tx ! 0) (tx ! 1) = Inr info"
    "ci_pallet_name info = ''FuelTanks''"
    "ci_call_name info \<in> {''dispatch'', ''dispatch_and_touch''}"
    "2 \<le> length tx" "length chunks = length (ci_args info)" "tx = take 2 tx @ concat chunks"
    "j < length chunks" "fst (ci_args info ! j) = ''call''" "call = chunk_range 2 chunks j"
    "k < length chunks" "ci_args info ! k = (''settings'', ty)" "rng = chunk_range 2 chunks k"
    "dispatch_settings lib metadata (chunks ! k) ty = Inr flds"
    "i < length flds" "fst (flds ! i) = ''signature''"
    "\<forall>n < length chunks. takes_argument lib metadata (snd (ci_args info ! n)) (concat (drop n chunks)) (chunks ! n)"
proof -
  obtain p c rest info loc where
    tx: "tx = p # c # rest" and info: "call_info_by_index lib metadata p c = Inr info"
    and names: "ci_pallet_name info = ''FuelTanks''"
      "ci_call_name info \<in> {''dispatch'', ''dispatch_and_touch''}"
    and loc: "locate_fields lib metadata tx (ci_args info)
        \<lparr>loc_remaining = rest, loc_call = None, loc_settings = None\<rparr> = Inr loc"
    and rest: "loc_remaining loc = []" "loc_call loc = Some call"
      "loc_settings loc = Some (rng, ty)"
    and flds: "dispatch_settings lib metadata (slice rng tx) ty = Inr flds"
      "position (\<lambda>(name, v). name = ''signature'') flds = Some i"
    using assms by (auto simp: prepare_dispatch_def split: list.splits sum.splits if_splits
        option.splits prod.splits)
  obtain chunks j k where ch: "length chunks = length (ci_args info)" "rest = concat chunks"
      "j < length chunks" "fst (ci_args info ! j) = ''call''" "call = chunk_range 2 chunks j"
      "k < length chunks" "fst (ci_args info ! k) = ''settings''"
      "rng = chunk_range 2 chunks k" "ty = snd (ci_args info ! k)"
      "\<forall>n < length chunks. takes_argument lib metadata (snd (ci_args info ! n)) (concat (drop n chunks)) (chunks ! n)"
    using locate_fields_chunks [OF loc] rest by (auto simp: tx)
  have tx2: "tx = take 2 tx @ concat chunks" using ch(2) by (simp add: tx numeral_2_eq_2)
  have "slice rng tx = chunks ! k"
    using slice_chunk [OF ch(6), of "[p, c]" "[]"] ch(2, 8) by (simp add: tx numeral_2_eq_2)
  with that info names ch tx2 flds position_SomeD [OF flds(2)] show thesis
    by (auto simp: tx prod_eq_iff split: prod.splits)
qed

lemma sign_dispatch_OkE:
  assumes "sign_dispatch lib tx metadata pk expiry sign = (msgs, Inr payload)"
  obtains call rng ty flds i enc where
    "prepare_dispatch lib tx metadata = Inr (call, rng, ty, flds, i)"
    "msgs = [slice call tx @ pk @ u32_to_le_bytes expiry]"
    "encode_settings lib metadata ty flds i expiry (sign (hd msgs)) = Inr enc"
    "payload = take (fst rng) tx @ enc @ drop (snd rng) tx"
  using assms by (auto simp: sign_dispatch_def Let_def split: sum.splits prod.splits)

subsection \<open>Properties\<close>

definition settings_value :: "(string \<times> scale_value) list \<Rightarrow> scale_value" where
  "settings_value flds = VVariant ''Some'' (Unnamed [VComposite (Named flds)])"

lemma isl_encode_settings:
  "isl (encode_settings lib metadata ty flds i expiry s) \<longleftrightarrow>
     isl (encode_value lib metadata ty
       (settings_value (flds[i := (fst (flds ! i), signature_field lib expiry s)])))"
  unfolding encode_settings_def settings_value_def Let_def by (cases "encode_value lib metadata ty
    (VVariant ''Some'' (Unnamed [VComposite (Named
       (flds[i := (fst (flds ! i), signature_field lib expiry s)]))]))") simp_all

text \<open>
  C14: When signing a dispatch succeeds, the payload is a \<open>FuelTanks.dispatch\<close> or
  \<open>dispatch_and_touch\<close> call, and its arguments are consecutive pieces of it that fill it to the end, each
  with the bytes that the decoder's walk of one value of that argument's type takes of what is left,
  a value that decodes and is nested at most \<open>MAX_NESTING\<close> levels deep. What was signed, once, is
  the inner call followed by the public key and the expiry block; and the result is the payload with
  the settings argument alone replaced, by the encoding of its own fields with the signature field
  set to that signature and expiry.
\<close>

theorem sign_dispatch_replaces_settings:
  assumes "sign_dispatch lib tx metadata public_key expiry sign = (msgs, Inr payload)"
  shows "\<exists>info chunks j k ty flds i enc.
      call_info_by_index lib metadata (tx ! 0) (tx ! 1) = Inr info
      \<and> ci_pallet_name info = ''FuelTanks''
      \<and> ci_call_name info \<in> {''dispatch'', ''dispatch_and_touch''}
      \<and> length chunks = length (ci_args info) \<and> tx = take 2 tx @ concat chunks
      \<and> (\<forall>n < length chunks.
            takes_argument lib metadata (snd (ci_args info ! n)) (concat (drop n chunks)) (chunks ! n))
      \<and> j < length chunks \<and> fst (ci_args info ! j) = ''call''
      \<and> k < length chunks \<and> ci_args info ! k = (''settings'', ty)
      \<and> msgs = [chunks ! j @ public_key @ u32_to_le_bytes expiry]
      \<and> dispatch_settings lib metadata (chunks ! k) ty = Inr flds
      \<and> i < length flds \<and> fst (flds ! i) = ''signature''
      \<and> encode_value lib metadata ty
          (settings_value (flds[i := (''signature'', signature_field lib expiry (sign (hd msgs)))]))
        = Inr enc
      \<and> payload = take 2 tx @ concat (chunks[k := enc])"
proof -
  from assms obtain call rng ty flds i enc where
    prep: "prepare_dispatch lib tx metadata = Inr (call, rng, ty, flds, i)"
    and msgs: "msgs = [slice call tx @ public_key @ u32_to_le_bytes expiry]"
    and enc: "encode_settings lib metadata ty flds i expiry (sign (hd msgs)) = Inr enc"
    and payload: "payload = take (fst rng) tx @ enc @ drop (snd rng) tx"
    by (rule sign_dispatch_OkE)
  from prep obtain info chunks j k where info:
    "call_info_by_index lib metadata (tx ! 0) (tx ! 1) = Inr info"
    "ci_pallet_name info = ''FuelTanks''"
    "ci_call_name info \<in> {''dispatch'', ''dispatch_and_touch''}"
    and ch: "2 \<le> length tx" "length chunks = length (ci_args info)"
      "tx = take 2 tx @ concat chunks" "j < length chunks" "fst (ci_args info ! j) = ''call''"
      "call = chunk_range 2 chunks j" "k < length chunks"
      "ci_args info ! k = (''settings'', ty)" "rng = chunk_range 2 chunks k"
    and fl: "dispatch_settings lib metadata (chunks ! k) ty = Inr flds"
      "i < length flds" "fst (flds ! i) = ''signature''"
    and taken: "\<forall>n < length chunks. takes_argument lib metadata (snd (ci_args info ! n))
      (concat (drop n chunks)) (chunks ! n)"
    by (rule prepare_dispatchE)
  have two: "length (take 2 tx) = 2" using ch(1) by simp
  have "slice call tx = chunks ! j"
    using slice_chunk [OF ch(4), of "take 2 tx" "[]"] ch(3, 6) two by simp
  moreover have "payload = take 2 tx @ concat (chunks[k := enc])"
    using concat_split_at [OF ch(7), of "take 2 tx"] two ch(3, 9)
    by (simp add: payload concat_update [OF ch(7)])
  moreover have "encode_value lib metadata ty
      (settings_value (flds[i := (''signature'', signature_field lib expiry (sign (hd msgs)))]))
    = Inr enc"
    using enc fl(3)
    by (simp add: encode_settings_def settings_value_def Let_def split: sum.splits)
  ultimately show ?thesis using info ch fl taken msgs by blast
qed

text \<open>An inner call of two bytes and settings of one, so that the types matter.\<close>

definition typed_lib :: "(bytes, bytes, raw_payload \<times> tx_params, u8) chain_lib" where
  "typed_lib = sample_lib\<lparr>walk_value := (\<lambda>m t b.
     if t = 0 \<and> 2 \<le> length b then Container 1 [Leaf 1]
     else if t = 1 \<and> 1 \<le> length b then Leaf 1 else Undecodable ''Not enough data'')\<rparr>"

lemma sign_dispatch_replaces_settings_witness:
  "\<exists>payload chunks j k enc.
      sign_dispatch typed_lib [54, 5, 9, 8, 7] [] [3] 256 (\<lambda>m. replicate 64 8)
        = ([[9, 8, 3, 0, 1, 0, 0]], Inr payload)
      \<and> [54, 5, 9, 8, 7] = take 2 [54, 5, 9, 8, 7] @ concat chunks
      \<and> chunks ! 0 = [9, 8]
      \<and> [[9, 8, 3, 0, 1, 0, 0]] = [chunks ! j @ [3] @ u32_to_le_bytes 256]
      \<and> payload = take 2 [54, 5, 9, 8, 7] @ concat (chunks[k := enc])"
proof -
  have run: "sign_dispatch typed_lib [54, 5, 9, 8, 7] [] [3] 256 (\<lambda>m. replicate 64 8)
      = ([[9, 8, 3, 0, 1, 0, 0]], Inr [54, 5, 9, 8, 1, 2, 2])"
    by code_simp
  have info: "ci_args i = [(''call'', 0), (''settings'', 1)]"
    if "call_info_by_index typed_lib [] 54 5 = Inr i" for i
    using that by (auto simp: typed_lib_def sample_lib_def sample_call_info_def)
  from sign_dispatch_replaces_settings [OF run] obtain i chunks j k enc where w:
    "call_info_by_index typed_lib [] 54 5 = Inr i" "length chunks = length (ci_args i)"
    "[54, 5, 9, 8, 7] = take 2 [54, 5, 9, 8, 7] @ concat chunks"
    "\<forall>n < length chunks. takes_argument typed_lib [] (snd (ci_args i ! n)) (concat (drop n chunks)) (chunks ! n)"
    "[[9, 8, 3, 0, 1, 0, 0]] = [chunks ! j @ [3] @ u32_to_le_bytes 256]"
    "[54, 5, 9, 8, 1, 2, 2] = take 2 [54, 5, 9, 8, 7] @ concat (chunks[k := enc])"
    by auto
  have "concat chunks = [9, 8, 7]" using w(3) by (simp add: numeral_2_eq_2)
  moreover have "takes_argument typed_lib [] 0 (concat chunks) (chunks ! 0)"
    using w(4) w(2) info [OF w(1)] by (auto dest: spec [of _ 0])
  ultimately have "chunks ! 0 = [9, 8]"
    by (simp add: takes_argument_def typed_lib_def numeral_2_eq_2)
  then show ?thesis using run w(3,5,6) by blast
qed

text \<open>
  A refused dispatch signs nothing, and an accepted one signs exactly one message: if encoding
  the settings succeeds or fails alike for any two signatures of 64 bytes (\<open>scale_value\<close> encodes by
  type), the only failure left after signing, that of the second encoding, cannot happen.
\<close>

lemma refused_dispatch_signs_nothing:
  assumes "\<And>ty v flds i s s'. length s = 64 \<Longrightarrow> length s' = 64 \<Longrightarrow>
      isl (encode_value lib metadata ty
            (settings_value (flds[i := (v, signature_field lib expiry s)])))
        \<longleftrightarrow> isl (encode_value lib metadata ty
            (settings_value (flds[i := (v, signature_field lib expiry s')])))"
    and "\<And>m. length (sign m) = 64"
  shows "case sign_dispatch lib tx metadata public_key expiry sign of
           (msgs, Inl e) \<Rightarrow> msgs = []
         | (msgs, Inr payload) \<Rightarrow> length msgs = 1"
proof -
  have "isl (encode_settings lib metadata ty flds i expiry (replicate 64 0))
      \<longleftrightarrow> isl (encode_settings lib metadata ty flds i expiry (sign m))" for ty flds i m
    using assms(1) [of "replicate 64 0" "sign m" ty flds i "fst (flds ! i)"] assms(2)
    by (simp add: isl_encode_settings)
  note alike = this
  show ?thesis
  proof (cases "prepare_dispatch lib tx metadata")
    case (Inl e)
    then show ?thesis by (simp add: sign_dispatch_def)
  next
    case (Inr prep)
    obtain call rng ty flds i where prep: "prep = (call, rng, ty, flds, i)" by (cases prep)
    then show ?thesis
      using Inr alike [of ty flds i "slice call tx @ public_key @ u32_to_le_bytes expiry"]
      by (cases "encode_settings lib metadata ty flds i expiry (replicate 64 0)";
          cases "encode_settings lib metadata ty flds i expiry
                   (sign (slice call tx @ public_key @ u32_to_le_bytes expiry))")
        (simp_all add: sign_dispatch_def Let_def del: slice.simps)
  qed
qed

lemma refused_dispatch_signs_nothing_witness:
  "case sign_dispatch sample_lib [54, 5, 9] [] [3] 256 (\<lambda>m. replicate 64 8) of
     (msgs, Inl e) \<Rightarrow> msgs = [] | (msgs, Inr payload) \<Rightarrow> length msgs = 1"
  by (rule refused_dispatch_signs_nothing)
    (simp_all add: sample_lib_def settings_value_def)

text \<open>
  C27: Finding the end of an argument succeeds exactly on values that decode and are nested at most
  \<open>MAX_NESTING\<close> levels deep, with the bytes they take; a value that decodes but is nested deeper is
  the one refused as too deep.
\<close>

theorem measure_accepts_bounded_values:
  "(measure_walk 0 w = Inr n \<longleftrightarrow>
      walk_height w \<le> MAX_NESTING \<and> walk_decodable w \<and> n = walk_size w)
   \<and> (walk_decodable w \<and> measure_walk 0 w = Inl TooDeep \<longleftrightarrow>
      walk_decodable w \<and> MAX_NESTING < walk_height w)"
proof -
  have "measure_walk d w' = Inl (Decode e) \<Longrightarrow> \<not> walk_decodable w'"
    "measure_items d ws = Inl (Decode e) \<Longrightarrow> \<not> (\<forall>w \<in> set ws. walk_decodable w)" for d w' ws e
    by (induction d w' and d ws rule: measure_walk_measure_items.induct)
      (auto split: sum.splits if_splits)
  then have decodes: "walk_decodable w \<Longrightarrow>
      measure_walk 0 w = Inl TooDeep \<longleftrightarrow> (\<forall>m. measure_walk 0 w \<noteq> Inr m)"
    by (metis measure_error.exhaust obj_sumE sum.distinct(1))
  show ?thesis
    using decodes measure_bound(1) [of 0 w] by (auto simp: not_le)
qed

text \<open>
  Settings given as \<open>None\<close> are read as the runtime's default exactly when every field of it but
  the signature is false or \<open>None\<close>; a field that is not is refused rather than guessed. Settings given
  otherwise are accepted exactly when they are \<open>Some\<close> of named fields, and then unchanged.
\<close>

lemma dispatch_settings_defaults:
  assumes "decode_value lib metadata ty encoded = Inr decoded"
  shows "dispatch_settings lib metadata encoded ty = Inr flds \<longleftrightarrow>
      (if \<exists>values. decoded = VVariant ''None'' values
       then decode_value lib metadata ty DEFAULT_SETTINGS = Inr (settings_value flds)
         \<and> list_all (\<lambda>(name, v). name = ''signature'' \<or> is_zero v) flds
       else decoded = settings_value flds)"
proof -
  have pat: "(case v of
        VVariant name (Unnamed [VComposite (Named fs)]) \<Rightarrow>
          if name = ''Some'' then f fs else Inl ''invalid dispatch settings''
      | _ \<Rightarrow> Inl ''invalid dispatch settings'') = Inr flds
      \<longleftrightarrow> (\<exists>fs. v = settings_value fs \<and> f fs = Inr flds)" for v and f :: "_ \<Rightarrow> _ result"
    by (auto simp: settings_value_def split: scale_value.splits composite.splits list.splits)
  have sel: "find (\<lambda>(field, v). field \<noteq> ''signature'' \<and> \<not> is_zero v) fs = None
      \<longleftrightarrow> list_all (\<lambda>(name, v). name = ''signature'' \<or> is_zero v) fs" for fs
    by (auto simp: find_None_iff list_all_iff)
  show ?thesis
  proof (cases "\<exists>values. decoded = VVariant ''None'' values")
    case True
    then obtain vs where d: "decoded = VVariant ''None'' vs" by blast
    show ?thesis
    proof (cases "decode_value lib metadata ty DEFAULT_SETTINGS")
      case (Inl e)
      then show ?thesis using assms d by (simp add: dispatch_settings_def)
    next
      case (Inr v)
      have "dispatch_settings lib metadata encoded ty = Inr flds \<longleftrightarrow> (\<exists>fs. v = settings_value fs \<and>
          (case find (\<lambda>(field, v). field \<noteq> ''signature'' \<and> \<not> is_zero v) fs of
             Some (field, v) \<Rightarrow> Inl (''dispatch settings field '' @ field @ '' has no known default'')
           | None \<Rightarrow> Inr fs) = Inr flds)"
        using assms d Inr
        by (simp only: dispatch_settings_def Let_def sum.case scale_value.case if_True refl pat)
      also have "\<dots> \<longleftrightarrow> v = settings_value flds
          \<and> find (\<lambda>(field, v). field \<noteq> ''signature'' \<and> \<not> is_zero v) flds = None"
        by (auto split: option.splits) (metis option.exhaust surj_pair)
      finally show ?thesis using Inr True by (simp add: sel)
    qed
  next
    case False
    then have "(case decoded of VVariant name vs \<Rightarrow> name = ''None'' | _ \<Rightarrow> False) = False"
      by (auto split: scale_value.splits)
    then show ?thesis
      using assms False by (simp add: dispatch_settings_def Let_def pat)
  qed
qed

lemma dispatch_settings_defaults_witness:
  "dispatch_settings sample_lib [] [7] 1 = Inr
       [(''use_none_origin'', VPrimitive (PBool False)), (''signature'', VVariant ''None'' (Unnamed []))]
   \<longleftrightarrow> sample_settings = settings_value
       [(''use_none_origin'', VPrimitive (PBool False)), (''signature'', VVariant ''None'' (Unnamed []))]"
  using dispatch_settings_defaults [of sample_lib "[]" 1 "[7]" sample_settings]
  by (simp add: sample_lib_def sample_settings_def)

end
