(* ===== verification/Tx_Processor.thy ===== *)
theory Tx_Processor
  imports Nonce_Cache Fuel_Tank "HOL-Library.Sublist"
begin

text \<open>
  The transaction processor of \<open>src/src/transaction.rs\<close>: signing one request (\<open>sign_request\<close>), the
  signing loop of a batch and its submission (\<open>transaction_handler\<close>), and the task that processes
  one tick after another (\<open>process_tick\<close>, \<open>run_processor\<close>), with the nonce cache and the metadata
  store as state. A panic (\<open>overflow-checks\<close> is on in the release profile) is the result \<open>Panic\<close>.
\<close>

definition TX_MORTALITY :: u64 where "TX_MORTALITY = 64"
definition DUMMY_TX_MORTALITY :: u64 where "DUMMY_TX_MORTALITY = 14400"

datatype batch_outcome = Completed | PartialProgress | Skipped | SubmissionFailed

subsection \<open>Signing one request\<close>

definition mortal_params :: "u64 \<Rightarrow> u64 \<Rightarrow> u32 \<Rightarrow> h256 \<Rightarrow> tx_params" where
  "mortal_params nonce mortality block_number block_hash =
     \<lparr>tx_nonce = nonce, tx_tip = 0, tx_mortality = mortality, tx_from_block = ucast block_number,
      tx_from_block_hash = block_hash\<rparr>"

definition sign_payload ::
    "('meta, 'cab, 'tx, 'kp) chain_lib \<Rightarrow> 'cab \<Rightarrow> 'kp \<Rightarrow> raw_payload \<Rightarrow> tx_params \<Rightarrow> bytes option" where
  "sign_payload lib client_at_block signer raw params =
     (case create_signable_offline lib client_at_block raw params of
        Inl e \<Rightarrow> None
      | Inr tx \<Rightarrow> (case sign_extrinsic lib tx signer of Inl e \<Rightarrow> None | Inr extrinsic \<Rightarrow> Some extrinsic))"

text \<open>\<open>system.remark\<close> with an empty value.\<close>

definition dummy_payload :: raw_payload where
  "dummy_payload = \<lparr>pallet_name = ''System'', call_name = ''remark'', field_bytes = [0]\<rparr>"

definition fuel_tank_payload ::
    "('meta, 'cab, 'tx, 'kp) chain_lib \<Rightarrow> 'kp \<Rightarrow> 'cab \<Rightarrow> u32 \<Rightarrow> public_key \<Rightarrow> transaction_request
     \<Rightarrow> bytes option exec" where
  "fuel_tank_payload lib keypair client_at_block block_number pubkey_bytes request =
     (case fuel_tank_signer_external_id request of
        None \<Rightarrow> Return (Some (payload request))
      | Some signer_external_id \<Rightarrow>
          (case checked_plus block_number (ucast TX_MORTALITY) of
             Panic \<Rightarrow> Panic
           | Return expiration_block \<Rightarrow>
              (let ft_signer = derive_signer (derive_soft lib) keypair signer_external_id
               in Return (case snd (sign_dispatch lib (payload request)
                                (metadata_ref lib client_at_block) pubkey_bytes expiration_block
                                (sign_message lib ft_signer)) of
                            Inl e \<Rightarrow> None | Inr p \<Rightarrow> Some p))))"

definition build_input ::
    "('meta, 'cab, 'tx, 'kp) chain_lib \<Rightarrow> 'kp \<Rightarrow> 'cab \<Rightarrow> u32 \<Rightarrow> h256 \<Rightarrow> 'kp \<Rightarrow> u64 \<Rightarrow> transaction_request
     \<Rightarrow> sign_transaction_input option exec" where
  "build_input lib keypair client_at_block block_number block_hash signer correct_nonce request =
     (case fuel_tank_payload lib keypair client_at_block block_number (public_key_of lib signer)
             request of
        Panic \<Rightarrow> Panic
      | Return None \<Rightarrow> Return None
      | Return (Some final_payload) \<Rightarrow>
          Return
           (case sign_payload lib client_at_block signer dummy_payload
                   (mortal_params correct_nonce DUMMY_TX_MORTALITY block_number block_hash) of
              None \<Rightarrow> None
            | Some signed_dummy_tx \<Rightarrow>
                if length final_payload < 2 then None
                else (case from_bytes lib (metadata_ref lib client_at_block) final_payload of
                        None \<Rightarrow> None
                      | Some raw \<Rightarrow>
                          (case sign_payload lib client_at_block signer raw
                                  (mortal_params correct_nonce TX_MORTALITY block_number block_hash) of
                             None \<Rightarrow> None
                           | Some signed_tx \<Rightarrow>
                               Some \<lparr>uuid = request_id request,
                                     signed_extrinsic = ''0x'' @ hex_encode lib signed_tx,
                                     signed_abandon_extrinsic =
                                       ''0x'' @ hex_encode lib signed_dummy_tx\<rparr>))))"

subsection \<open>The signing loop\<close>

text \<open>\<open>ss_signed\<close> is what the log line \<open>Signed #.. nonce=.. account=..\<close> reports.\<close>

type_synonym signed_log = "(string \<times> nonce_key \<times> u64) list"

record signing_state =
  ss_nonces :: nonce_map
  ss_inputs :: "sign_transaction_input list"
  ss_signed :: signed_log
  committed_keys :: "nonce_key set"

definition sign_request ::
    "('meta, 'cab, 'tx, 'kp) chain_lib \<Rightarrow> 'kp \<Rightarrow> 'meta prefetch \<Rightarrow> nonce_key set
     \<Rightarrow> 'kp \<times> transaction_request \<Rightarrow> signing_state \<Rightarrow> signing_state exec" where
  "sign_request lib keypair prefetched failed_nonces = (\<lambda>(signer, request) s.
     (let nonce_key = (req_network request, req_chain request, public_key_of lib signer);
          chain_key = (req_network request, req_chain request)
      in if chain_key \<in> failed_chains prefetched then Return s
      else if nonce_key \<in> failed_nonces then Return s
      else case block_infos prefetched chain_key of
        None \<Rightarrow> Return s
      | Some (block_number, block_hash, _) \<Rightarrow>
     (case substrate_client (req_network request) (req_chain request) (pf_store prefetched) of
        None \<Rightarrow> Return s
      | Some chain_client \<Rightarrow>
     (case at_block lib chain_client (ucast block_number) of
        Inl e \<Rightarrow> Return s
      | Inr client_at_block \<Rightarrow>
     (case ss_nonces s nonce_key of
        None \<Rightarrow> Return s
      | Some correct_nonce \<Rightarrow>
     (case build_input lib keypair client_at_block block_number block_hash signer correct_nonce
             request of
        Panic \<Rightarrow> Panic
      | Return None \<Rightarrow> Return s
      | Return (Some input) \<Rightarrow>
     (case checked_plus correct_nonce 1 of
        Panic \<Rightarrow> Panic
      | Return advanced \<Rightarrow>
          Return (s\<lparr>ss_inputs := ss_inputs s @ [input],
                    ss_signed := ss_signed s @ [(request_id request, nonce_key, correct_nonce)],
                    ss_nonces := (ss_nonces s)(nonce_key \<mapsto> advanced),
                    committed_keys := insert nonce_key (committed_keys s)\<rparr>))))))))"

subsection \<open>A batch\<close>

record 'meta processor =
  pr_store :: "'meta metadata_store"
  pr_nonces :: nonce_map

text \<open>What a batch shows outside: the requests made to the platform, the inputs signed, the log of
  the signatures and the outcome.\<close>

record batch_report =
  br_calls :: "platform_call list"
  br_inputs :: "sign_transaction_input list"
  br_signed :: signed_log
  br_outcome :: batch_outcome

definition transaction_handler ::
    "text_lib \<Rightarrow> ('meta, 'cab, 'tx, 'kp) chain_lib \<Rightarrow> batch_env \<Rightarrow> 'kp \<Rightarrow> transaction_request list
     \<Rightarrow> 'meta processor \<Rightarrow> ('meta processor \<times> batch_report) exec"
  where
  "transaction_handler L lib env keypair requests p =
     (let signers = map (\<lambda>r. derive_signer (derive_soft lib) keypair (external_id r)) requests
      in case prefetch_chains L lib env (pr_store p) requests of
        Panic \<Rightarrow> Panic
      | Return prefetched \<Rightarrow>
     (let refreshed = refresh_nonces L lib env (failed_chains prefetched) (pr_nonces p)
                        (zip signers requests)
      in case fold_exec (sign_request lib keypair prefetched (failed_keys refreshed))
                (zip signers requests)
                \<lparr>ss_nonces = nr_nonces refreshed, ss_inputs = [], ss_signed = [],
                 committed_keys = {}\<rparr> of
        Panic \<Rightarrow> Panic
      | Return done_state \<Rightarrow>
     (let inputs = ss_inputs done_state;
          calls = pf_calls prefetched @ nr_calls refreshed;
          report = (\<lambda>nonces calls outcome.
            Return (\<lparr>pr_store = pf_store prefetched, pr_nonces = nonces\<rparr>,
                    \<lparr>br_calls = calls, br_inputs = inputs, br_signed = ss_signed done_state,
                     br_outcome = outcome\<rparr>))
      in if inputs = [] then report (ss_nonces done_state) calls Skipped
         else (case sign_transactions L (env_submit env inputs) inputs of
                 Inl e \<Rightarrow>
                   report (evict_nonce_keys (ss_nonces done_state) (committed_keys done_state))
                     (calls @ [SubmitBatch inputs]) SubmissionFailed
               | Inr u \<Rightarrow>
                   report (ss_nonces done_state) (calls @ [SubmitBatch inputs])
                     (if length inputs < length requests then PartialProgress else Completed)))))"

text \<open>One tick of \<open>launch_job_scheduler\<close>: evict the idle chains, then handle the batch, if any. The
  outcome is what the ack carries; after a panic the ack is dropped and the task is gone.\<close>

definition process_tick ::
    "text_lib \<Rightarrow> ('meta, 'cab, 'tx, 'kp) chain_lib \<Rightarrow> batch_env \<Rightarrow> 'kp \<Rightarrow> transaction_request list
     \<Rightarrow> chain_key set \<Rightarrow> 'meta processor \<Rightarrow> ('meta processor \<times> batch_report) exec"
  where
  "process_tick L lib env keypair batch idle p =
     (let p1 = (if idle \<noteq> {}
                then p\<lparr>pr_nonces := evict_idle_chains (pr_nonces p) idle\<rparr> else p)
      in if batch = []
         then Return (p1, \<lparr>br_calls = [], br_inputs = [], br_signed = [], br_outcome = Completed\<rparr>)
         else transaction_handler L lib env keypair batch p1)"

text \<open>The task: one tick after another, with the reports of the ticks.\<close>

fun run_processor ::
    "text_lib \<Rightarrow> ('meta, 'cab, 'tx, 'kp) chain_lib \<Rightarrow> 'kp
     \<Rightarrow> (batch_env \<times> transaction_request list \<times> chain_key set) list
     \<Rightarrow> 'meta processor \<Rightarrow> ('meta processor \<times> batch_report list) exec"
  where
  "run_processor L lib keypair [] p = Return (p, [])"
| "run_processor L lib keypair ((env, batch, idle) # ticks) p =
     (case process_tick L lib env keypair batch idle p of
        Panic \<Rightarrow> Panic
      | Return (p1, report) \<Rightarrow>
          (case run_processor L lib keypair ticks p1 of
             Panic \<Rightarrow> Panic
           | Return (p2, reports) \<Rightarrow> Return (p2, report # reports)))"

definition nonces_of :: "nonce_key \<Rightarrow> signed_log \<Rightarrow> u64 list" where
  "nonces_of k log = map (\<lambda>(_, _, n). n) (filter (\<lambda>(_, k', _). k' = k) log)"

lemma nonces_of_simps [simp]:
  "nonces_of k [] = []" "nonces_of k (xs @ ys) = nonces_of k xs @ nonces_of k ys"
  "nonces_of k [(i, k', n)] = (if k' = k then [n] else [])"
  by (simp_all add: nonces_of_def)

subsection \<open>What the signing loop does\<close>

text \<open>A request can be signed with a nonce when its chain is ready and building its input succeeds.\<close>

definition can_sign ::
    "('meta, 'cab, 'tx, 'kp) chain_lib \<Rightarrow> 'kp \<Rightarrow> 'meta prefetch \<Rightarrow> 'kp \<times> transaction_request \<Rightarrow> u64
     \<Rightarrow> sign_transaction_input \<Rightarrow> bool" where
  "can_sign lib keypair pf sr nonce input \<longleftrightarrow>
     (\<exists>block_number block_hash reported chain_client client_at_block.
        block_infos pf (request_chain (snd sr)) = Some (block_number, block_hash, reported)
        \<and> substrate_client (req_network (snd sr)) (req_chain (snd sr)) (pf_store pf) = Some chain_client
        \<and> at_block lib chain_client (ucast block_number) = Inr client_at_block
        \<and> build_input lib keypair client_at_block block_number block_hash (fst sr) nonce (snd sr)
          = Return (Some input))"

fun keep_some :: "'a option list \<Rightarrow> 'a list" where
  "keep_some [] = []"
| "keep_some (None # xs) = keep_some xs"
| "keep_some (Some x # xs) = x # keep_some xs"

lemma keep_some_append [simp]: "keep_some (xs @ ys) = keep_some xs @ keep_some ys"
  by (induction xs rule: keep_some.induct) auto

lemma length_keep_some: "length (keep_some xs) = length (filter (\<lambda>x. x \<noteq> None) xs)"
  by (induction xs rule: keep_some.induct) auto

lemma keep_some_eq_Nil: "keep_some xs = [] \<longleftrightarrow> (\<forall>x \<in> set xs. x = None)"
  by (induction xs rule: keep_some.induct) auto

text \<open>How many of the requests have been signed for a key.\<close>

definition signed_count ::
    "('meta, 'cab, 'tx, 'kp) chain_lib \<Rightarrow> nonce_key \<Rightarrow> ('kp \<times> transaction_request) list
     \<Rightarrow> sign_transaction_input option list \<Rightarrow> nat" where
  "signed_count lib k srs rs =
     length (filter (\<lambda>(sr, r). request_key lib sr = k \<and> r \<noteq> None) (zip srs rs))"

lemma signed_count_simps [simp]:
  "signed_count lib k [] [] = 0"
  "length srs = length rs \<Longrightarrow>
     signed_count lib k (srs @ [sr]) (rs @ [r]) =
       signed_count lib k srs rs + (if request_key lib sr = k \<and> r \<noteq> None then 1 else 0)"
  by (auto simp: signed_count_def)

lemma sign_request_cases:
  assumes "sign_request lib keypair pf failed sr s = Return s'"
    and "dom (block_infos pf) \<inter> failed_chains pf = {}"
  obtains (skipped) "s' = s"
      "\<And>n input. \<lbrakk>request_key lib sr \<notin> failed; ss_nonces s (request_key lib sr) = Some n\<rbrakk>
         \<Longrightarrow> \<not> can_sign lib keypair pf sr n input"
  | (pushed) n n' input where
      "request_key lib sr \<notin> failed" "ss_nonces s (request_key lib sr) = Some n"
      "can_sign lib keypair pf sr n input" "unat n' = unat n + 1"
      "s' = s\<lparr>ss_inputs := ss_inputs s @ [input],
              ss_signed := ss_signed s @ [(request_id (snd sr), request_key lib sr, n)],
              ss_nonces := (ss_nonces s)(request_key lib sr \<mapsto> n'),
              committed_keys := insert (request_key lib sr) (committed_keys s)\<rparr>"
proof -
  obtain signer request where sr: "sr = (signer, request)" by (cases sr)
  define key where "key = request_key lib sr"
  have key: "(req_network request, req_chain request, public_key_of lib signer) = key"
    "(req_network request, req_chain request) = request_chain request"
    by (simp_all add: key_def sr request_key_def request_chain_def)
  show thesis
  proof (cases "\<exists>n input. key \<notin> failed \<and> ss_nonces s key = Some n \<and> can_sign lib keypair pf sr n input")
    case True
    then obtain n input bn bh reported client cab where *:
      "key \<notin> failed" "ss_nonces s key = Some n" "can_sign lib keypair pf sr n input"
      "block_infos pf (request_chain request) = Some (bn, bh, reported)"
      "substrate_client (req_network request) (req_chain request) (pf_store pf) = Some client"
      "at_block lib client (ucast bn) = Inr cab"
      "build_input lib keypair cab bn bh signer n request = Return (Some input)"
      by (auto simp: can_sign_def sr)
    moreover have "request_chain request \<notin> failed_chains pf"
      using * assms(2) by blast
    ultimately obtain n' where "checked_plus n 1 = Return n'"
      "s' = s\<lparr>ss_inputs := ss_inputs s @ [input],
             ss_signed := ss_signed s @ [(request_id request, key, n)],
             ss_nonces := (ss_nonces s)(key \<mapsto> n'),
             committed_keys := insert key (committed_keys s)\<rparr>"
      using assms(1) by (auto simp: sign_request_def sr key Let_def split: exec.splits)
    then show thesis
      using * pushed by (auto simp: checked_plus_Return_iff key_def sr)
  next
    case False
    then have "s' = s"
      using assms(1)
      by (auto simp: sign_request_def sr key Let_def can_sign_def split: if_splits option.splits
          sum.splits prod.splits exec.splits)
    then show thesis using False by (intro skipped) (auto simp: key_def)
  qed
qed


lemma can_sign_unique:
  "\<lbrakk>can_sign lib keypair pf sr n input; can_sign lib keypair pf sr n input'\<rbrakk> \<Longrightarrow> input = input'"
  by (auto simp: can_sign_def)

lemma build_input_uuid:
  "build_input lib keypair cab bn bh signer n r = Return (Some input) \<Longrightarrow> uuid input = request_id r"
  unfolding build_input_def
  by (auto split: exec.split_asm option.split_asm if_split_asm)

lemma can_sign_uuid: "can_sign lib keypair pf sr n input \<Longrightarrow> uuid input = request_id (snd sr)"
  unfolding can_sign_def using build_input_uuid by fast

definition nonce_at :: "nonce_map \<Rightarrow> nonce_key \<Rightarrow> nat \<Rightarrow> u64 \<Rightarrow> bool" where
  "nonce_at nonces k c n \<longleftrightarrow> (\<exists>base. nonces k = Some base \<and> unat n = unat base + c)"

lemma nonce_at_unique: "\<lbrakk>nonce_at nonces k c n; nonce_at nonces k c n'\<rbrakk> \<Longrightarrow> n = n'"
  by (auto simp: nonce_at_def word_unat_eq_iff)

definition slot_advanced :: "nonce_map \<Rightarrow> nonce_key \<Rightarrow> nat \<Rightarrow> u64 option \<Rightarrow> bool" where
  "slot_advanced nonces k c slot \<longleftrightarrow>
     (case slot of None \<Rightarrow> nonces k = None | Some n \<Rightarrow> nonce_at nonces k c n)"

definition nonces_from :: "nonce_map \<Rightarrow> nonce_key \<Rightarrow> nat \<Rightarrow> u64 list \<Rightarrow> bool" where
  "nonces_from nonces k c ns \<longleftrightarrow>
     length ns = c \<and> (\<forall>i < c. nonce_at nonces k i (ns ! i))"

lemma nonces_from_simps:
  "nonces_from nonces k 0 []"
  "nonces_from nonces k c ns \<Longrightarrow>
     nonces_from nonces k (Suc c) (ns @ [n]) \<longleftrightarrow> nonce_at nonces k c n"
  by (auto simp: nonces_from_def nth_append less_Suc_eq)

lemma nonces_from_upt:
  assumes "nonces_from nonces k c ns"
  shows "map unat ns =
    (case nonces k of None \<Rightarrow> [] | Some base \<Rightarrow> [unat base ..< unat base + length ns])"
proof (cases "nonces k")
  case None
  then have "\<not> 0 < c" using assms by (auto simp: nonces_from_def nonce_at_def)
  then show ?thesis using assms None by (simp add: nonces_from_def)
next
  case (Some base)
  then show ?thesis
    using assms by (auto simp: nonces_from_def nonce_at_def intro!: nth_equalityI)
qed

text \<open>The list \<open>rs\<close> tells what became of each request visited: the input signed for it, if any.\<close>

definition signing_trace ::
    "('meta, 'cab, 'tx, 'kp) chain_lib \<Rightarrow> 'kp \<Rightarrow> 'meta prefetch \<Rightarrow> nonce_key set \<Rightarrow> nonce_map
     \<Rightarrow> ('kp \<times> transaction_request) list \<Rightarrow> sign_transaction_input option list \<Rightarrow> bool" where
  "signing_trace lib keypair pf failed nonces srs rs \<longleftrightarrow>
     length rs = length srs
     \<and> (\<forall>i < length srs. \<forall>input.
          rs ! i = Some input \<longleftrightarrow>
            request_key lib (srs ! i) \<notin> failed
            \<and> (\<exists>n. nonce_at nonces (request_key lib (srs ! i))
                      (signed_count lib (request_key lib (srs ! i)) (take i srs) (take i rs)) n
                  \<and> can_sign lib keypair pf (srs ! i) n input))"

lemma signing_trace_snoc:
  assumes "signing_trace lib keypair pf failed nonces srs rs"
  shows "signing_trace lib keypair pf failed nonces (srs @ [sr]) (rs @ [r]) \<longleftrightarrow>
     (\<forall>input. r = Some input \<longleftrightarrow>
        request_key lib sr \<notin> failed
        \<and> (\<exists>n. nonce_at nonces (request_key lib sr) (signed_count lib (request_key lib sr) srs rs) n
              \<and> can_sign lib keypair pf sr n input))"
  using assms by (auto simp: signing_trace_def nth_append less_Suc_eq)

definition signing_inv ::
    "('meta, 'cab, 'tx, 'kp) chain_lib \<Rightarrow> 'kp \<Rightarrow> 'meta prefetch \<Rightarrow> nonce_key set \<Rightarrow> nonce_map
     \<Rightarrow> ('kp \<times> transaction_request) list \<Rightarrow> signing_state \<Rightarrow> bool" where
  "signing_inv lib keypair pf failed nonces srs s \<longleftrightarrow>
     (\<exists>rs. signing_trace lib keypair pf failed nonces srs rs
        \<and> ss_inputs s = keep_some rs
        \<and> map fst (ss_signed s) = map uuid (ss_inputs s)
        \<and> (\<forall>k. nonces_from nonces k (signed_count lib k srs rs) (nonces_of k (ss_signed s)))
        \<and> (\<forall>k. slot_advanced nonces k (signed_count lib k srs rs) (ss_nonces s k))
        \<and> committed_keys s = {k. 0 < signed_count lib k srs rs})"

lemma slot_advanced_Some:
  "slot_advanced nonces k c slot \<Longrightarrow> slot = Some n \<longleftrightarrow> nonce_at nonces k c n"
  using nonce_at_unique by (fastforce simp: slot_advanced_def nonce_at_def split: option.splits)

lemma signing_inv_skip:
  assumes inv: "signing_inv lib keypair pf failed nonces srs s"
    and none: "\<And>n input. \<lbrakk>request_key lib sr \<notin> failed; ss_nonces s (request_key lib sr) = Some n\<rbrakk>
      \<Longrightarrow> \<not> can_sign lib keypair pf sr n input"
  shows "signing_inv lib keypair pf failed nonces (srs @ [sr]) s"
proof -
  from inv obtain rs where trace: "signing_trace lib keypair pf failed nonces srs rs"
    and inputs: "ss_inputs s = keep_some rs" "map fst (ss_signed s) = map uuid (ss_inputs s)"
    and keys: "\<forall>k. nonces_from nonces k (signed_count lib k srs rs) (nonces_of k (ss_signed s))"
      "\<forall>k. slot_advanced nonces k (signed_count lib k srs rs) (ss_nonces s k)"
      "committed_keys s = {k. 0 < signed_count lib k srs rs}"
    unfolding signing_inv_def by blast
  have "signing_trace lib keypair pf failed nonces (srs @ [sr]) (rs @ [None])"
    unfolding signing_trace_snoc [OF trace] using none slot_advanced_Some [OF spec [OF keys(2)]] by auto
  moreover have "signed_count lib k (srs @ [sr]) (rs @ [None]) = signed_count lib k srs rs" for k
    using trace by (simp add: signing_trace_def)
  ultimately show ?thesis
    using inputs keys unfolding signing_inv_def
    by (intro exI [of _ "rs @ [None]"]) (simp del: split_paired_All)
qed

lemma signing_inv_push:
  assumes inv: "signing_inv lib keypair pf failed nonces srs s"
    and signs: "key \<notin> failed" "ss_nonces s key = Some n" "can_sign lib keypair pf sr n input"
      "unat n' = unat n + 1" "key = request_key lib sr"
    and s': "s' = s\<lparr>ss_inputs := ss_inputs s @ [input],
              ss_signed := ss_signed s @ [(request_id (snd sr), key, n)],
              ss_nonces := (ss_nonces s)(key \<mapsto> n'), committed_keys := insert key (committed_keys s)\<rparr>"
  shows "signing_inv lib keypair pf failed nonces (srs @ [sr]) s'"
proof -
  from inv obtain rs where trace: "signing_trace lib keypair pf failed nonces srs rs"
    and inputs: "ss_inputs s = keep_some rs" "map fst (ss_signed s) = map uuid (ss_inputs s)"
    and logged: "\<And>k. nonces_from nonces k (signed_count lib k srs rs) (nonces_of k (ss_signed s))"
    and slots: "\<And>k. slot_advanced nonces k (signed_count lib k srs rs) (ss_nonces s k)"
    and committed: "committed_keys s = {k. 0 < signed_count lib k srs rs}"
    unfolding signing_inv_def by blast
  have count: "signed_count lib k (srs @ [sr]) (rs @ [Some input])
      = signed_count lib k srs rs + (if key = k then 1 else 0)" for k
    using trace signs(5) by (simp add: signing_trace_def)
  have at: "nonce_at nonces key (signed_count lib key srs rs) n"
    using slots [of key] signs(2) by (simp add: slot_advanced_def)
  then have "signing_trace lib keypair pf failed nonces (srs @ [sr]) (rs @ [Some input])"
    unfolding signing_trace_snoc [OF trace]
    using signs can_sign_unique nonce_at_unique by (metis option.inject)
  moreover have "slot_advanced nonces k (signed_count lib k (srs @ [sr]) (rs @ [Some input])) (ss_nonces s' k)" for k
    using slots [of k] at signs(4) unfolding count
    by (cases "k = key") (auto simp: s' slot_advanced_def nonce_at_def)
  moreover have "nonces_from nonces k (signed_count lib k (srs @ [sr]) (rs @ [Some input]))
      (nonces_of k (ss_signed s'))" for k
    using logged [of k] at unfolding count
    by (cases "k = key") (auto simp: s' nonces_from_simps)
  moreover have "committed_keys s' = {k. 0 < signed_count lib k (srs @ [sr]) (rs @ [Some input])}"
    unfolding count using committed s' by auto
  moreover have "map fst (ss_signed s') = map uuid (ss_inputs s')" "ss_inputs s' = keep_some (rs @ [Some input])"
    using inputs s' can_sign_uuid [OF signs(3)] by simp_all
  ultimately show ?thesis unfolding signing_inv_def by blast
qed

lemma signing_inv_step:
  assumes inv: "signing_inv lib keypair pf failed nonces srs s"
    and step: "sign_request lib keypair pf failed sr s = Return s'"
    and disj: "dom (block_infos pf) \<inter> failed_chains pf = {}"
  shows "signing_inv lib keypair pf failed nonces (srs @ [sr]) s'"
  using step disj
proof (cases rule: sign_request_cases)
  case skipped
  then show ?thesis using signing_inv_skip [OF inv] by simp
next
  case (pushed n n' input)
  then show ?thesis by (intro signing_inv_push [OF inv, of _ n sr input n']) simp_all
qed

lemma signing_loop_inv:
  assumes "fold_exec (sign_request lib keypair pf failed) srs
      \<lparr>ss_nonces = nonces, ss_inputs = [], ss_signed = [], committed_keys = {}\<rparr> = Return s"
    and "dom (block_infos pf) \<inter> failed_chains pf = {}"
  shows "signing_inv lib keypair pf failed nonces srs s"
  using assms(1)
proof (rule fold_exec_invariant)
  show "signing_inv lib keypair pf failed nonces []
      \<lparr>ss_nonces = nonces, ss_inputs = [], ss_signed = [], committed_keys = {}\<rparr>"
    by (auto simp: signing_inv_def signing_trace_def slot_advanced_def nonce_at_def nonces_from_def
        split: option.splits intro!: exI [of _ "[]"])
qed (rule signing_inv_step [OF _ _ assms(2)])


subsection \<open>What a batch does\<close>

definition with_signer ::
    "('meta, 'cab, 'tx, 'kp) chain_lib \<Rightarrow> 'kp \<Rightarrow> transaction_request \<Rightarrow> 'kp \<times> transaction_request" where
  "with_signer lib keypair r = (derive_signer (derive_soft lib) keypair (external_id r), r)"

lemma zip_signers:
  "zip (map (\<lambda>r. derive_signer (derive_soft lib) keypair (external_id r)) rs) rs
     = map (with_signer lib keypair) rs"
  by (induction rs) (simp_all add: with_signer_def)

lemma snd_with_signer [simp]: "snd (with_signer lib keypair r) = r"
  by (simp add: with_signer_def)

lemma transaction_handlerE:
  assumes "transaction_handler L lib env keypair requests p = Return (p', report)"
  obtains pf rf st where
    "prefetch_chains L lib env (pr_store p) requests = Return pf"
    "rf = refresh_nonces L lib env (failed_chains pf) (pr_nonces p) (map (with_signer lib keypair) requests)"
    "fold_exec (sign_request lib keypair pf (failed_keys rf)) (map (with_signer lib keypair) requests)
       \<lparr>ss_nonces = nr_nonces rf, ss_inputs = [], ss_signed = [], committed_keys = {}\<rparr> = Return st"
    "pr_store p' = pf_store pf" "br_inputs report = ss_inputs st" "br_signed report = ss_signed st"
    "br_calls report = pf_calls pf @ nr_calls rf
       @ (if ss_inputs st = [] then [] else [SubmitBatch (ss_inputs st)])"
    "br_outcome report =
       (if ss_inputs st = [] then Skipped
        else if sign_transactions L (env_submit env (ss_inputs st)) (ss_inputs st) \<noteq> Inr ()
        then SubmissionFailed
        else if length (ss_inputs st) < length requests then PartialProgress else Completed)"
    "pr_nonces p' =
       (if br_outcome report = SubmissionFailed
        then evict_nonce_keys (ss_nonces st) (committed_keys st) else ss_nonces st)"
proof -
  from assms obtain pf where pf: "prefetch_chains L lib env (pr_store p) requests = Return pf"
    by (auto simp: transaction_handler_def Let_def split: exec.splits)
  define rf where "rf = refresh_nonces L lib env (failed_chains pf) (pr_nonces p)
    (map (with_signer lib keypair) requests)"
  from assms pf obtain st where
    st: "fold_exec (sign_request lib keypair pf (failed_keys rf)) (map (with_signer lib keypair) requests)
       \<lparr>ss_nonces = nr_nonces rf, ss_inputs = [], ss_signed = [], committed_keys = {}\<rparr> = Return st"
    by (auto simp: transaction_handler_def zip_signers rf_def Let_def split: exec.splits)
  define final where "final = (\<lambda>nonces calls outcome.
      Return (\<lparr>pr_store = pf_store pf, pr_nonces = nonces\<rparr>,
              \<lparr>br_calls = calls, br_inputs = ss_inputs st, br_signed = ss_signed st,
               br_outcome = outcome\<rparr>))"
  have handled: "transaction_handler L lib env keypair requests p =
      (if ss_inputs st = [] then final (ss_nonces st) (pf_calls pf @ nr_calls rf) Skipped
       else (case sign_transactions L (env_submit env (ss_inputs st)) (ss_inputs st) of
               Inl e \<Rightarrow>
                 final (evict_nonce_keys (ss_nonces st) (committed_keys st))
                   ((pf_calls pf @ nr_calls rf) @ [SubmitBatch (ss_inputs st)]) SubmissionFailed
             | Inr u \<Rightarrow>
                 final (ss_nonces st) ((pf_calls pf @ nr_calls rf) @ [SubmitBatch (ss_inputs st)])
                   (if length (ss_inputs st) < length requests then PartialProgress
                    else Completed)))"
    using pf st by (simp only: transaction_handler_def zip_signers Let_def exec.case final_def
        flip: rf_def)
  show thesis
    by (rule that [OF pf rf_def st])
      (use assms handled in \<open>auto simp: final_def split: if_splits sum.splits\<close>)
qed

lemma signed_count_pos:
  assumes "0 < signed_count lib k srs rs" and "length rs = length srs"
  obtains i input where "i < length srs" "request_key lib (srs ! i) = k" "rs ! i = Some input"
proof -
  from assms(1) have "filter (\<lambda>(sr, r). request_key lib sr = k \<and> r \<noteq> None) (zip srs rs) \<noteq> []"
    by (auto simp: signed_count_def)
  then obtain sr r where "(sr, r) \<in> set (zip srs rs)" "request_key lib sr = k" "r \<noteq> None"
    by (auto simp: filter_empty_conv)
  then show thesis using that assms(2) by (auto simp: in_set_zip)
qed

lemma slot_advanced_0: "slot_advanced nonces k 0 slot \<longleftrightarrow> slot = nonces k"
  by (cases slot; cases "nonces k") (auto simp: slot_advanced_def nonce_at_def word_unat_eq_iff)

text \<open>The nonce a batch starts from for a signer: the larger of the cached one and the platform's.\<close>

definition next_nonce :: "text_lib \<Rightarrow> batch_env \<Rightarrow> nonce_map \<Rightarrow> nonce_map" where
  "next_nonce L env nonces k =
     (case get_account_nonce L (env_nonce env k) of
        Inl e \<Rightarrow> None
      | Inr platform \<Rightarrow> Some (case nonces k of Some cached \<Rightarrow> max cached platform | None \<Rightarrow> platform))"

lemma slot_after_next_nonce:
  assumes "slot_after L env nonces refreshed k slot"
  shows "slot = (if k \<in> refreshed then next_nonce L env nonces k else nonces k)
       \<and> (k \<in> refreshed \<longrightarrow> next_nonce L env nonces k \<noteq> None)"
  using assms by (auto simp: slot_after_def next_nonce_def)

lemma refreshed_nonce_at:
  assumes "prefetch_inv L lib env store requests pf"
    and "refresh_inv L lib env (failed_chains pf) nonces (map (with_signer lib keypair) requests) rf"
    and "r \<in> set requests" and "can_sign lib keypair pf (with_signer lib keypair r) n input"
  shows "request_key lib (with_signer lib keypair r) \<notin> failed_keys rf
         \<and> nonce_at (nr_nonces rf) (request_key lib (with_signer lib keypair r)) c m
       \<longleftrightarrow> nonce_at (next_nonce L env nonces) (request_key lib (with_signer lib keypair r)) c m"
proof -
  define key where "key = request_key lib (with_signer lib keypair r)"
  note R = refresh_invD [OF assms(2)]
  from assms(4) have "request_chain r \<in> dom (block_infos pf)"
    by (auto simp: can_sign_def)
  then have "chain_key_of key \<notin> failed_chains pf"
    using prefetch_invD(1) [OF assms(1)] by (auto simp: key_def)
  then have "key \<in> refreshed_keys rf \<union> failed_keys rf"
    using R(2) assms(3) by (auto simp: key_def)
  moreover have "next_nonce L env nonces key = None" if "key \<in> failed_keys rf"
    using bspec [OF R(4) that] by (auto simp: next_nonce_def)
  moreover have "nr_nonces rf key = next_nonce L env nonces key" if "key \<in> refreshed_keys rf"
    using slot_after_next_nonce [OF spec [OF R(3), of key]] that by simp
  ultimately show ?thesis
    using R(1) unfolding key_def [symmetric] nonce_at_def
    by (cases "key \<in> failed_keys rf") auto
qed

lemma signing_loop_trace:
  assumes "prefetch_inv L lib env store requests pf"
    and "fold_exec (sign_request lib keypair pf failed) (map (with_signer lib keypair) requests)
      \<lparr>ss_nonces = nonces, ss_inputs = [], ss_signed = [], committed_keys = {}\<rparr> = Return st"
  obtains rs where
    "signing_trace lib keypair pf failed nonces (map (with_signer lib keypair) requests) rs"
    "length rs = length requests" "ss_inputs st = keep_some rs"
    "map fst (ss_signed st) = map uuid (ss_inputs st)"
    "\<forall>k. nonces_from nonces k
            (signed_count lib k (map (with_signer lib keypair) requests) rs) (nonces_of k (ss_signed st))"
    "\<forall>k. slot_advanced nonces k
            (signed_count lib k (map (with_signer lib keypair) requests) rs) (ss_nonces st k)"
    "committed_keys st = {k. 0 < signed_count lib k (map (with_signer lib keypair) requests) rs}"
proof -
  from signing_loop_inv [OF assms(2) prefetch_invD(1) [OF assms(1)]] obtain rs where
    rs: "signing_trace lib keypair pf failed nonces (map (with_signer lib keypair) requests) rs"
    "ss_inputs st = keep_some rs" "map fst (ss_signed st) = map uuid (ss_inputs st)"
    "\<forall>k. nonces_from nonces k
            (signed_count lib k (map (with_signer lib keypair) requests) rs) (nonces_of k (ss_signed st))"
    "\<forall>k. slot_advanced nonces k
            (signed_count lib k (map (with_signer lib keypair) requests) rs) (ss_nonces st k)"
    "committed_keys st = {k. 0 < signed_count lib k (map (with_signer lib keypair) requests) rs}"
    unfolding signing_inv_def by blast
  then have "length rs = length requests" by (simp add: signing_trace_def)
  then show thesis using rs by (intro that [of rs])
qed

text \<open>In terms of the nonces the batch starts from: for a signed key they are those of the refreshed cache,
  and no signed key failed to refresh.\<close>

lemma signed_key_base:
  assumes "prefetch_inv L lib env store requests pf"
    and "refresh_inv L lib env (failed_chains pf) nonces (map (with_signer lib keypair) requests) rf"
    and trace: "signing_trace lib keypair pf (failed_keys rf) (nr_nonces rf)
      (map (with_signer lib keypair) requests) rs"
    and "0 < signed_count lib k (map (with_signer lib keypair) requests) rs"
  shows "nonce_at (nr_nonces rf) k c m \<longleftrightarrow> nonce_at (next_nonce L env nonces) k c m"
proof -
  let ?srs = "map (with_signer lib keypair) requests"
  have len: "length rs = length requests" using trace by (simp add: signing_trace_def)
  with assms(4) obtain i input where i: "i < length requests" "request_key lib (?srs ! i) = k"
      "rs ! i = Some input"
    by (auto elim: signed_count_pos)
  with trace obtain n where "k \<notin> failed_keys rf" "can_sign lib keypair pf (?srs ! i) n input"
    by (auto simp: signing_trace_def)
  then show ?thesis
    using refreshed_nonce_at [OF assms(1,2) nth_mem [OF i(1)], of n input] i by auto
qed

lemma trace_from_next:
  assumes "prefetch_inv L lib env store requests pf"
    and "refresh_inv L lib env (failed_chains pf) nonces (map (with_signer lib keypair) requests) rf"
    and trace: "signing_trace lib keypair pf (failed_keys rf) (nr_nonces rf)
      (map (with_signer lib keypair) requests) rs"
  shows "signing_trace lib keypair pf {} (next_nonce L env nonces) (map (with_signer lib keypair) requests) rs"
  unfolding signing_trace_def
proof (intro conjI allI impI)
  let ?srs = "map (with_signer lib keypair) requests"
  show "length rs = length ?srs" using trace by (simp add: signing_trace_def)
  fix i input
  assume "i < length ?srs"
  then have i: "i < length requests" by simp
  define key where "key = request_key lib (?srs ! i)"
  define c where "c = signed_count lib key (take i ?srs) (take i rs)"
  have "rs ! i = Some input \<longleftrightarrow>
      (\<exists>n. (key \<notin> failed_keys rf \<and> nonce_at (nr_nonces rf) key c n) \<and> can_sign lib keypair pf (?srs ! i) n input)"
    using trace i by (auto simp: signing_trace_def c_def key_def)
  also have "\<dots> \<longleftrightarrow>
      (\<exists>n. nonce_at (next_nonce L env nonces) key c n \<and> can_sign lib keypair pf (?srs ! i) n input)"
    using refreshed_nonce_at [OF assms(1,2) nth_mem [OF i]] unfolding key_def nth_map [OF i] by blast
  finally show "rs ! i = Some input \<longleftrightarrow> request_key lib (?srs ! i) \<notin> {} \<and>
      (\<exists>n. nonce_at (next_nonce L env nonces) (request_key lib (?srs ! i))
             (signed_count lib (request_key lib (?srs ! i)) (take i ?srs) (take i rs)) n
           \<and> can_sign lib keypair pf (?srs ! i) n input)"
    by (simp add: c_def key_def)
qed

text \<open>The slot of a key once the batch is signed.\<close>

lemma signed_slot:
  assumes R: "refresh_inv L lib env failed nonces srs rf"
    and slot: "slot_advanced (nr_nonces rf) k (signed_count lib k srs rs) slot"
    and logged: "nonces_from (nr_nonces rf) k (signed_count lib k srs rs) ns"
    and base: "\<And>c m. 0 < signed_count lib k srs rs \<Longrightarrow>
      nonce_at (nr_nonces rf) k c m \<longleftrightarrow> nonce_at (next_nonce L env nonces) k c m"
  shows "if ns \<noteq> [] then \<exists>n. slot = Some n \<and> nonce_at (next_nonce L env nonces) k (length ns) n
    else slot = nonces k \<or> next_nonce L env nonces k \<noteq> None \<and> slot = next_nonce L env nonces k"
proof (cases "ns = []")
  case True
  then have "slot = nr_nonces rf k"
    using slot logged by (simp add: nonces_from_def slot_advanced_0)
  then show ?thesis
    using True slot_after_next_nonce [OF spec [OF refresh_invD(3) [OF R], of k]] by auto
next
  case False
  then have "signed_count lib k srs rs = length ns" "0 < length ns"
    using logged by (auto simp: nonces_from_def simp flip: length_greater_0_conv)
  then show ?thesis
    using False slot logged base
    by (auto simp: slot_advanced_def nonces_from_def nonce_at_def split: option.splits)
qed

text \<open>Everything a batch does, in terms of the nonces it starts from.\<close>

lemma handled_batch:
  assumes "transaction_handler L lib env keypair requests p = Return (p', report)"
  obtains pf rs where
    "prefetch_chains L lib env (pr_store p) requests = Return pf"
    "length rs = length requests" "br_inputs report = keep_some rs"
    "map fst (br_signed report) = map uuid (br_inputs report)"
    "\<forall>i input. i < length requests \<longrightarrow>
       (rs ! i = Some input \<longleftrightarrow>
         (\<exists>n. nonce_at (next_nonce L env (pr_nonces p))
                (request_key lib (with_signer lib keypair (requests ! i)))
                (signed_count lib (request_key lib (with_signer lib keypair (requests ! i)))
                   (take i (map (with_signer lib keypair) requests)) (take i rs)) n
            \<and> can_sign lib keypair pf (with_signer lib keypair (requests ! i)) n input))"
    "\<forall>k. nonces_from (next_nonce L env (pr_nonces p)) k
       (signed_count lib k (map (with_signer lib keypair) requests) rs) (nonces_of k (br_signed report))"
    "\<forall>k. if br_outcome report = SubmissionFailed \<and> nonces_of k (br_signed report) \<noteq> []
       then pr_nonces p' k = None
       else if nonces_of k (br_signed report) \<noteq> []
       then \<exists>n. pr_nonces p' k = Some n
              \<and> nonce_at (next_nonce L env (pr_nonces p)) k (length (nonces_of k (br_signed report))) n
       else pr_nonces p' k = pr_nonces p k
         \<or> next_nonce L env (pr_nonces p) k \<noteq> None
           \<and> pr_nonces p' k = next_nonce L env (pr_nonces p) k"
proof -
  let ?srs = "map (with_signer lib keypair) requests"
  from assms obtain pf rf st where
    pf: "prefetch_chains L lib env (pr_store p) requests = Return pf"
    and rf: "rf = refresh_nonces L lib env (failed_chains pf) (pr_nonces p) ?srs"
    and st: "fold_exec (sign_request lib keypair pf (failed_keys rf)) ?srs
      \<lparr>ss_nonces = nr_nonces rf, ss_inputs = [], ss_signed = [], committed_keys = {}\<rparr> = Return st"
    and report: "br_inputs report = ss_inputs st" "br_signed report = ss_signed st"
    and cache: "pr_nonces p' =
       (if br_outcome report = SubmissionFailed
        then evict_nonce_keys (ss_nonces st) (committed_keys st) else ss_nonces st)"
    by (rule transaction_handlerE)
  note P = prefetch_chains_inv [OF pf]
  have R: "refresh_inv L lib env (failed_chains pf) (pr_nonces p) ?srs rf"
    unfolding rf by (rule refresh_nonces_inv)
  obtain rs where trace: "signing_trace lib keypair pf (failed_keys rf) (nr_nonces rf) ?srs rs"
      and rs: "length rs = length requests" "ss_inputs st = keep_some rs"
        "map fst (ss_signed st) = map uuid (ss_inputs st)"
      and logged: "\<forall>k. nonces_from (nr_nonces rf) k (signed_count lib k ?srs rs)
            (nonces_of k (ss_signed st))"
      and slots: "\<forall>k. slot_advanced (nr_nonces rf) k (signed_count lib k ?srs rs) (ss_nonces st k)"
      and committed: "committed_keys st = {k. 0 < signed_count lib k ?srs rs}"
    by (rule signing_loop_trace [OF P st])
  note base = signed_key_base [OF P R trace]
  have count: "nonces_of k (ss_signed st) \<noteq> [] \<longleftrightarrow> 0 < signed_count lib k ?srs rs" for k
    using spec [OF logged, of k] by (auto simp: nonces_from_def simp flip: length_greater_0_conv)
  show thesis
  proof (rule that [OF pf rs(1)])
    show "br_inputs report = keep_some rs" "map fst (br_signed report) = map uuid (br_inputs report)"
      using rs report by simp_all
    show "\<forall>k. nonces_from (next_nonce L env (pr_nonces p)) k (signed_count lib k ?srs rs)
        (nonces_of k (br_signed report))"
      using logged base report(2) by (auto simp: nonces_from_def simp del: split_paired_All)
    show "\<forall>k. if br_outcome report = SubmissionFailed \<and> nonces_of k (br_signed report) \<noteq> []
       then pr_nonces p' k = None
       else if nonces_of k (br_signed report) \<noteq> []
       then \<exists>n. pr_nonces p' k = Some n
              \<and> nonce_at (next_nonce L env (pr_nonces p)) k (length (nonces_of k (br_signed report))) n
       else pr_nonces p' k = pr_nonces p k
         \<or> next_nonce L env (pr_nonces p) k \<noteq> None
           \<and> pr_nonces p' k = next_nonce L env (pr_nonces p) k" (is "\<forall>k. ?cached k")
    proof
      fix k
      from signed_slot [OF R spec [OF slots] spec [OF logged] base, of k] show "?cached k"
        using cache committed report(2) count [of k] by (auto simp: evict_keys_lookup)
    qed
  qed (use trace_from_next [OF P R trace] in \<open>auto simp: signing_trace_def\<close>)
qed

text \<open>What a batch does for one key.\<close>

lemma handled_key:
  assumes "transaction_handler L lib env keypair requests p = Return (p', report)"
  obtains c where "nonces_from (next_nonce L env (pr_nonces p)) k c (nonces_of k (br_signed report))"
    "if br_outcome report = SubmissionFailed \<and> nonces_of k (br_signed report) \<noteq> []
     then pr_nonces p' k = None
     else if nonces_of k (br_signed report) \<noteq> []
     then \<exists>n. pr_nonces p' k = Some n
            \<and> nonce_at (next_nonce L env (pr_nonces p)) k (length (nonces_of k (br_signed report))) n
     else pr_nonces p' k = pr_nonces p k
       \<or> next_nonce L env (pr_nonces p) k \<noteq> None
         \<and> pr_nonces p' k = next_nonce L env (pr_nonces p) k"
  using assms that by (elim handled_batch) (drule spec [of _ k])+

subsection \<open>A concrete batch\<close>

text \<open>Two transactions of the same managed wallet, a poison row between them, and a fuel tank dispatch
  by the daemon's own key, on a platform that reports block 1000 and the nonce 7 for every account.\<close>

definition sample_request :: "string \<Rightarrow> string option \<Rightarrow> bytes \<Rightarrow> string option option \<Rightarrow> transaction_request" where
  "sample_request i eid encoded tank =
     \<lparr>request_id = i, external_id = eid, req_network = Canary, req_chain = Matrix,
      payload = encoded, fuel_tank_signer_external_id = tank\<rparr>"

definition sample_batch :: "transaction_request list" where
  "sample_batch = [sample_request ''a'' (Some ''5'') [0, 0, 4, 1] None,
                   sample_request ''b'' (Some ''5'') [9, 9, 9] None,
                   sample_request ''c'' (Some ''5'') [0, 0, 8] None,
                   sample_request ''d'' None [54, 5, 9, 7] (Some None)]"

definition ok_response :: "'d \<Rightarrow> 'd http_outcome" where
  "ok_response d = Responded 200 (Inr \<lparr>resp_data = Some d, resp_errors = None\<rparr>)"

definition sample_env :: "bool http_outcome \<Rightarrow> batch_env" where
  "sample_env submission =
     \<lparr>env_block = (\<lambda>k. ok_response (Some \<lparr>br_current_block_number = 1000,
        br_current_block_hash = ''0x'' @ replicate 32 (CHR ''a''), br_spec_version = 1\<rparr>)),
      env_chain_info = (\<lambda>k. ok_response (Some \<lparr>ci_spec_version = 1, ci_transaction_version = 1,
        ci_metadata_version = 14, ci_metadata = ''0xmeta''\<rparr>)),
      env_nonce = (\<lambda>k. ok_response 7),
      env_submit = (\<lambda>inputs. submission)\<rparr>"

definition fresh_processor :: "'meta processor" where
  "fresh_processor = \<lparr>pr_store = Map.empty, pr_nonces = Map.empty\<rparr>"

definition sample_run :: "bool http_outcome \<Rightarrow> (bytes processor \<times> batch_report) exec" where
  "sample_run submission =
     transaction_handler sample_text_lib sample_lib (sample_env submission) 3 sample_batch fresh_processor"

lemma sample_run_accepted:
  obtains p' report where "sample_run (ok_response True) = Return (p', report)"
    "br_signed report = [(''a'', (Canary, Matrix, [9]), 7), (''c'', (Canary, Matrix, [9]), 8),
                         (''d'', (Canary, Matrix, [3]), 7)]"
    "br_outcome report = PartialProgress" "length (br_calls report) = 5"
proof -
  have "case sample_run (ok_response True) of Panic \<Rightarrow> False | Return (p', report) \<Rightarrow>
      br_signed report = [(''a'', (Canary, Matrix, [9]), 7), (''c'', (Canary, Matrix, [9]), 8),
                          (''d'', (Canary, Matrix, [3]), 7)]
      \<and> br_outcome report = PartialProgress \<and> length (br_calls report) = 5"
    by code_simp
  then show thesis using that by (auto split: exec.splits)
qed

subsection \<open>Properties\<close>

text \<open>
  C9: The nonces of a batch: those signed for one network, chain and key are consecutive and start
  at the larger of the cached nonce and the one the platform tells; a request that is skipped leaves
  no gap. One signature is logged for each input that is submitted, with its uuid.
\<close>

theorem batch_nonces_consecutive:
  assumes "transaction_handler L lib env keypair requests p = Return (p', report)"
  shows "map unat (nonces_of k (br_signed report)) =
           (case next_nonce L env (pr_nonces p) k of
              None \<Rightarrow> []
            | Some base \<Rightarrow> [unat base ..< unat base + length (nonces_of k (br_signed report))])
       \<and> map fst (br_signed report) = map uuid (br_inputs report)"
proof -
  from assms obtain rs where ids: "map fst (br_signed report) = map uuid (br_inputs report)"
    and ns: "\<forall>k. nonces_from (next_nonce L env (pr_nonces p)) k
       (signed_count lib k (map (with_signer lib keypair) requests) rs) (nonces_of k (br_signed report))"
    by (rule handled_batch)
  then show ?thesis
    using nonces_from_upt [OF spec [OF ns, of k]] by simp
qed

lemma batch_nonces_consecutive_witness:
  "\<exists>p' report. sample_run (ok_response True) = Return (p', report)
     \<and> map unat (nonces_of (Canary, Matrix, [9]) (br_signed report)) =
         (case next_nonce sample_text_lib (sample_env (ok_response True)) Map.empty (Canary, Matrix, [9]) of
            None \<Rightarrow> []
          | Some base \<Rightarrow> [unat base ..< unat base + length (nonces_of (Canary, Matrix, [9]) (br_signed report))])
     \<and> nonces_of (Canary, Matrix, [9]) (br_signed report) = [7, 8]"
proof -
  obtain p' report where "sample_run (ok_response True) = Return (p', report)"
    "br_signed report = [(''a'', (Canary, Matrix, [9]), 7), (''c'', (Canary, Matrix, [9]), 8),
                         (''d'', (Canary, Matrix, [3]), 7)]"
    by (rule sample_run_accepted)
  with batch_nonces_consecutive [OF this(1) [unfolded sample_run_def], of "(Canary, Matrix, [9])"]
  show ?thesis
    by (intro exI [of _ p'] exI [of _ report]) (simp add: fresh_processor_def nonces_of_def)
qed

end
