(* ===== verification/Tx_Poller.thy ===== *)
theory Tx_Poller
  imports Scan_Pacing Tx_Processor
begin

text \<open>
  The transaction poller of \<open>src/src/transaction.rs\<close>: \<open>start_polling\<close> with the functions it is made of.
  One iteration of its loop is \<open>poll_iteration\<close>: it gives what the iteration does (waits for work,
  fetches a page, sends a tick, waits out a retry delay) and the state it leaves, or the dispatch
  error that ends the loop. Its input holds what the iteration meets: the page the platform answers
  with, the notifications that arrive before and during the lookup, the ack of the processor and
  the random jitter. Notifications that arrive during a retry delay are among those before the next
  lookup.
\<close>

subsection \<open>One page\<close>

datatype tick_dispatch_error = ConsumerGone | AckDropped

fun show_dispatch_error :: "tick_dispatch_error \<Rightarrow> string" where
  "show_dispatch_error ConsumerGone = ''transaction processor receiver dropped''"
| "show_dispatch_error AckDropped = ''transaction processor dropped tick ack''"

datatype batch_step = Continue "string option" bool bool | RetryFresh

text \<open>\<open>Continue cursor made_progress requires_fresh_retry\<close>.\<close>

definition batch_step ::
    "batch_outcome \<Rightarrow> string option \<Rightarrow> string option \<Rightarrow> u32 \<Rightarrow> batch_step" where
  "batch_step outcome cursor next_cursor unproductive_pages =
     (case outcome of
        Completed \<Rightarrow> Continue next_cursor True False
      | PartialProgress \<Rightarrow> Continue next_cursor True True
      | Skipped \<Rightarrow>
          if should_continue_empty_drain cursor next_cursor unproductive_pages
          then Continue next_cursor False True else RetryFresh
      | SubmissionFailed \<Rightarrow> RetryFresh)"

definition complete_chain_scan ::
    "chain_key set \<Rightarrow> chain_key set \<Rightarrow> chain_key set \<times> chain_key set \<times> chain_key set" where
  "complete_chain_scan previous current = (previous - current, current, {})"

subsection \<open>The state of the loop\<close>

text \<open>\<open>retry_required\<close> is the field of \<open>ScanRetryState\<close>.\<close>

record poller_state =
  previous_scan_chains :: "chain_key set"
  current_scan_chains :: "chain_key set"
  cursor :: "string option"
  fetch_now :: bool
  failure_count :: u32
  retry_required :: bool
  unproductive_pages :: u32

definition initial_poller :: poller_state where
  "initial_poller = \<lparr>previous_scan_chains = {}, current_scan_chains = {}, cursor = None,
     fetch_now = True, failure_count = 0, retry_required = False, unproductive_pages = 0\<rparr>"

datatype poll_action = AwaitWork | FetchPage "string option"
  | SendTick "transaction_request list" "chain_key set" | RetryDelay duration

record poll_input =
  in_before :: "notification list"
  in_page :: "pending_page option http_outcome"
  in_during :: "notification list"
  in_ack :: "tick_dispatch_error + batch_outcome"
  in_jitter :: u64

type_synonym poll_result =
  "poll_action list \<times> (tick_dispatch_error + (poller_state \<times> trigger_state))"

definition require_retry :: "poller_state \<Rightarrow> poller_state" where
  "require_retry s = s\<lparr>retry_required := True\<rparr>"

definition take_retry :: "poller_state \<Rightarrow> bool \<times> poller_state" where
  [simp]: "take_retry s = (retry_required s, s\<lparr>retry_required := False\<rparr>)"

definition clear_retry :: "poller_state \<Rightarrow> poller_state" where
  [simp]: "clear_retry s = s\<lparr>retry_required := False\<rparr>"

definition reset_failure_count_after_progress :: "poller_state \<Rightarrow> poller_state" where
  "reset_failure_count_after_progress s =
     (if \<not> retry_required s then s\<lparr>failure_count := 0\<rparr> else s)"

text \<open>A failure delay, always followed by a request.\<close>

definition retry_delay :: "u64 \<Rightarrow> poller_state \<Rightarrow> poll_action \<times> poller_state" where
  "retry_delay jitter s =
     (RetryDelay (jittered_exponential_delay jitter (failure_count s)),
      s\<lparr>failure_count := saturating_add (failure_count s) 1, fetch_now := True\<rparr>)"

definition finish_scan_retry :: "u64 \<Rightarrow> bool \<Rightarrow> poller_state \<Rightarrow> poll_action list \<times> poller_state" where
  "finish_scan_retry jitter deferred s =
     (let (required, s1) = take_retry s
      in if \<not> required then ([], s1\<lparr>failure_count := 0, fetch_now := deferred\<rparr>)
         else (let (pause, s2) = retry_delay jitter s1 in ([pause], s2)))"

text \<open>What the loop does at the end of a scan whose last page has nothing to send.\<close>

definition end_empty_scan :: "poll_input \<Rightarrow> bool \<Rightarrow> poller_state \<Rightarrow> trigger_state \<Rightarrow> poll_result" where
  "end_empty_scan i fresh_lookup s t =
     (let (idle, previous, current) =
            complete_chain_scan (previous_scan_chains s) (current_scan_chains s);
          s1 = s\<lparr>previous_scan_chains := previous, current_scan_chains := current\<rparr>;
          sends = (if idle \<noteq> {} then [SendTick [] idle] else [])
      in case (if idle \<noteq> {} then in_ack i else Inr Completed) of
           Inl e \<Rightarrow> (sends, Inl e)
         | Inr outcome \<Rightarrow>
             (let (t1, deferred) = (if fresh_lookup then (finish_empty_lookup t, False)
                                    else finish_batch True t);
                  (pause, s2) = finish_scan_retry (in_jitter i) deferred s1
              in (sends @ pause, Inr (s2, t1))))"

text \<open>A page with requests: one tick, then the step its outcome decides.\<close>

definition apply_batch_step ::
    "u64 \<Rightarrow> bool \<Rightarrow> batch_step \<Rightarrow> poller_state \<Rightarrow> poll_action list \<times> poller_state" where
  "apply_batch_step jitter deferred step s =
     (case step of
        Continue next_cursor made_progress requires_fresh_retry \<Rightarrow>
          (let s1 = (if made_progress
                     then reset_failure_count_after_progress (s\<lparr>unproductive_pages := 0\<rparr>)
                     else s\<lparr>unproductive_pages := unproductive_pages s + 1\<rparr>);
               s2 = (if requires_fresh_retry then require_retry s1 else s1);
               s3 = s2\<lparr>cursor := next_cursor\<rparr>
           in if next_cursor = None then finish_scan_retry jitter deferred s3
              else ([], s3\<lparr>fetch_now := True\<rparr>))
      | RetryFresh \<Rightarrow>
          (let (pause, s1) = retry_delay jitter (clear_retry (s\<lparr>cursor := None, current_scan_chains := {}, unproductive_pages := 0\<rparr>))
           in ([pause], s1)))"

definition process_page ::
    "poll_input \<Rightarrow> transaction_request list \<Rightarrow> string option \<Rightarrow> poller_state \<Rightarrow> trigger_state
     \<Rightarrow> poll_result" where
  "process_page i requests next_cursor s t =
     (let s1 = s\<lparr>current_scan_chains := current_scan_chains s \<union> set (map request_chain requests)\<rparr>;
          scan_complete = (next_cursor = None);
          (idle, s2) =
            (if scan_complete
             then (let (idle, previous, current) =
                         complete_chain_scan (previous_scan_chains s1) (current_scan_chains s1)
                   in (idle, s1\<lparr>previous_scan_chains := previous, current_scan_chains := current\<rparr>))
             else ({}, s1))
      in case in_ack i of
           Inl e \<Rightarrow> ([SendTick requests idle], Inl e)
         | Inr outcome \<Rightarrow>
             (let (t1, deferred) = finish_batch scan_complete t;
                  (pause, s3) = apply_batch_step (in_jitter i) deferred
                    (batch_step outcome (cursor s) next_cursor (unproductive_pages s)) s2
              in (SendTick requests idle # pause, Inr (s3, t1))))"

subsection \<open>One iteration\<close>

text \<open>\<open>handle_response\<close> is the \<open>match\<close> on the fetched page.\<close>

definition handle_response ::
    "poll_input \<Rightarrow> bool \<Rightarrow> (transaction_request list \<times> string option) result \<Rightarrow> poller_state
     \<Rightarrow> trigger_state \<Rightarrow> poll_result" where
  "handle_response i fresh_lookup response s t =
     (case response of
        Inr (requests, next_cursor) \<Rightarrow>
          if requests = []
          then if should_continue_empty_drain (cursor s) next_cursor (unproductive_pages s)
               then ([], Inr (require_retry (s\<lparr>unproductive_pages := unproductive_pages s + 1,
                                               cursor := next_cursor, fetch_now := True\<rparr>), t))
               else end_empty_scan i fresh_lookup
                      ((if next_cursor \<noteq> None then require_retry s else s)
                         \<lparr>unproductive_pages := 0, cursor := None\<rparr>) t
          else process_page i requests next_cursor s t
      | Inl e \<Rightarrow>
          (let s1 = s\<lparr>cursor := None, unproductive_pages := 0\<rparr>
           in if e = NO_TRANSACTIONS_MSG then end_empty_scan i fresh_lookup s1 t
              else (let (pause, s2) = retry_delay (in_jitter i)
                          (clear_retry (s1\<lparr>current_scan_chains := {}\<rparr>))
                    in ([pause], Inr (s2, finish_empty_lookup t)))))"

definition poll_iteration ::
    "text_lib \<Rightarrow> ('meta, 'cab, 'tx, 'kp) chain_lib \<Rightarrow> poll_input \<Rightarrow> poller_state \<times> trigger_state
     \<Rightarrow> poll_result" where
  "poll_iteration L lib i = (\<lambda>(s, t).
     (let waits = (if fetch_now s then [] else [AwaitWork]);
          t1 = fold deliver (in_before i) t;
          fresh_lookup = (cursor s = None);
          s1 = (if fresh_lookup then s\<lparr>current_scan_chains := {}\<rparr> else s);
          t2 = (if fresh_lookup then begin_fresh_lookup t1 else t1);
          t3 = fold deliver (in_during i) t2;
          (actions, r) = handle_response i fresh_lookup
                           (get_pending_transactions L lib (in_page i)) s1 t3
      in (waits @ FetchPage (cursor s) # actions, r)))"

text \<open>The loop: iterations until the inputs end or a dispatch fails, with all their actions.\<close>

fun start_polling ::
    "text_lib \<Rightarrow> ('meta, 'cab, 'tx, 'kp) chain_lib \<Rightarrow> poll_input list \<Rightarrow> poller_state \<times> trigger_state
     \<Rightarrow> poll_result" where
  "start_polling L lib [] st = ([], Inr st)"
| "start_polling L lib (i # inputs) st =
     (case poll_iteration L lib i st of
        (actions, Inl e) \<Rightarrow> (actions, Inl e)
      | (actions, Inr st') \<Rightarrow>
          (let (rest, r) = start_polling L lib inputs st' in (actions @ rest, r)))"


subsection \<open>The loop paces itself\<close>

definition poll_next ::
    "text_lib \<Rightarrow> ('meta, 'cab, 'tx, 'kp) chain_lib \<Rightarrow> poll_input \<Rightarrow> poller_state \<times> trigger_state
     \<Rightarrow> (poller_state \<times> trigger_state) option" where
  "poll_next L lib i st =
     (case snd (poll_iteration L lib i st) of Inl e \<Rightarrow> None | Inr st' \<Rightarrow> Some st')"

fun is_retry_delay :: "poll_action \<Rightarrow> bool" where
  "is_retry_delay (RetryDelay d) = True"
| "is_retry_delay a = False"

fun sends_requests :: "poll_action \<Rightarrow> bool" where
  "sends_requests (SendTick requests idle) = (requests \<noteq> [])"
| "sends_requests a = False"

text \<open>An iteration made progress when the processor took a page and the platform took some of it. It is
  hasty when it made none and the next request follows at once.\<close>

definition made_progress :: "poll_input \<Rightarrow> poll_action list \<Rightarrow> bool" where
  "made_progress i actions \<longleftrightarrow>
     list_ex sends_requests actions \<and> in_ack i \<in> {Inr Completed, Inr PartialProgress}"

definition hasty_iteration ::
    "text_lib \<Rightarrow> ('meta, 'cab, 'tx, 'kp) chain_lib \<Rightarrow> poll_input \<Rightarrow> poller_state \<times> trigger_state \<Rightarrow> bool"
  where
  "hasty_iteration L lib i st =
     (case poll_iteration L lib i st of
        (actions, Inl e) \<Rightarrow> False
      | (actions, Inr (s', t')) \<Rightarrow>
          fetch_now s' \<and> \<not> list_ex is_retry_delay actions \<and> \<not> made_progress i actions)"

definition poller_inv :: "poller_state \<times> trigger_state \<Rightarrow> bool" where
  "poller_inv = (\<lambda>(s, t). trigger_inv t \<and> unat (unproductive_pages s) \<le> 20
     \<and> (\<not> retry_required s \<longrightarrow> unproductive_pages s = 0) \<and> cursor s \<noteq> Some []
     \<and> (if cursor s = None then unproductive_pages s = 0 else fetch_now s))"

definition poller_rank :: "poller_state \<times> trigger_state \<Rightarrow> nat" where
  "poller_rank = (\<lambda>(s, t).
     if retry_required s then 20 - unat (unproductive_pages s)
     else if cursor s \<noteq> None then 21 else 20)"

lemmas handler_defs = handle_response_def process_page_def end_empty_scan_def apply_batch_step_def
  finish_scan_retry_def retry_delay_def require_retry_def reset_failure_count_after_progress_def
  complete_chain_scan_def

lemma finished_trigger_inv:
  "\<lbrakk>finish_batch c t = (t', d); trigger_inv t\<rbrakk> \<Longrightarrow> trigger_inv t'"
  "trigger_inv t \<Longrightarrow> trigger_inv (finish_empty_lookup t)"
  using trigger.invar_finish [of t c] trigger.invar_empty [of t] by auto

lemma process_pageE:
  assumes "process_page i requests next_cursor s t = (actions, Inr (s', t'))"
  obtains outcome s2 c d pause where
    "apply_batch_step (in_jitter i) d (batch_step outcome (cursor s) next_cursor
       (unproductive_pages s)) s2 = (pause, s')"
    "unproductive_pages s2 = unproductive_pages s" "retry_required s2 = retry_required s"
    "finish_batch c t = (t', d)"
  using assms
  by (auto simp: process_page_def complete_chain_scan_def Let_def split: sum.splits prod.splits if_splits)

text \<open>The four ways a response is handled.\<close>

lemma handle_response_cases:
  assumes "handle_response i fresh response s t = (actions, r)"
  obtains
    (ended) q where "end_empty_scan i fresh q t = (actions, r)" "cursor q = None"
      "unproductive_pages q = 0"
      "current_scan_chains q = current_scan_chains s" "failure_count q = failure_count s"
      "retry_required s \<longrightarrow> retry_required q" "fetch_now q = fetch_now s"
  | (failed) e pause s2 where "response = Inl e"
      "retry_delay (in_jitter i)
         (clear_retry (s\<lparr>cursor := None, unproductive_pages := 0, current_scan_chains := {}\<rparr>)) = (pause, s2)"
      "actions = [pause]" "r = Inr (s2, finish_empty_lookup t)"
  | (drain) next_cursor where "response = Inr ([], next_cursor)"
      "should_continue_empty_drain (cursor s) next_cursor (unproductive_pages s)" "actions = []"
      "r = Inr (require_retry (s\<lparr>unproductive_pages := unproductive_pages s + 1,
                                 cursor := next_cursor, fetch_now := True\<rparr>), t)"
  | (page) requests next_cursor where "response = Inr (requests, next_cursor)" "requests \<noteq> []"
      "process_page i requests next_cursor s t = (actions, r)"
proof (cases response)
  case (Inl e)
  with assms ended [of "s\<lparr>cursor := None, unproductive_pages := 0\<rparr>"] failed show thesis
    by (auto simp: handle_response_def Let_def split: if_splits prod.splits)
next
  case (Inr a)
  obtain requests next_cursor where "a = (requests, next_cursor)" by (cases a)
  with assms Inr ended [of "(if next_cursor \<noteq> None then require_retry s else s)
      \<lparr>unproductive_pages := 0, cursor := None\<rparr>"] drain page show thesis
    by (auto simp: handle_response_def require_retry_def split: if_splits)
qed

lemma handle_response_inv:
  assumes "handle_response i fresh (get_pending_transactions L lib page) s t = (actions, Inr (s', t'))"
    and "poller_inv (s, t)"
  shows "poller_inv (s', t')"
  using assms(1)
proof (cases rule: handle_response_cases)
  case (ended q)
  then show ?thesis using assms(2)
    by (auto simp: end_empty_scan_def finish_scan_retry_def retry_delay_def poller_inv_def Let_def
        intro: finished_trigger_inv split: if_splits sum.splits prod.splits)
next
  case failed
  then show ?thesis using assms(2)
    by (auto simp: retry_delay_def poller_inv_def intro: finished_trigger_inv)
next
  case (drain next_cursor)
  then show ?thesis
    using drain_step [OF drain(2)] pending_page_cursor_nonempty assms(2)
    by (auto simp: poller_inv_def require_retry_def)
next
  case (page requests next_cursor)
  have nc: "next_cursor \<noteq> Some []"
    using page(1) pending_page_cursor_nonempty by blast
  obtain outcome s2 c d pause where
    "apply_batch_step (in_jitter i) d (batch_step outcome (cursor s) next_cursor
       (unproductive_pages s)) s2 = (pause, s')"
    "unproductive_pages s2 = unproductive_pages s" "retry_required s2 = retry_required s"
    "finish_batch c t = (t', d)"
    by (rule process_pageE [OF page(3)])
  then show ?thesis
    using assms(2) nc drain_step(2) [of "cursor s" next_cursor "unproductive_pages s"]
    by (cases outcome)
      (auto simp: apply_batch_step_def batch_step_def retry_delay_def finish_scan_retry_def
        require_retry_def reset_failure_count_after_progress_def poller_inv_def Let_def
        drain_step(1,3,4) intro: finished_trigger_inv split: if_splits)
qed

lemma process_page_rank:
  assumes page: "process_page i requests next_cursor s t = (actions, Inr (s', t'))"
    and "requests \<noteq> []" and "poller_inv (s, t)"
    and "\<not> list_ex is_retry_delay actions" "\<not> made_progress i actions"
  shows "poller_rank (s', t') < poller_rank (s, t)"
proof -
  obtain outcome where ack: "in_ack i = Inr outcome"
    using page by (cases "in_ack i") (auto simp: process_page_def Let_def split: prod.splits)
  have "list_ex sends_requests actions"
    using page assms(2) ack by (auto simp: process_page_def Let_def split: prod.splits)
  then have "outcome \<notin> {Completed, PartialProgress}"
    using assms(5) ack by (auto simp: made_progress_def)
  moreover have "outcome \<noteq> SubmissionFailed"
    using page ack assms(4)
    by (auto simp: process_page_def apply_batch_step_def batch_step_def retry_delay_def Let_def
        split: prod.splits)
  ultimately have out: "outcome = Skipped" by (cases outcome) auto
  show ?thesis
  proof (cases "should_continue_empty_drain (cursor s) next_cursor (unproductive_pages s)")
    case True
    then have "retry_required s'" "unproductive_pages s' = unproductive_pages s + 1"
      using page ack out drain_step(3) [OF True]
      by (auto simp: process_page_def apply_batch_step_def batch_step_def complete_chain_scan_def
          require_retry_def Let_def split: prod.splits if_splits)
    then show ?thesis
      using drain_step(1,2) [OF True] assms(3) by (auto simp: poller_rank_def poller_inv_def)
  next
    case stop: False
    then show ?thesis
      using page ack out assms(4)
      by (auto simp: process_page_def apply_batch_step_def batch_step_def retry_delay_def Let_def
          split: prod.splits)
  qed
qed

lemma end_empty_scan_again:
  assumes "end_empty_scan i fresh q t = (actions, Inr (s', t'))"
    and "fetch_now s'" "\<not> list_ex is_retry_delay actions"
  shows "\<not> fresh" "\<not> retry_required q" "\<not> retry_required s'" "cursor s' = cursor q"
  using assms
  by (auto simp: end_empty_scan_def finish_scan_retry_def retry_delay_def Let_def
      split: if_splits sum.splits prod.splits)

lemma handle_response_rank:
  assumes "handle_response i (cursor s = None) (get_pending_transactions L lib page) s t
      = (actions, Inr (s', t'))"
    and "poller_inv (s, t)"
    and "fetch_now s'" "\<not> list_ex is_retry_delay actions" "\<not> made_progress i actions"
  shows "poller_rank (s', t') < poller_rank (s, t)"
  using assms(1)
proof (cases rule: handle_response_cases)
  case (ended q)
  from end_empty_scan_again [OF ended(1) assms(3,4)] ended(2,6) show ?thesis
    by (simp add: poller_rank_def)
next
  case failed
  then show ?thesis using assms(4) by (auto simp: retry_delay_def)
next
  case (drain next_cursor)
  then show ?thesis
    using drain_step(1-3) [OF drain(2)] assms(2)
    by (auto simp: poller_rank_def poller_inv_def require_retry_def)
next
  case (page requests next_cursor)
  from process_page_rank [OF page(3,2) assms(2,4,5)] show ?thesis .
qed

text \<open>The state in which an iteration meets the response to its request.\<close>

definition at_response :: "poll_input \<Rightarrow> poller_state \<times> trigger_state \<Rightarrow> poller_state \<times> trigger_state" where
  "at_response i = (\<lambda>(s, t).
     (if cursor s = None then s\<lparr>current_scan_chains := {}\<rparr> else s,
      fold deliver (in_during i)
        (if cursor s = None then begin_fresh_lookup (fold deliver (in_before i) t)
         else fold deliver (in_before i) t)))"

lemma at_response_simps:
  assumes "at_response i (s, t) = (s1, t1)"
  shows "cursor s1 = cursor s" "retry_required s1 = retry_required s"
    "failure_count s1 = failure_count s" "unproductive_pages s1 = unproductive_pages s"
    "previous_scan_chains s1 = previous_scan_chains s" "fetch_now s1 = fetch_now s"
  using assms by (cases "cursor s = None"; auto simp: at_response_def)+

lemma poller_inv_prepare:
  assumes "poller_inv (s, t)" and "at_response i (s, t) = (s1, t1)"
  shows "poller_inv (s1, t1)"
proof -
  have "trigger_inv t1"
    using assms by (cases "cursor s = None")
      (auto simp: poller_inv_def at_response_def intro!: trigger.invar_notifies trigger.invar_begin)
  then show ?thesis
    using assms(1) at_response_simps [OF assms(2)] by (simp add: poller_inv_def)
qed

lemma poll_iterationE:
  assumes "poll_iteration L lib i (s, t) = (actions, r)"
  obtains rest s1 t1 where
    "actions = (if fetch_now s then [] else [AwaitWork]) @ FetchPage (cursor s) # rest"
    "at_response i (s, t) = (s1, t1)"
    "handle_response i (cursor s1 = None) (get_pending_transactions L lib (in_page i)) s1 t1 = (rest, r)"
proof -
  obtain s1 t1 where at: "at_response i (s, t) = (s1, t1)" by (cases "at_response i (s, t)")
  then show thesis
    using assms that [OF _ at] at_response_simps [OF at]
    by (auto simp: poll_iteration_def at_response_def Let_def split: prod.splits)
qed

lemma poll_next_Some:
  "poll_next L lib i st = Some st' \<longleftrightarrow> (\<exists>actions. poll_iteration L lib i st = (actions, Inr st'))"
  by (cases "poll_iteration L lib i st") (auto simp: poll_next_def split: sum.splits)

interpretation tx_poller: paced_poller "poll_next L lib" "hasty_iteration L lib" poller_inv poller_rank 21
  for L lib
proof unfold_locales
  fix st st' :: "poller_state \<times> trigger_state" and i
  assume inv: "poller_inv st" and step: "poll_next L lib i st = Some st'"
  obtain s t s' t' where st: "st = (s, t)" "st' = (s', t')" by (cases st, cases st')
  from step obtain actions where it: "poll_iteration L lib i (s, t) = (actions, Inr (s', t'))"
    by (auto simp: poll_next_Some st)
  from it obtain rest s1 t1 where
    actions: "actions = (if fetch_now s then [] else [AwaitWork]) @ FetchPage (cursor s) # rest"
    and at: "at_response i (s, t) = (s1, t1)"
    and resp: "handle_response i (cursor s1 = None) (get_pending_transactions L lib (in_page i)) s1 t1
      = (rest, Inr (s', t'))"
    by (rule poll_iterationE)
  have inv1: "poller_inv (s1, t1)" using inv [unfolded st] at by (rule poller_inv_prepare)
  show "poller_inv st'" unfolding st using handle_response_inv [OF resp inv1] .
  assume "hasty_iteration L lib i st"
  then have "fetch_now s'" "\<not> list_ex is_retry_delay rest" "\<not> made_progress i rest"
    by (auto simp: hasty_iteration_def st it actions made_progress_def split: if_splits)
  then have "poller_rank (s', t') < poller_rank (s1, t1)"
    by (rule handle_response_rank [OF resp inv1])
  then show "poller_rank st' < poller_rank st"
    using at_response_simps [OF at] by (simp add: poller_rank_def st split: if_splits)
next
  fix st :: "poller_state \<times> trigger_state"
  show "poller_rank st \<le> 21" if "poller_inv st"
    by (auto simp: poller_rank_def split: prod.splits)
qed

lemma poller_inv_initial: "trigger_inv t \<Longrightarrow> poller_inv (initial_poller, t)"
  by (simp add: poller_inv_def initial_poller_def)

end
