(* ===== verification/Tx_Polling.thy ===== *)
theory Tx_Polling
  imports Tx_Poller
begin

text \<open>
  What the transaction poller promises: it paces itself, it evicts only chains that a whole scan did
  not show, a scan that leaves work behind is retried after a delay, and no notification is lost.
  The model is in \<open>Tx_Poller\<close>.
\<close>

subsection \<open>Properties\<close>

text \<open>
  C20: No storm of requests. Whatever the platform, the processor and the event source do, at most
  21 iterations in a row make no progress and go on to the next request without a pause; the next
  one waits for work, waits out a retry delay, or gets transactions submitted.
\<close>

theorem poller_never_storms:
  assumes "poll_run (poll_next L lib) before (initial_poller, new_trigger) = Some st"
    and "hasty_run (poll_next L lib) (hasty_iteration L lib) inputs st"
  shows "length inputs \<le> 21"
  using poller_inv_initial [OF trigger_inv_new] assms by (rule tx_poller.hasty_run_bounded)

subsection \<open>A concrete run\<close>

text \<open>Two pages of rows that cannot be converted, then the end of the scan.\<close>

definition poison_row :: pending_transaction where
  "poison_row = \<lparr>pt_external_id = None, pt_uuid = ''p'', pt_encoded_data = ''0xaa'',
     pt_network = OtherNetwork ''DOT'', pt_chain = MATRIX, pt_should_sign_fuel_tank = False,
     pt_fuel_tank_signer_external_id = None\<rparr>"

definition good_row :: pending_transaction where
  "good_row = poison_row\<lparr>pt_network := CANARY\<rparr>"

definition page_input :: "pending_transaction list \<Rightarrow> string option \<Rightarrow> notification list \<Rightarrow> batch_outcome \<Rightarrow> poll_input"
  where
  "page_input rows next_cursor during outcome =
     \<lparr>in_before = [],
      in_page = ok_response (Some \<lparr>pp_data = rows, pp_next_cursor = next_cursor\<rparr>),
      in_during = during, in_ack = Inr outcome, in_jitter = 100\<rparr>"

lemma poller_never_storms_witness:
  "length [page_input [poison_row] (Some ''q'') [] Completed] \<le> 21"
proof (rule poller_never_storms)
  show "poll_run (poll_next sample_text_lib sample_lib) [] (initial_poller, new_trigger)
      = Some (initial_poller, new_trigger)"
    by simp
  show "hasty_run (poll_next sample_text_lib sample_lib) (hasty_iteration sample_text_lib sample_lib)
      [page_input [poison_row] (Some ''q'') [] Completed] (initial_poller, new_trigger)"
    by code_simp
qed

subsection \<open>Idle chains\<close>

text \<open>What the actions show: the chains of the pages handed to the processor since the scan began, and
  whether no tick ever names one of them as idle.\<close>

fun scan_chains :: "chain_key set \<Rightarrow> poll_action list \<Rightarrow> chain_key set" where
  "scan_chains shown [] = shown"
| "scan_chains shown (FetchPage None # actions) = scan_chains {} actions"
| "scan_chains shown (SendTick requests idle # actions) =
     scan_chains (shown \<union> set (map request_chain requests)) actions"
| "scan_chains shown (a # actions) = scan_chains shown actions"

fun idle_unseen :: "chain_key set \<Rightarrow> poll_action list \<Rightarrow> bool" where
  "idle_unseen shown [] = True"
| "idle_unseen shown (FetchPage None # actions) = idle_unseen {} actions"
| "idle_unseen shown (SendTick requests idle # actions) =
     (idle \<inter> (shown \<union> set (map request_chain requests)) = {}
      \<and> idle_unseen (shown \<union> set (map request_chain requests)) actions)"
| "idle_unseen shown (a # actions) = idle_unseen shown actions"

lemma scan_chains_append: "scan_chains shown (xs @ ys) = scan_chains (scan_chains shown xs) ys"
  by (induction shown xs rule: scan_chains.induct) auto

lemma idle_unseen_append:
  "idle_unseen shown (xs @ ys) \<longleftrightarrow> idle_unseen shown xs \<and> idle_unseen (scan_chains shown xs) ys"
  by (induction shown xs rule: scan_chains.induct) auto

lemma finish_scan_retry_facts:
  assumes "finish_scan_retry jitter deferred s = (pause, s')"
  shows "pause = (if retry_required s
           then [RetryDelay (jittered_exponential_delay jitter (failure_count s))] else [])"
    and "cursor s' = cursor s" "current_scan_chains s' = current_scan_chains s"
    and "\<not> retry_required s'" "fetch_now s' = (retry_required s \<or> deferred)"
    and "failure_count s' = (if retry_required s then saturating_add (failure_count s) 1 else 0)"
  using assms by (auto simp: finish_scan_retry_def retry_delay_def Let_def split: if_splits)

lemma end_empty_scan_facts:
  assumes "end_empty_scan i fresh s t = (actions, r)"
  shows "idle_unseen (current_scan_chains s) actions"
    and "r = Inr (s', t') \<Longrightarrow> cursor s' = cursor s"
    and "\<lbrakk>r = Inr (s', t'); retry_required s\<rbrakk> \<Longrightarrow>
       RetryDelay (jittered_exponential_delay (in_jitter i) (failure_count s)) \<in> set actions
       \<and> fetch_now s' \<and> failure_count s' = saturating_add (failure_count s) 1"
    and "\<lbrakk>r = Inr (s', t'); trigger_inv t\<rbrakk> \<Longrightarrow>
       trigger_inv t' \<and> (outstanding t' \<longleftrightarrow> outstanding t)"
proof -
  define idle where "idle = previous_scan_chains s - current_scan_chains s"
  define s1 where "s1 = s\<lparr>previous_scan_chains := current_scan_chains s, current_scan_chains := {}\<rparr>"
  obtain t1 d where t1: "(if fresh then (finish_empty_lookup t, False) else finish_batch True t) = (t1, d)"
    by (cases "if fresh then (finish_empty_lookup t, False) else finish_batch True t")
  obtain pause s2 where s2: "finish_scan_retry (in_jitter i) d s1 = (pause, s2)"
    by (cases "finish_scan_retry (in_jitter i) d s1")
  note F = finish_scan_retry_facts [OF s2]
  have sends: "idle_unseen (current_scan_chains s) ((if idle \<noteq> {} then [SendTick [] idle] else []) @ rest)"
    if "idle_unseen (current_scan_chains s) rest" for rest
    using that by (auto simp: idle_def)
  have "idle_unseen (current_scan_chains s) pause"
    using F(1) by simp
  then have unseen: "idle_unseen (current_scan_chains s)
      ((if idle \<noteq> {} then [SendTick [] idle] else []) @ pause)"
    "idle_unseen (current_scan_chains s) (if idle \<noteq> {} then [SendTick [] idle] else [])"
    using sends [of pause] sends [of "[]"] by simp_all
  have "t1 = (if fresh then finish_empty_lookup t else fst (finish_batch True t))"
    using t1 by (cases fresh) simp_all
  then have trig: "trigger_inv t1 \<and> (outstanding t1 \<longleftrightarrow> outstanding t)" if "trigger_inv t"
    using that trigger.invar_finish trigger.invar_empty by simp
  consider e where "r = Inl e" "actions = (if idle \<noteq> {} then [SendTick [] idle] else [])"
    | "r = Inr (s2, t1)" "actions = (if idle \<noteq> {} then [SendTick [] idle] else []) @ pause"
    using assms t1 s2
    by (auto simp: end_empty_scan_def complete_chain_scan_def Let_def idle_def [symmetric]
        s1_def [symmetric] split: sum.splits if_splits prod.splits)
  note result = this
  show "idle_unseen (current_scan_chains s) actions"
    using result unseen by cases simp_all
  show "cursor s' = cursor s" if "r = Inr (s', t')"
    using result that F(2) by cases (auto simp: s1_def)
  show "RetryDelay (jittered_exponential_delay (in_jitter i) (failure_count s)) \<in> set actions
       \<and> fetch_now s' \<and> failure_count s' = saturating_add (failure_count s) 1"
    if "r = Inr (s', t')" "retry_required s"
    using result that F by cases (auto simp: s1_def)
  show "trigger_inv t' \<and> (outstanding t' \<longleftrightarrow> outstanding t)" if "r = Inr (s', t')" "trigger_inv t"
    using result that trig by cases auto
qed

text \<open>What the step after a page does, in the same terms.\<close>

definition keeps_retry ::
    "u64 \<Rightarrow> poller_state \<Rightarrow> poll_action list \<Rightarrow> poller_state \<Rightarrow> bool" where
  "keeps_retry jitter s actions s' \<longleftrightarrow>
     (if cursor s' \<noteq> None then retry_required s' \<and> failure_count s' = failure_count s
      else RetryDelay (jittered_exponential_delay jitter (failure_count s)) \<in> set actions
         \<and> fetch_now s' \<and> failure_count s' = saturating_add (failure_count s) 1)"

lemma apply_batch_step_facts:
  assumes "apply_batch_step jitter deferred (batch_step outcome c next_cursor n) s = (pause, s')"
  shows "idle_unseen shown pause" and "scan_chains shown pause = shown"
    and "cursor s' \<noteq> None \<Longrightarrow> next_cursor \<noteq> None \<and> current_scan_chains s' = current_scan_chains s"
    and "retry_required s \<Longrightarrow> keeps_retry jitter s pause s'"
proof -
  have "(\<forall>shown. idle_unseen shown pause \<and> scan_chains shown pause = shown)
      \<and> (cursor s' \<noteq> None \<longrightarrow> next_cursor \<noteq> None \<and> current_scan_chains s' = current_scan_chains s)
      \<and> (retry_required s \<longrightarrow> keeps_retry jitter s pause s')"
    using assms
    by (cases outcome)
      (auto simp: batch_step_def apply_batch_step_def finish_scan_retry_def retry_delay_def
        require_retry_def reset_failure_count_after_progress_def keeps_retry_def Let_def
        split: if_splits)
  then show "idle_unseen shown pause" "scan_chains shown pause = shown"
    "cursor s' \<noteq> None \<Longrightarrow> next_cursor \<noteq> None \<and> current_scan_chains s' = current_scan_chains s"
    "retry_required s \<Longrightarrow> keeps_retry jitter s pause s'"
    by blast+
qed

lemma process_page_result:
  assumes "process_page i requests next_cursor s t = (actions, r)"
  obtains idle s2 t1 d where
    "(actions, r) = (case in_ack i of
         Inl e \<Rightarrow> ([SendTick requests idle], Inl e)
       | Inr outcome \<Rightarrow>
           (let (pause, s3) = apply_batch_step (in_jitter i) d
                  (batch_step outcome (cursor s) next_cursor (unproductive_pages s)) s2
            in (SendTick requests idle # pause, Inr (s3, t1))))"
    "idle \<inter> (current_scan_chains s \<union> set (map request_chain requests)) = {}"
    "finish_batch (next_cursor = None) t = (t1, d)"
    "failure_count s2 = failure_count s" "retry_required s2 = retry_required s"
    "next_cursor \<noteq> None \<longrightarrow>
       current_scan_chains s2 = current_scan_chains s \<union> set (map request_chain requests)"
proof -
  define shown where "shown = current_scan_chains s \<union> set (map request_chain requests)"
  define idle where "idle = (if next_cursor = None then previous_scan_chains s - shown else {})"
  define s2 where "s2 = (if next_cursor = None
    then s\<lparr>previous_scan_chains := shown, current_scan_chains := {}\<rparr> else s\<lparr>current_scan_chains := shown\<rparr>)"
  obtain t1 d where t1: "finish_batch (next_cursor = None) t = (t1, d)"
    by (cases "finish_batch (next_cursor = None) t")
  then have "finish_batch True t = (t1, d)" if "next_cursor = None"
    using that by simp
  moreover have "finish_batch False t = (t1, d)" if "next_cursor = Some y" for y
    using t1 that by simp
  ultimately have "process_page i requests next_cursor s t =
      (case in_ack i of
         Inl e \<Rightarrow> ([SendTick requests idle], Inl e)
       | Inr outcome \<Rightarrow>
           (let (pause, s3) = apply_batch_step (in_jitter i) d
                  (batch_step outcome (cursor s) next_cursor (unproductive_pages s)) s2
            in (SendTick requests idle # pause, Inr (s3, t1))))"
    by (cases "in_ack i"; cases next_cursor)
      (simp_all add: process_page_def complete_chain_scan_def Let_def idle_def shown_def s2_def)
  then show thesis
    using assms t1 by (intro that [of idle d s2 t1]) (auto simp: idle_def shown_def s2_def)
qed

lemma process_page_facts:
  assumes "process_page i requests next_cursor s t = (actions, r)"
  shows "idle_unseen (current_scan_chains s) actions"
    and "\<lbrakk>r = Inr (s', t'); cursor s' \<noteq> None\<rbrakk> \<Longrightarrow>
       scan_chains (current_scan_chains s) actions = current_scan_chains s'"
    and "\<lbrakk>r = Inr (s', t'); retry_required s\<rbrakk> \<Longrightarrow> keeps_retry (in_jitter i) s actions s'"
    and "\<lbrakk>r = Inr (s', t'); trigger_inv t\<rbrakk> \<Longrightarrow> trigger_inv t' \<and> (outstanding t' \<longleftrightarrow> outstanding t)"
proof -
  from assms obtain idle s2 t1 d where page:
    "(actions, r) = (case in_ack i of
         Inl e \<Rightarrow> ([SendTick requests idle], Inl e)
       | Inr outcome \<Rightarrow>
           (let (pause, s3) = apply_batch_step (in_jitter i) d
                  (batch_step outcome (cursor s) next_cursor (unproductive_pages s)) s2
            in (SendTick requests idle # pause, Inr (s3, t1))))"
    and idle: "idle \<inter> (current_scan_chains s \<union> set (map request_chain requests)) = {}"
    and t1: "finish_batch (next_cursor = None) t = (t1, d)"
    and s2: "failure_count s2 = failure_count s" "retry_required s2 = retry_required s"
    and shown: "next_cursor \<noteq> None \<longrightarrow>
       current_scan_chains s2 = current_scan_chains s \<union> set (map request_chain requests)"
    by (rule process_page_result)
  show "idle_unseen (current_scan_chains s) actions"
    using page idle by (auto dest: apply_batch_step_facts(1) split: sum.splits prod.splits)
  assume "r = Inr (s', t')"
  with page obtain outcome pause where st: "t' = t1" "actions = SendTick requests idle # pause"
    "apply_batch_step (in_jitter i) d
       (batch_step outcome (cursor s) next_cursor (unproductive_pages s)) s2 = (pause, s')"
    by (auto split: sum.splits prod.splits)
  note F = apply_batch_step_facts [OF st(3)]
  show "scan_chains (current_scan_chains s) actions = current_scan_chains s'" if "cursor s' \<noteq> None"
    using F(2) F(3) [OF that] st(2) shown by simp
  show "keeps_retry (in_jitter i) s actions s'" if "retry_required s"
    using F(4) that s2 st(2) by (auto simp: keeps_retry_def split: if_splits)
  show "trigger_inv t' \<and> (outstanding t' \<longleftrightarrow> outstanding t)" if "trigger_inv t"
    using that t1 st(1) trigger.invar_finish [of t "next_cursor = None"]
      outstanding_step(4) [of "next_cursor = None" t] by simp
qed

lemma handle_response_facts:
  assumes "handle_response i fresh response s t = (actions, r)"
  shows "idle_unseen (current_scan_chains s) actions"
    and "\<lbrakk>r = Inr (s', t'); cursor s' \<noteq> None\<rbrakk> \<Longrightarrow>
       scan_chains (current_scan_chains s) actions = current_scan_chains s'"
    and "\<lbrakk>r = Inr (s', t'); retry_required s\<rbrakk> \<Longrightarrow> keeps_retry (in_jitter i) s actions s'"
    and "\<lbrakk>r = Inr (s', t'); trigger_inv t\<rbrakk> \<Longrightarrow> trigger_inv t' \<and> (outstanding t' \<longleftrightarrow> outstanding t)"
proof -
  have "idle_unseen (current_scan_chains s) actions
      \<and> (\<forall>s' t'. r = Inr (s', t') \<longrightarrow>
           (cursor s' \<noteq> None \<longrightarrow> scan_chains (current_scan_chains s) actions = current_scan_chains s')
           \<and> (retry_required s \<longrightarrow> keeps_retry (in_jitter i) s actions s')
           \<and> (trigger_inv t \<longrightarrow> trigger_inv t' \<and> (outstanding t' \<longleftrightarrow> outstanding t)))"
    using assms
  proof (cases rule: handle_response_cases)
    case (ended q)
    then show ?thesis using end_empty_scan_facts [OF ended(1)] by (auto simp: keeps_retry_def)
  next
    case failed
    then show ?thesis
      using trigger.invar_empty [of t] by (auto simp: retry_delay_def keeps_retry_def)
  next
    case drain
    then show ?thesis
      using drain_step(3) [OF drain(2)] by (auto simp: require_retry_def keeps_retry_def)
  next
    case page
    from process_page_facts [OF page(3)] show ?thesis by blast
  qed
  then show "idle_unseen (current_scan_chains s) actions"
    "\<lbrakk>r = Inr (s', t'); cursor s' \<noteq> None\<rbrakk> \<Longrightarrow>
       scan_chains (current_scan_chains s) actions = current_scan_chains s'"
    "\<lbrakk>r = Inr (s', t'); retry_required s\<rbrakk> \<Longrightarrow> keeps_retry (in_jitter i) s actions s'"
    "\<lbrakk>r = Inr (s', t'); trigger_inv t\<rbrakk> \<Longrightarrow> trigger_inv t' \<and> (outstanding t' \<longleftrightarrow> outstanding t)"
    by blast+
qed

text \<open>And a whole iteration, after which the trigger holds what was notified since the scan began.\<close>

lemma poll_iteration_facts:
  assumes "poll_iteration L lib i (s, t) = (actions, r)"
    and "cursor s \<noteq> None \<longrightarrow> shown = current_scan_chains s"
  shows "idle_unseen shown actions"
    and "\<lbrakk>r = Inr (s', t'); cursor s' \<noteq> None\<rbrakk> \<Longrightarrow> scan_chains shown actions = current_scan_chains s'"
    and "\<lbrakk>r = Inr (s', t'); retry_required s\<rbrakk> \<Longrightarrow> keeps_retry (in_jitter i) s actions s'"
    and "\<lbrakk>r = Inr (s', t'); trigger_inv t\<rbrakk> \<Longrightarrow> trigger_inv t'
       \<and> (outstanding t' \<longleftrightarrow>
            in_during i \<noteq> [] \<or> cursor s \<noteq> None \<and> (in_before i \<noteq> [] \<or> outstanding t))"
proof -
  from assms(1) obtain rest s1 t1 where
    actions: "actions = (if fetch_now s then [] else [AwaitWork]) @ FetchPage (cursor s) # rest"
    and at: "at_response i (s, t) = (s1, t1)"
    and resp: "handle_response i (cursor s1 = None) (get_pending_transactions L lib (in_page i)) s1 t1 = (rest, r)"
    by (rule poll_iterationE)
  note S = at_response_simps [OF at] and F = handle_response_facts [OF resp]
  have shown: "scan_chains shown (FetchPage (cursor s) # rest) = scan_chains (current_scan_chains s1) rest"
    "idle_unseen shown (FetchPage (cursor s) # rest) = idle_unseen (current_scan_chains s1) rest"
    using assms(2) at by (cases "cursor s"; auto simp: at_response_def)+
  show "idle_unseen shown actions"
    using F(1) shown by (simp add: actions idle_unseen_append)
  show "scan_chains shown actions = current_scan_chains s'" if "r = Inr (s', t')" "cursor s' \<noteq> None"
    using F(2) [OF that] shown by (simp add: actions scan_chains_append)
  show "keeps_retry (in_jitter i) s actions s'" if "r = Inr (s', t')" "retry_required s"
    using F(3) [OF that(1)] that(2) S by (auto simp: keeps_retry_def actions split: if_splits)
  show "trigger_inv t' \<and> (outstanding t' \<longleftrightarrow>
      in_during i \<noteq> [] \<or> cursor s \<noteq> None \<and> (in_before i \<noteq> [] \<or> outstanding t))"
    if "r = Inr (s', t')" "trigger_inv t"
  proof -
    note inv = that(2) trigger.invar_notifies [OF that(2)]
      trigger.invar_begin [OF trigger.invar_notifies [OF that(2)]]
    have "trigger_inv t1 \<and> (outstanding t1 \<longleftrightarrow>
        in_during i \<noteq> [] \<or> cursor s \<noteq> None \<and> (in_before i \<noteq> [] \<or> outstanding t))"
      using at inv by (cases "cursor s = None")
        (auto simp: at_response_def trigger.pending_notifies intro!: trigger.invar_notifies)
    then show ?thesis using F(4) [OF that(1)] by auto
  qed
qed

subsection \<open>Properties of the scans\<close>

lemma polling_idle_unseen:
  "idle_unseen {} (fst (start_polling L lib inputs (initial_poller, t)))"
proof -
  have "idle_unseen shown (fst (start_polling L lib inputs (s, t)))"
    if "cursor s \<noteq> None \<longrightarrow> shown = current_scan_chains s" for shown s t
    using that
  proof (induction inputs arbitrary: shown s t)
    case (Cons i inputs)
    obtain actions r where it: "poll_iteration L lib i (s, t) = (actions, r)"
      by (cases "poll_iteration L lib i (s, t)")
    note F = poll_iteration_facts [OF it Cons.prems]
    show ?case
    proof (cases r)
      case (Inl e)
      then show ?thesis using F(1) it by simp
    next
      case (Inr st)
      obtain s' t' where st: "st = (s', t')" by (cases st)
      have "idle_unseen (scan_chains shown actions) (fst (start_polling L lib inputs (s', t')))"
        using F(2) Inr st by (intro Cons.IH) auto
      then show ?thesis using F(1) it Inr st
        by (cases "start_polling L lib inputs (s', t')") (simp add: idle_unseen_append)
    qed
  qed simp
  then show ?thesis by (simp add: initial_poller_def)
qed

text \<open>
  C21: Over any run, no tick names as idle a chain that a page handed to the processor since the scan
  began has shown, its own page included: the nonces of a chain with pending work are never
  forgotten in the middle of its scan, even when the chain is missing from some pages.
\<close>

theorem idle_chains_unseen:
  "idle_unseen {} (fst (start_polling L lib inputs (initial_poller, t)))"
  by (rule polling_idle_unseen)

text \<open>
  C23: A scan that left work behind stays marked. While it goes on, later pages neither clear the mark
  nor reset the failure count; when it ends, however it ends, the next lookup comes after the
  delay for the failures so far, a notification deferred meanwhile notwithstanding.
\<close>

theorem left_work_is_retried_after_delay:
  assumes "poll_iteration L lib i (s, t) = (actions, Inr (s', t'))" and "retry_required s"
  shows "if cursor s' \<noteq> None then retry_required s' \<and> failure_count s' = failure_count s
       else RetryDelay (jittered_exponential_delay (in_jitter i) (failure_count s)) \<in> set actions
         \<and> fetch_now s' \<and> failure_count s' = saturating_add (failure_count s) 1"
  using poll_iteration_facts(3) [OF assms(1), of "current_scan_chains s"] assms(2)
  by (simp add: keeps_retry_def)

lemma empty_page:
  "get_pending_transactions sample_text_lib sample_lib
     (ok_response (Some \<lparr>pp_data = [], pp_next_cursor = None\<rparr>)) = Inl NO_TRANSACTIONS_MSG"
  by code_simp

lemma left_work_is_retried_after_delay_witness:
  "RetryDelay (jittered_exponential_delay 100 0)
     \<in> set (fst (poll_iteration sample_text_lib sample_lib (page_input [] None [] Completed)
                (initial_poller\<lparr>retry_required := True\<rparr>, new_trigger)))"
proof -
  let ?run = "poll_iteration sample_text_lib sample_lib (page_input [] None [] Completed)
    (initial_poller\<lparr>retry_required := True\<rparr>, new_trigger)"
  have "case snd ?run of Inl e \<Rightarrow> False | Inr (s', t') \<Rightarrow> cursor s' = None"
    by (simp add: empty_page poll_iteration_def handler_defs Let_def page_input_def initial_poller_def
        should_continue_empty_drain_def)
  then obtain actions s' t' where it: "?run = (actions, Inr (s', t'))" "cursor s' = None"
    by (cases ?run) (auto split: sum.splits)
  then show ?thesis
    using left_work_is_retried_after_delay [OF it(1)]
    by (simp add: page_input_def initial_poller_def)
qed

text \<open>
  No notification is lost. After any run the trigger holds exactly whether something was notified
  since the last fresh lookup began, and if the loop is about to wait while something is, the wait
  ends by itself at a definite time.
\<close>

lemma notifications_not_lost:
  assumes "poll_run (poll_next L lib) before (initial_poller, new_trigger) = Some (s, t)"
    and "poll_iteration L lib i (s, t) = (actions, Inr (s', t'))"
  shows "(outstanding t' \<longleftrightarrow>
            in_during i \<noteq> [] \<or> cursor s \<noteq> None \<and> (in_before i \<noteq> [] \<or> outstanding t))
       \<and> (outstanding t' \<and> \<not> fetch_now s' \<longrightarrow> cursor s' = None \<and> (\<exists>now. trigger_ready now t'))"
proof -
  have inv: "poller_inv (s, t)"
    using tx_poller.invar_run [OF poller_inv_initial [OF trigger_inv_new] assms(1)] .
  have "poller_inv (s', t')"
  proof (rule tx_poller.invar_poll [OF inv])
    show "poll_next L lib i (s, t) = Some (s', t')" using assms(2) by (auto simp: poll_next_Some)
  qed
  then have "\<not> fetch_now s' \<Longrightarrow> cursor s' = None" "trigger_inv t'"
    by (auto simp: poller_inv_def split: if_splits)
  moreover have "trigger_inv t" using inv by (simp add: poller_inv_def)
  ultimately show ?thesis
    using poll_iteration_facts(4) [OF assms(2), of "current_scan_chains s"] outstanding_ready
    by blast
qed

lemma notifications_not_lost_witness:
  "case snd (poll_iteration sample_text_lib sample_lib (page_input [] None [ForceLookup] Completed)
      (initial_poller, new_trigger)) of
     Inl e \<Rightarrow> False | Inr (s', t') \<Rightarrow> outstanding t'"
proof -
  let ?run = "poll_iteration sample_text_lib sample_lib (page_input [] None [ForceLookup] Completed)
    (initial_poller, new_trigger)"
  have "case snd ?run of Inl e \<Rightarrow> False | Inr (s', t') \<Rightarrow> True"
    by (simp add: empty_page poll_iteration_def handler_defs Let_def page_input_def initial_poller_def
        should_continue_empty_drain_def)
  then obtain actions s' t' where it: "?run = (actions, Inr (s', t'))"
    by (cases ?run) (auto split: sum.splits)
  have "poll_run (poll_next sample_text_lib sample_lib) [] (initial_poller, new_trigger)
      = Some (initial_poller, new_trigger)" by simp
  from notifications_not_lost [OF this it]
  have "outstanding t' \<longleftrightarrow> in_during (page_input [] None [ForceLookup] Completed) \<noteq> []
      \<or> cursor initial_poller \<noteq> None
        \<and> (in_before (page_input [] None [ForceLookup] Completed) \<noteq> [] \<or> outstanding new_trigger)"
    by (rule conjunct1)
  then have "outstanding t'" by (simp add: page_input_def)
  then show ?thesis using it by (simp only: it snd_conv sum.case prod.case)
qed

subsection \<open>A scan\<close>

text \<open>The requests that a list of actions hands to the processor, and one iteration in those terms.\<close>

fun handed_requests :: "poll_action list \<Rightarrow> transaction_request list" where
  "handed_requests [] = []"
| "handed_requests (SendTick requests idle # actions) = requests @ handed_requests actions"
| "handed_requests (a # actions) = handed_requests actions"

lemma handed_requests_append [simp]:
  "handed_requests (xs @ ys) = handed_requests xs @ handed_requests ys"
  by (induction xs rule: handed_requests.induct) auto

definition tx_scan_step ::
    "text_lib \<Rightarrow> ('meta, 'cab, 'tx, 'kp) chain_lib \<Rightarrow> poll_input \<Rightarrow> poller_state \<times> trigger_state
     \<Rightarrow> (transaction_request list \<times> poller_state \<times> trigger_state) option" where
  "tx_scan_step L lib i st =
     (case poll_iteration L lib i st of
        (actions, Inl e) \<Rightarrow> None
      | (actions, Inr st') \<Rightarrow> Some (handed_requests actions, st'))"

lemma scan_run_tx:
  "scan_run (tx_scan_step L lib) inputs st =
     (case start_polling L lib inputs st of
        (actions, Inl e) \<Rightarrow> None
      | (actions, Inr st') \<Rightarrow> Some (handed_requests actions, st'))"
  by (induction inputs arbitrary: st) (auto simp: tx_scan_step_def Let_def split: prod.splits sum.splits)

definition tx_serves ::
    "text_lib \<Rightarrow> ('meta, 'cab, 'tx, 'kp) chain_lib \<Rightarrow> poll_input
     \<Rightarrow> transaction_request list \<times> string option \<Rightarrow> bool" where
  "tx_serves L lib i page \<longleftrightarrow>
     get_pending_transactions L lib (in_page i) = Inr page
     \<and> in_ack i \<in> {Inr Completed, Inr PartialProgress, Inr Skipped}"

definition tx_barren :: "poll_input \<Rightarrow> transaction_request list \<Rightarrow> bool" where
  "tx_barren i requests \<longleftrightarrow> requests = [] \<or> in_ack i = Inr Skipped"

lemma handed_requests_pause: "set pause \<subseteq> range RetryDelay \<Longrightarrow> handed_requests pause = []"
  by (induction pause rule: handed_requests.induct) auto

lemma empty_page_scan:
  assumes "handle_response i fresh (Inr ([], next_cursor)) s t = (actions, r)"
    and "\<And>e. in_ack i \<noteq> Inl e"
    and "next_cursor \<noteq> None \<longrightarrow> should_continue_empty_drain (cursor s) next_cursor (unproductive_pages s)"
  shows "\<exists>s' t'. r = Inr (s', t') \<and> handed_requests actions = [] \<and> cursor s' = next_cursor
     \<and> unat (unproductive_pages s') \<le> unat (unproductive_pages s) + 1"
proof (cases "next_cursor = None")
  case True
  obtain outcome where "in_ack i = Inr outcome" using assms(2) by (cases "in_ack i") auto
  with True assms(1) show ?thesis
    by (auto simp: handle_response_def end_empty_scan_def complete_chain_scan_def finish_scan_retry_def
        retry_delay_def should_continue_empty_drain_def Let_def split: prod.splits if_splits)
next
  case False
  then have go: "should_continue_empty_drain (cursor s) next_cursor (unproductive_pages s)"
    using assms(3) by simp
  then show ?thesis
    using assms(1) drain_step(1) [OF go] by (auto simp: handle_response_def require_retry_def)
qed

lemma full_page_scan:
  assumes "process_page i requests next_cursor s t = (actions, r)"
    and "in_ack i = Inr outcome" and "outcome \<noteq> SubmissionFailed"
    and "outcome = Skipped \<and> next_cursor \<noteq> None
       \<longrightarrow> should_continue_empty_drain (cursor s) next_cursor (unproductive_pages s)"
  shows "\<exists>s' t'. r = Inr (s', t') \<and> handed_requests actions = requests \<and> cursor s' = next_cursor
     \<and> unat (unproductive_pages s')
          \<le> unat (unproductive_pages s) + (if outcome = Skipped then 1 else 0)"
proof -
  obtain s2 c d t1 idle pause s' where
    step: "apply_batch_step (in_jitter i) d
       (batch_step outcome (cursor s) next_cursor (unproductive_pages s)) s2 = (pause, s')"
    and r: "r = Inr (s', t1)" "actions = SendTick requests idle # pause"
    and s2: "unproductive_pages s2 = unproductive_pages s"
    using assms(1,2)
    by (auto simp: process_page_def complete_chain_scan_def Let_def split: prod.splits if_splits)
  have "handed_requests pause = [] \<and> cursor s' = next_cursor
      \<and> unat (unproductive_pages s')
          \<le> unat (unproductive_pages s) + (if outcome = Skipped then 1 else 0)"
  proof (cases "outcome = Skipped \<and> next_cursor \<noteq> None")
    case True
    then have go: "should_continue_empty_drain (cursor s) next_cursor (unproductive_pages s)"
      using assms(4) by simp
    then show ?thesis
      using step s2 True drain_step(1) [OF go]
      by (auto simp: batch_step_def apply_batch_step_def require_retry_def Let_def)
  next
    case False
    then show ?thesis
      using step s2 assms(3)
      by (cases outcome)
        (auto simp: batch_step_def apply_batch_step_def finish_scan_retry_def retry_delay_def
          require_retry_def reset_failure_count_after_progress_def should_continue_empty_drain_def
          Let_def split: if_splits)
  qed
  then show ?thesis using r by simp
qed

interpretation tx_scan: page_scanner "tx_scan_step L lib" "\<lambda>st. cursor (fst st)"
  "\<lambda>st. unat (unproductive_pages (fst st))" "tx_serves L lib" tx_barren
  for L lib
proof unfold_locales
  fix i requests next_cursor and st :: "poller_state \<times> trigger_state"
  obtain s t where st: "st = (s, t)" by (cases st)
  assume serves: "tx_serves L lib i (requests, next_cursor)"
    and fresh: "next_cursor \<noteq> Some []" "next_cursor \<noteq> None \<longrightarrow> next_cursor \<noteq> cursor (fst st)"
    and room: "unat (unproductive_pages (fst st)) + (if tx_barren i requests then 1 else 0) \<le> 20"
  obtain outcome where ack: "in_ack i = Inr outcome" "outcome \<noteq> SubmissionFailed"
    using serves by (auto simp: tx_serves_def)
  obtain actions r where it: "poll_iteration L lib i (s, t) = (actions, r)"
    by (metis surj_pair)
  then obtain rest s1 t1 where
    actions: "actions = (if fetch_now s then [] else [AwaitWork]) @ FetchPage (cursor s) # rest"
    and at: "at_response i (s, t) = (s1, t1)"
    and resp: "handle_response i (cursor s1 = None) (get_pending_transactions L lib (in_page i)) s1 t1
      = (rest, r)"
    by (rule poll_iterationE)
  note S = at_response_simps [OF at]
  have page: "get_pending_transactions L lib (in_page i) = Inr (requests, next_cursor)"
    using serves by (simp add: tx_serves_def)
  have go: "should_continue_empty_drain (cursor s1) next_cursor (unproductive_pages s1)"
    if "tx_barren i requests" "next_cursor \<noteq> None"
    using fresh room st S that by (intro drain_continuesI) auto
  have "\<exists>s' t'. r = Inr (s', t') \<and> handed_requests rest = requests \<and> cursor s' = next_cursor
      \<and> unat (unproductive_pages s')
          \<le> unat (unproductive_pages s1) + (if tx_barren i requests then 1 else 0)"
  proof (cases "requests = []")
    case True
    then have "\<exists>s' t'. r = Inr (s', t') \<and> handed_requests rest = [] \<and> cursor s' = next_cursor
      \<and> unat (unproductive_pages s') \<le> unat (unproductive_pages s1) + 1"
      using resp page ack go by (intro empty_page_scan) (auto simp: tx_barren_def)
    with True show ?thesis by (simp add: tx_barren_def)
  next
    case False
    then have "process_page i requests next_cursor s1 t1 = (rest, r)"
      using resp page by (simp add: handle_response_def)
    then have "\<exists>s' t'. r = Inr (s', t') \<and> handed_requests rest = requests \<and> cursor s' = next_cursor
      \<and> unat (unproductive_pages s')
          \<le> unat (unproductive_pages s1) + (if outcome = Skipped then 1 else 0)"
      using ack go by (intro full_page_scan) (auto simp: tx_barren_def)
    with False show ?thesis using ack by (simp add: tx_barren_def)
  qed
  then show "\<exists>st'. tx_scan_step L lib i st = Some (requests, st') \<and> cursor (fst st') = next_cursor
      \<and> unat (unproductive_pages (fst st'))
          \<le> unat (unproductive_pages (fst st)) + (if tx_barren i requests then 1 else 0)"
    using it S by (auto simp: tx_scan_step_def st actions)
qed

text \<open>
  A scan hands over everything. When the loop starts a scan and the platform answers with a chain
  of pages none of which it refuses, every row that can be converted reaches the processor, once and
  in the order of the pages: pages whose rows cannot be converted or cannot be signed (20 at most)
  do not hide later pages.
\<close>

lemma transaction_scan_complete:
  assumes "poll_run (poll_next L lib) before (initial_poller, new_trigger) = Some (s, t)"
    and "cursor s = None"
    and "list_all2 (tx_serves L lib) inputs pages" and "page_chain None pages"
    and "barren_count tx_barren inputs pages \<le> 20"
  shows "\<exists>actions s' t'. start_polling L lib inputs (s, t) = (actions, Inr (s', t'))
           \<and> handed_requests actions = concat (map fst pages) \<and> cursor s' = None"
proof -
  have "poller_inv (s, t)"
    using tx_poller.invar_run [OF poller_inv_initial [OF trigger_inv_new] assms(1)] .
  then have "unat (unproductive_pages s) = 0" using assms(2) by (simp add: poller_inv_def)
  then have "\<exists>st'. scan_run (tx_scan_step L lib) inputs (s, t) = Some (concat (map fst pages), st')
      \<and> cursor (fst st') = None"
    using assms(2-5) by (intro tx_scan.scan_hands_over_every_page) auto
  then show ?thesis
    by (auto simp: scan_run_tx split: prod.splits sum.splits)
qed

lemma transaction_scan_complete_witness:
  "\<exists>actions s' t'. start_polling sample_text_lib sample_lib
       [page_input [good_row] (Some ''p'') [] Skipped, page_input [poison_row] (Some ''q'') [] Completed,
        page_input [poison_row, good_row] None [] Completed] (initial_poller, new_trigger)
       = (actions, Inr (s', t')) \<and> map request_id (handed_requests actions) = [''p'', ''p'']"
proof -
  let ?inputs = "[page_input [good_row] (Some ''p'') [] Skipped,
    page_input [poison_row] (Some ''q'') [] Completed, page_input [poison_row, good_row] None [] Completed]"
  let ?request = "the (case transaction_request_try_from sample_lib good_row of Inr r \<Rightarrow> Some r | Inl e \<Rightarrow> None)"
  define pages where "pages = [([?request], Some ''p''), ([], Some ''q''), ([?request], None)]"
  have "list_all2 (tx_serves sample_text_lib sample_lib) ?inputs pages"
    "barren_count tx_barren ?inputs pages \<le> 20" "request_id ?request = ''p''"
    unfolding pages_def by code_simp+
  moreover have "page_chain None pages" "concat (map fst pages) = [?request, ?request]"
    by (simp_all add: pages_def)
  moreover have "poll_run (poll_next sample_text_lib sample_lib) [] (initial_poller, new_trigger)
      = Some (initial_poller, new_trigger)" "cursor initial_poller = None"
    by (simp_all add: initial_poller_def)
  ultimately have "\<exists>actions s' t'. start_polling sample_text_lib sample_lib ?inputs
      (initial_poller, new_trigger) = (actions, Inr (s', t'))
      \<and> handed_requests actions = [?request, ?request]"
    using transaction_scan_complete [of sample_text_lib sample_lib "[]" initial_poller new_trigger
      ?inputs pages] by metis
  then show ?thesis using \<open>request_id ?request = ''p''\<close> by fastforce
qed

end
