(* ===== verification/Tx_Batches.thy ===== *)
theory Tx_Batches
  imports Tx_Processor
begin

text \<open>
  What the transaction processor promises: which requests of a batch are signed, the nonce cache it
  leaves, the requests it makes, its outcome, that it returns, and that no nonce of a key is used
  twice over a run of batches. The model is in \<open>Tx_Processor\<close>.
\<close>

lemma nonces_from_nth:
  assumes "nonces_from nonces k c ns"
  shows "i < length ns \<Longrightarrow> nonce_at nonces k i (ns ! i)"
  using assms by (simp add: nonces_from_def)

lemma nonces_from_set:
  assumes "nonces_from nonces k c ns"
  shows "n \<in> set ns \<Longrightarrow> \<exists>i < length ns. nonce_at nonces k i n"
  using nonces_from_nth [OF assms] by (auto simp: in_set_conv_nth)

lemma nonces_from_last:
  assumes "nonces_from nonces k c ns" and "ns \<noteq> []"
  shows "nonce_at nonces k (length ns - 1) (last ns)"
  using nonces_from_nth [OF assms(1), of "length ns - 1"] assms(2) by (simp add: last_conv_nth)

text \<open>
  C11: For every request in turn, with \<open>c\<close> the number of requests before it that were signed for the
  same network, chain and key: it is signed exactly when its chain was prefetched, the platform
  told the nonce of its key, and building both extrinsics with the nonce \<open>max cached platform + c\<close>
  succeeds. The inputs submitted are these, in order: no request is dropped that could be signed,
  and a poison row takes neither a nonce nor its neighbours down with it.
\<close>

theorem batch_signs_exactly:
  assumes "transaction_handler L lib env keypair requests p = Return (p', report)"
  shows "\<exists>pf rs. prefetch_chains L lib env (pr_store p) requests = Return pf
      \<and> length rs = length requests \<and> br_inputs report = keep_some rs
      \<and> (\<forall>i < length requests. \<forall>input.
           let srs = map (with_signer lib keypair) requests;
               key = request_key lib (srs ! i)
           in rs ! i = Some input \<longleftrightarrow>
                (\<exists>n. nonce_at (next_nonce L env (pr_nonces p)) key
                       (signed_count lib key (take i srs) (take i rs)) n
                   \<and> can_sign lib keypair pf (srs ! i) n input))"
proof -
  from assms obtain pf rs where *:
    "prefetch_chains L lib env (pr_store p) requests = Return pf"
    "length rs = length requests" "br_inputs report = keep_some rs"
    "\<forall>i input. i < length requests \<longrightarrow>
       (rs ! i = Some input \<longleftrightarrow>
         (\<exists>n. nonce_at (next_nonce L env (pr_nonces p))
                (request_key lib (with_signer lib keypair (requests ! i)))
                (signed_count lib (request_key lib (with_signer lib keypair (requests ! i)))
                   (take i (map (with_signer lib keypair) requests)) (take i rs)) n
            \<and> can_sign lib keypair pf (with_signer lib keypair (requests ! i)) n input))"
    by (rule handled_batch)
  then show ?thesis by (intro exI [of _ pf] exI [of _ rs]) (simp add: Let_def)
qed

lemma batch_signs_exactly_witness:
  "\<exists>p' report pf rs. sample_run (ok_response True) = Return (p', report)
     \<and> prefetch_chains sample_text_lib sample_lib (sample_env (ok_response True)) Map.empty sample_batch
       = Return pf
     \<and> length rs = 4 \<and> br_inputs report = keep_some rs"
proof -
  obtain p' report where run: "sample_run (ok_response True) = Return (p', report)"
    by (rule sample_run_accepted)
  have four: "length sample_batch = 4" "pr_store fresh_processor = Map.empty"
    by (simp_all add: sample_batch_def fresh_processor_def)
  from batch_signs_exactly [OF run [unfolded sample_run_def], unfolded four] run show ?thesis
    by metis
qed

text \<open>
  C10: The nonce cache after a batch, for any key: if the submission failed and something was signed
  for the key, the entry is gone, so that the next batch reads the platform's nonce again; if
  something was signed and the platform took the batch, the entry is the nonce after the last one
  signed; an entry for which nothing was signed is unchanged or raised to the platform's nonce.
\<close>

theorem nonce_cache_after_batch:
  assumes "transaction_handler L lib env keypair requests p = Return (p', report)"
  shows "if nonces_of k (br_signed report) = []
       then pr_nonces p' k = pr_nonces p k
         \<or> (\<exists>c. next_nonce L env (pr_nonces p) k = Some c \<and> pr_nonces p' k = Some c)
       else if br_outcome report = SubmissionFailed then pr_nonces p' k = None
       else \<exists>c. pr_nonces p' k = Some c
              \<and> unat c = unat (last (nonces_of k (br_signed report))) + 1"
  using assms
proof (rule handled_key [of _ _ _ _ _ _ _ _ k])
  fix c
  assume "nonces_from (next_nonce L env (pr_nonces p)) k c (nonces_of k (br_signed report))"
  from nonces_from_last [OF this]
  show ?thesis if "if br_outcome report = SubmissionFailed \<and> nonces_of k (br_signed report) \<noteq> []
     then pr_nonces p' k = None
     else if nonces_of k (br_signed report) \<noteq> []
     then \<exists>n. pr_nonces p' k = Some n
            \<and> nonce_at (next_nonce L env (pr_nonces p)) k (length (nonces_of k (br_signed report))) n
     else pr_nonces p' k = pr_nonces p k
       \<or> next_nonce L env (pr_nonces p) k \<noteq> None
         \<and> pr_nonces p' k = next_nonce L env (pr_nonces p) k"
    using that by (auto simp: nonce_at_def split: if_splits)
qed

lemma nonce_cache_after_batch_witness:
  "\<exists>p' report. sample_run (SendFailed ''timeout'') = Return (p', report)
     \<and> nonces_of (Canary, Matrix, [9]) (br_signed report) = [7, 8]
     \<and> pr_nonces p' (Canary, Matrix, [9]) = None"
proof -
  have "case sample_run (SendFailed ''timeout'') of Panic \<Rightarrow> False | Return (p', report) \<Rightarrow>
      nonces_of (Canary, Matrix, [9]) (br_signed report) = [7, 8]
      \<and> br_outcome report = SubmissionFailed"
    by code_simp
  then obtain p' report where run: "sample_run (SendFailed ''timeout'') = Return (p', report)"
    and r: "nonces_of (Canary, Matrix, [9]) (br_signed report) = [7, 8]"
      "br_outcome report = SubmissionFailed"
    by (auto split: exec.splits)
  from nonce_cache_after_batch [OF run [unfolded sample_run_def], of "(Canary, Matrix, [9])"] r run
  show ?thesis by (intro exI [of _ p'] exI [of _ report]) simp
qed

text \<open>One tick keeps the order: its nonces are at least the cached one, increase, and stay below the
  entry it leaves.\<close>

lemma nonces_from_sorted:
  assumes "nonces_from nonces k c ns"
  shows "sorted_wrt (<) ns"
proof -
  have "sorted_wrt (<) (map unat ns)"
    unfolding nonces_from_upt [OF assms] by (auto split: option.splits)
  then show ?thesis
    by (auto simp: sorted_wrt_map word_less_nat_alt elim: sorted_wrt_mono_rel [rotated])
qed

lemma nonce_order:
  assumes logged: "nonces_from next k c ns"
    and base: "\<And>c b. \<lbrakk>cached = Some c; next k = Some b\<rbrakk> \<Longrightarrow> c \<le> b"
    and slot: "if ns \<noteq> [] then \<exists>n. slot = Some n \<and> nonce_at next k (length ns) n
      else slot = cached \<or> next k \<noteq> None \<and> slot = next k"
  shows "sorted_wrt (<) ns" and "\<forall>n \<in> set ns. \<exists>c1. slot = Some c1 \<and> n < c1"
    and "\<forall>c. cached = Some c \<longrightarrow> (\<exists>c1. slot = Some c1 \<and> c \<le> c1) \<and> (\<forall>n \<in> set ns. c \<le> n)"
proof -
  show "sorted_wrt (<) ns" using logged by (rule nonces_from_sorted)
  have at: "\<exists>i < length ns. nonce_at next k i n" if "n \<in> set ns" for n
    using nonces_from_set [OF logged] that by blast
  show "\<forall>n \<in> set ns. \<exists>c1. slot = Some c1 \<and> n < c1"
  proof
    fix n assume "n \<in> set ns"
    then show "\<exists>c1. slot = Some c1 \<and> n < c1"
      using at [of n] slot by (auto simp: nonce_at_def word_less_nat_alt split: if_splits)
  qed
  show "\<forall>c. cached = Some c \<longrightarrow> (\<exists>c1. slot = Some c1 \<and> c \<le> c1) \<and> (\<forall>n \<in> set ns. c \<le> n)"
  proof (intro allI impI conjI ballI)
    fix c assume c: "cached = Some c"
    show "\<exists>c1. slot = Some c1 \<and> c \<le> c1"
      using slot base [OF c] c by (cases "ns = []") (auto simp: nonce_at_def word_le_nat_alt)
    fix n assume "n \<in> set ns"
    then show "c \<le> n" using at [of n] base [OF c] by (auto simp: nonce_at_def word_le_nat_alt)
  qed
qed

lemma process_tick_order:
  assumes step: "process_tick L lib env keypair batch idle p = Return (p1, report)"
    and idle: "chain_key_of k \<notin> idle"
    and kept: "br_outcome report = SubmissionFailed \<longrightarrow> nonces_of k (br_signed report) = []"
  shows "sorted_wrt (<) (nonces_of k (br_signed report))"
    and "\<forall>n \<in> set (nonces_of k (br_signed report)). \<exists>c1. pr_nonces p1 k = Some c1 \<and> n < c1"
    and "\<forall>c. pr_nonces p k = Some c \<longrightarrow> (\<exists>c1. pr_nonces p1 k = Some c1 \<and> c \<le> c1)
           \<and> (\<forall>n \<in> set (nonces_of k (br_signed report)). c \<le> n)"
proof -
  define q where "q = (if idle \<noteq> {} then p\<lparr>pr_nonces := evict_idle_chains (pr_nonces p) idle\<rparr> else p)"
  have q: "pr_nonces q k = pr_nonces p k"
    using idle by (simp add: q_def evict_idle_lookup)
  define start where "start = next_nonce L env (pr_nonces q)"
  have base: "c \<le> b" if "pr_nonces p k = Some c" "start k = Some b" for c b
    using that q by (auto simp: start_def next_nonce_def split: sum.splits)
  have "(\<exists>c. nonces_from start k c (nonces_of k (br_signed report)))
      \<and> (if nonces_of k (br_signed report) \<noteq> []
         then \<exists>n. pr_nonces p1 k = Some n \<and> nonce_at start k (length (nonces_of k (br_signed report))) n
         else pr_nonces p1 k = pr_nonces p k \<or> start k \<noteq> None \<and> pr_nonces p1 k = start k)"
  proof (cases "batch = []")
    case True
    then show ?thesis
      using step q by (auto simp: process_tick_def simp flip: q_def intro: nonces_from_simps(1))
  next
    case False
    then have "transaction_handler L lib env keypair batch q = Return (p1, report)"
      using step by (simp add: process_tick_def flip: q_def)
    then show ?thesis
      by (rule handled_key [of _ _ _ _ _ _ _ _ k]) (use kept q in \<open>auto simp: start_def split: if_splits\<close>)
  qed
  then obtain c where ordered: "nonces_from start k c (nonces_of k (br_signed report))"
    "if nonces_of k (br_signed report) \<noteq> []
     then \<exists>n. pr_nonces p1 k = Some n \<and> nonce_at start k (length (nonces_of k (br_signed report))) n
     else pr_nonces p1 k = pr_nonces p k \<or> start k \<noteq> None \<and> pr_nonces p1 k = start k"
    by blast
  note ordered = nonce_order [OF ordered(1) base ordered(2)]
  from ordered show "sorted_wrt (<) (nonces_of k (br_signed report))"
    "\<forall>n \<in> set (nonces_of k (br_signed report)). \<exists>c1. pr_nonces p1 k = Some c1 \<and> n < c1"
    "\<forall>c. pr_nonces p k = Some c \<longrightarrow> (\<exists>c1. pr_nonces p1 k = Some c1 \<and> c \<le> c1)
       \<and> (\<forall>n \<in> set (nonces_of k (br_signed report)). c \<le> n)"
    by blast+
qed

text \<open>
  Over a run of ticks in which the chain of a key is never idle and no batch that signed for the
  key is rejected, the nonces signed for it are strictly increasing: none is ever used twice, however
  the transactions are cut into batches and whatever nonces the platform tells.
\<close>

lemma no_nonce_used_twice:
  assumes "run_processor L lib keypair ticks p = Return (p', reports)"
    and "\<forall>(env, batch, idle) \<in> set ticks. chain_key_of k \<notin> idle"
    and "\<forall>report \<in> set reports.
           br_outcome report = SubmissionFailed \<longrightarrow> nonces_of k (br_signed report) = []"
  shows "sorted_wrt (<) (concat (map (\<lambda>report. nonces_of k (br_signed report)) reports))"
proof -
  have "sorted_wrt (<) (concat (map (\<lambda>report. nonces_of k (br_signed report)) reports))
      \<and> (\<forall>n \<in> set (concat (map (\<lambda>report. nonces_of k (br_signed report)) reports)).
           \<forall>c. pr_nonces p k = Some c \<longrightarrow> c \<le> n)"
    using assms
  proof (induction ticks arbitrary: p reports)
    case Nil
    then show ?case by simp
  next
    case (Cons tick ticks)
    obtain env batch idle where tick: "tick = (env, batch, idle)" by (cases tick)
    from Cons.prems(1) obtain p1 report rest where
      step: "process_tick L lib env keypair batch idle p = Return (p1, report)"
      and rest: "run_processor L lib keypair ticks p1 = Return (p', rest)"
      and reports: "reports = report # rest"
      by (auto simp: tick split: exec.splits prod.splits)
    have IH: "sorted_wrt (<) (concat (map (\<lambda>report. nonces_of k (br_signed report)) rest))
      \<and> (\<forall>n \<in> set (concat (map (\<lambda>report. nonces_of k (br_signed report)) rest)).
           \<forall>c. pr_nonces p1 k = Some c \<longrightarrow> c \<le> n)"
      using Cons.IH [OF rest] Cons.prems(2,3) by (auto simp: reports)
    have idle: "chain_key_of k \<notin> idle"
      and kept: "br_outcome report = SubmissionFailed \<longrightarrow> nonces_of k (br_signed report) = []"
      using Cons.prems(2,3) by (auto simp: tick reports)
    note tick1 = process_tick_order [OF step idle kept]
    show ?case
      using IH tick1 by (fastforce simp: reports sorted_wrt_append)
  qed
  then show ?thesis by blast
qed

definition sample_ticks :: "(batch_env \<times> transaction_request list \<times> chain_key set) list" where
  "sample_ticks = [(sample_env (ok_response True), sample_batch, {}),
                   (sample_env (ok_response True), sample_batch, {(Enjin, Matrix)})]"

lemma no_nonce_used_twice_witness:
  "\<exists>p' reports. run_processor sample_text_lib sample_lib 3 sample_ticks fresh_processor
       = Return (p', reports)
     \<and> concat (map (\<lambda>report. nonces_of (Canary, Matrix, [9]) (br_signed report)) reports) = [7, 8, 9, 10]
     \<and> sorted_wrt (<) (concat (map (\<lambda>report. nonces_of (Canary, Matrix, [9]) (br_signed report)) reports))"
proof -
  have "case run_processor sample_text_lib sample_lib 3 sample_ticks fresh_processor of
      Panic \<Rightarrow> False
    | Return (p', reports) \<Rightarrow>
        concat (map (\<lambda>report. nonces_of (Canary, Matrix, [9]) (br_signed report)) reports) = [7, 8, 9, 10]
        \<and> list_all (\<lambda>report. br_outcome report = PartialProgress) reports"
    by code_simp
  then obtain p' reports where
    run: "run_processor sample_text_lib sample_lib 3 sample_ticks fresh_processor = Return (p', reports)"
    and r: "concat (map (\<lambda>report. nonces_of (Canary, Matrix, [9]) (br_signed report)) reports) = [7, 8, 9, 10]"
      "list_all (\<lambda>report. br_outcome report = PartialProgress) reports"
    by (auto split: exec.splits)
  have "sorted_wrt (<) (concat (map (\<lambda>report. nonces_of (Canary, Matrix, [9]) (br_signed report)) reports))"
    by (rule no_nonce_used_twice [OF run]) (use r(2) in \<open>auto simp: sample_ticks_def list_all_iff\<close>)
  with run r(1) show ?thesis by blast
qed

text \<open>
  C26: The requests a batch makes to the platform. First, for each of its chains, the block exactly
  once, and the chain data exactly once if the block came and the stored metadata is missing or of
  an older spec version than the block's, and not at all otherwise. Then the nonce exactly once for
  each pair of a chain of the batch that is ready and a signer of one of its requests there, and
  for no signer on a chain that is not ready. A chain is ready when its block came and the chain data,
  if asked for, could be stored. Last, one submission of everything signed, and none at all if
  nothing was signed.
\<close>

theorem platform_calls_once:
  assumes "transaction_handler L lib env keypair requests p = Return (p', report)"
  shows "\<exists>chain_calls keys.
      br_calls report = chain_calls @ map GetNonce keys
        @ (if br_inputs report = [] then [] else [SubmitBatch (br_inputs report)])
      \<and> distinct chain_calls \<and> distinct keys
      \<and> set chain_calls = GetBlock ` request_chain ` set requests
          \<union> GetChainInfo ` {k \<in> request_chain ` set requests. asks_metadata L lib env (pr_store p) k}
      \<and> set keys = {k \<in> request_key lib ` with_signer lib keypair ` set requests.
                       chain_ready L lib env (pr_store p) (chain_key_of k)}"
proof -
  from assms obtain pf rf and st :: signing_state where
    pf: "prefetch_chains L lib env (pr_store p) requests = Return pf"
    and rf: "rf = refresh_nonces L lib env (failed_chains pf) (pr_nonces p)
      (map (with_signer lib keypair) requests)"
    and inputs: "br_inputs report = ss_inputs st"
    and calls: "br_calls report = pf_calls pf @ nr_calls rf
       @ (if ss_inputs st = [] then [] else [SubmitBatch (ss_inputs st)])"
    by (rule transaction_handlerE)
  have R: "refresh_inv L lib env (failed_chains pf) (pr_nonces p)
      (map (with_signer lib keypair) requests) rf"
    unfolding rf by (rule refresh_nonces_inv)
  from refresh_invD(5) [OF R] obtain keys where keys: "nr_calls rf = map GetNonce keys"
    "distinct keys" "set keys = refreshed_keys rf \<union> failed_keys rf" by blast
  have "chain_key_of k \<notin> failed_chains pf \<longleftrightarrow> chain_ready L lib env (pr_store p) (chain_key_of k)"
    if "k \<in> request_key lib ` with_signer lib keypair ` set requests" for k
    using failed_chains_not_ready [OF pf, of "chain_key_of k"] that by auto
  then have "set keys = {k \<in> request_key lib ` with_signer lib keypair ` set requests.
      chain_ready L lib env (pr_store p) (chain_key_of k)}"
    unfolding keys(3) refresh_invD(2) [OF R] set_map by blast
  then show ?thesis
    using calls inputs keys prefetch_invD(5) [OF prefetch_chains_inv [OF pf]]
      prefetch_chains_answers [OF pf, unfolded prefetch_answers_def]
    by (intro exI [of _ "pf_calls pf"] exI [of _ keys]) simp
qed

lemma platform_calls_once_witness:
  "\<exists>p' report chain_calls keys. sample_run (ok_response True) = Return (p', report)
     \<and> br_calls report = chain_calls @ map GetNonce keys
        @ (if br_inputs report = [] then [] else [SubmitBatch (br_inputs report)])
     \<and> length (br_calls report) = 5 \<and> distinct chain_calls \<and> distinct keys
     \<and> GetChainInfo (Canary, Matrix) \<in> set chain_calls
     \<and> set keys = {(Canary, Matrix, [9]), (Canary, Matrix, [3])}"
proof -
  obtain p' report where run: "sample_run (ok_response True) = Return (p', report)"
    and len: "length (br_calls report) = 5"
    by (rule sample_run_accepted)
  let ?env = "sample_env (ok_response True)"
  have block: "get_block_and_spec_version sample_text_lib sample_lib (env_block ?env (Canary, Matrix))
      = Return (Inr (1000, replicate 32 97, 1))"
    by code_simp
  have stored: "snd (update_metadata_and_substrate_client sample_text_lib sample_lib
      (env_chain_info ?env (Canary, Matrix)) Canary Matrix Map.empty) = Inr ()"
    by code_simp
  have asks: "asks_metadata sample_text_lib sample_lib ?env Map.empty (Canary, Matrix)"
    by (simp add: asks_metadata_def block metadata_spec_version_def)
  have ready: "chain_ready sample_text_lib sample_lib ?env Map.empty (Canary, Matrix)"
    by (simp add: chain_ready_def block stored)
  have chains: "request_chain ` set sample_batch = {(Canary, Matrix)}"
    by code_simp
  have keys: "request_key sample_lib ` with_signer sample_lib 3 ` set sample_batch
      = {(Canary, Matrix, [9]), (Canary, Matrix, [3])}"
    by code_simp
  have signers: "{k \<in> request_key sample_lib ` with_signer sample_lib 3 ` set sample_batch.
      chain_ready sample_text_lib sample_lib ?env Map.empty (chain_key_of k)}
      = {(Canary, Matrix, [9]), (Canary, Matrix, [3])}"
    unfolding keys using ready by auto
  have store: "pr_store fresh_processor = Map.empty"
    by (simp add: fresh_processor_def)
  from platform_calls_once [OF run [unfolded sample_run_def], unfolded chains store signers] asks run len
  show ?thesis by fastforce
qed

lemma subseq_uuids:
  assumes "length rs = length requests"
    and "\<And>i input. \<lbrakk>i < length requests; rs ! i = Some input\<rbrakk> \<Longrightarrow> uuid input = request_id (requests ! i)"
  shows "subseq (map uuid (keep_some rs)) (map request_id requests)"
  using assms
proof (induction rs requests rule: list_induct2)
  case (Cons r rs request requests)
  from Cons.prems [of "Suc i" for i] have "subseq (map uuid (keep_some rs)) (map request_id requests)"
    by (intro Cons.IH) auto
  moreover have "uuid input = request_id request" if "r = Some input" for input
    using Cons.prems [of 0 input] that by simp
  ultimately show ?case by (cases r) auto
qed simp

lemma batch_outcome_facts:
  assumes "transaction_handler L lib env keypair requests p = Return (p', report)"
  shows "(br_outcome report = Skipped \<longleftrightarrow> br_inputs report = [])
       \<and> (br_outcome report = SubmissionFailed \<longleftrightarrow>
            br_inputs report \<noteq> []
            \<and> sign_transactions L (env_submit env (br_inputs report)) (br_inputs report) \<noteq> Inr ())
       \<and> (br_outcome report = Completed \<longleftrightarrow>
            br_inputs report \<noteq> []
            \<and> sign_transactions L (env_submit env (br_inputs report)) (br_inputs report) = Inr ()
            \<and> map uuid (br_inputs report) = map request_id requests)
       \<and> subseq (map uuid (br_inputs report)) (map request_id requests)"
proof -
  from assms obtain st :: signing_state where out:
    "br_inputs report = ss_inputs st"
    "br_outcome report =
       (if ss_inputs st = [] then Skipped
        else if sign_transactions L (env_submit env (ss_inputs st)) (ss_inputs st) \<noteq> Inr ()
        then SubmissionFailed
        else if length (ss_inputs st) < length requests then PartialProgress else Completed)"
    by (rule transaction_handlerE)
  from assms obtain pf rs where rs: "length rs = length requests" "br_inputs report = keep_some rs"
    "\<forall>i input. i < length requests \<longrightarrow>
       (rs ! i = Some input \<longleftrightarrow>
         (\<exists>n. nonce_at (next_nonce L env (pr_nonces p))
                (request_key lib (with_signer lib keypair (requests ! i)))
                (signed_count lib (request_key lib (with_signer lib keypair (requests ! i)))
                   (take i (map (with_signer lib keypair) requests)) (take i rs)) n
            \<and> can_sign lib keypair pf (with_signer lib keypair (requests ! i)) n input))"
    by (rule handled_batch)
  have sub: "subseq (map uuid (br_inputs report)) (map request_id requests)"
    unfolding rs(2)
  proof (rule subseq_uuids [OF rs(1)])
    fix i input
    assume "i < length requests" "rs ! i = Some input"
    with rs(3) obtain n where "can_sign lib keypair pf (with_signer lib keypair (requests ! i)) n input"
      by blast
    from can_sign_uuid [OF this] show "uuid input = request_id (requests ! i)" by simp
  qed
  then have "length (br_inputs report) \<le> length requests"
    by (auto dest: list_emb_length)
  moreover have "map uuid (br_inputs report) = map request_id requests
      \<longleftrightarrow> length (br_inputs report) = length requests"
    using sub subseq_same_length [OF sub] by (auto dest: map_eq_imp_length_eq)
  ultimately show ?thesis using out sub by auto
qed

text \<open>
  C16: The outcome that the ack carries to the poller: \<open>Skipped\<close> when nothing was signed; otherwise
  \<open>SubmissionFailed\<close> when the platform did not answer the submission with a Boolean (no connection,
  a status other than 200, an unreadable body, GraphQL errors without data), \<open>Completed\<close> when it did
  and every request had an input, \<open>PartialProgress\<close> when it did and some request had none. The
  Boolean itself is not looked at: an answer \<open>false\<close> counts as taken like \<open>true\<close>. The uuids submitted
  are those of the requests, in their order and each at most as often.
\<close>

theorem batch_outcome_iff:
  assumes "transaction_handler L lib env keypair requests p = Return (p', report)"
  shows "let inputs = br_inputs report;
             answered = (\<exists>r b. env_submit env inputs = Responded 200 (Inr r) \<and> resp_data r = Some b);
             complete = (map uuid inputs = map request_id requests)
         in (br_outcome report = Skipped \<longleftrightarrow> inputs = [])
          \<and> (br_outcome report = SubmissionFailed \<longleftrightarrow> inputs \<noteq> [] \<and> \<not> answered)
          \<and> (br_outcome report = Completed \<longleftrightarrow> inputs \<noteq> [] \<and> answered \<and> complete)
          \<and> (br_outcome report = PartialProgress \<longleftrightarrow> inputs \<noteq> [] \<and> answered \<and> \<not> complete)
          \<and> subseq (map uuid inputs) (map request_id requests)"
proof -
  have answered: "sign_transactions L outcome inputs = Inr () \<longleftrightarrow>
      (\<exists>r b. outcome = Responded 200 (Inr r) \<and> resp_data r = Some b)" for outcome inputs
    using mutation_success by blast
  show ?thesis
    using batch_outcome_facts [OF assms, unfolded answered]
    by (cases "br_outcome report") (auto simp: Let_def)
qed

text \<open>The platform answers \<open>false\<close>, and the batch counts as submitted.\<close>

lemma batch_outcome_iff_witness:
  "\<exists>p' report. sample_run (ok_response False) = Return (p', report)
     \<and> br_outcome report = PartialProgress
     \<and> br_inputs report \<noteq> [] \<and> map uuid (br_inputs report) \<noteq> map request_id sample_batch"
proof -
  have "case sample_run (ok_response False) of Panic \<Rightarrow> False
      | Return (p', report) \<Rightarrow> br_outcome report = PartialProgress"
    by code_simp
  then obtain p' report where run: "sample_run (ok_response False) = Return (p', report)"
    and out: "br_outcome report = PartialProgress"
    by (auto split: exec.splits)
  from batch_outcome_iff [OF run [unfolded sample_run_def], unfolded Let_def] run out show ?thesis
    by blast
qed

lemma build_input_returns:
  assumes "unat block_number + 64 < 2 ^ 32"
  shows "build_input lib keypair cab block_number block_hash signer n request \<noteq> Panic"
proof -
  have "checked_plus block_number (ucast TX_MORTALITY) \<noteq> Panic"
    using assms by (simp add: checked_plus_Panic_iff TX_MORTALITY_def)
  then show ?thesis
    by (auto simp: build_input_def fuel_tank_payload_def Let_def
        split: option.splits exec.splits)
qed

lemma sign_request_returns:
  assumes "\<And>k b h v. block_infos pf k = Some (b, h, v) \<Longrightarrow> unat b + 64 < 2 ^ 32"
    and "\<And>k n. ss_nonces s k = Some n \<Longrightarrow> unat n + 1 < 2 ^ 64"
  shows "\<exists>s'. sign_request lib keypair pf failed sr s = Return s'
      \<and> (\<forall>k n. ss_nonces s' k = Some n \<longrightarrow> (\<exists>m. ss_nonces s k = Some m \<and> unat n \<le> unat m + 1))"
proof -
  obtain signer request where sr: "sr = (signer, request)" by (cases sr)
  let ?chain = "(req_network request, req_chain request)"
  let ?key = "(req_network request, req_chain request, public_key_of lib signer)"
  show ?thesis
  proof (cases "sign_request lib keypair pf failed sr s = Return s")
    case False
    then obtain b h v client cab n where 1: "?chain \<notin> failed_chains pf" "?key \<notin> failed"
      "block_infos pf ?chain = Some (b, h, v)"
      "substrate_client (req_network request) (req_chain request) (pf_store pf) = Some client"
      "at_block lib client (ucast b) = Inr cab" "ss_nonces s ?key = Some n"
      by (auto simp: sign_request_def sr Let_def split: if_splits option.splits sum.splits)
    have "build_input lib keypair cab b h signer n request \<noteq> Return None"
      using False 1 by (auto simp: sign_request_def sr Let_def)
    then obtain input where
      "build_input lib keypair cab b h signer n request = Return (Some input)"
      using build_input_returns [OF assms(1) [OF 1(3)]] by (metis exec.exhaust option.exhaust)
    moreover obtain n' where n': "checked_plus n 1 = Return n'" "unat n' = unat n + 1"
      using assms(2) [OF 1(6)] by (cases "checked_plus n 1")
        (auto simp: checked_plus_Panic_iff checked_plus_Return_iff)
    ultimately have "sign_request lib keypair pf failed sr s =
        Return (s\<lparr>ss_inputs := ss_inputs s @ [input],
          ss_signed := ss_signed s @ [(request_id request, ?key, n)],
          ss_nonces := (ss_nonces s)(?key \<mapsto> n'),
          committed_keys := insert ?key (committed_keys s)\<rparr>)"
      using 1 by (simp add: sign_request_def sr Let_def)
    then show ?thesis using 1(6) n'(2) by auto
  qed (auto intro: exI [of _ s])
qed

text \<open>The room the cached nonces leave is what the signing loop uses up.\<close>

definition room_for :: "nat \<Rightarrow> signing_state \<Rightarrow> bool" where
  "room_for left s \<longleftrightarrow> (\<forall>k n. ss_nonces s k = Some n \<longrightarrow> unat n + left < 2 ^ 64)"

lemma signing_loop_returns:
  assumes blocks: "\<And>k b h v. block_infos pf k = Some (b, h, v) \<Longrightarrow> unat b + 64 < 2 ^ 32"
  shows "room_for (length srs) s \<Longrightarrow> \<exists>st. fold_exec (sign_request lib keypair pf failed) srs s = Return st"
proof (induction srs arbitrary: s)
  case (Cons sr srs)
  have "unat n + 1 < 2 ^ 64" if "ss_nonces s k = Some n" for k n
  proof -
    have "unat n + length (sr # srs) < 2 ^ 64" using Cons.prems that unfolding room_for_def by blast
    then show ?thesis by simp
  qed
  with blocks obtain s' where s': "sign_request lib keypair pf failed sr s = Return s'"
    "\<forall>k n. ss_nonces s' k = Some n \<longrightarrow> (\<exists>m. ss_nonces s k = Some m \<and> unat n \<le> unat m + 1)"
    using sign_request_returns [of pf s lib keypair failed sr] by metis
  have "room_for (length srs) s'"
    unfolding room_for_def
  proof (intro allI impI)
    fix k n
    assume "ss_nonces s' k = Some n"
    then obtain m where "ss_nonces s k = Some m" "unat n \<le> unat m + 1" using s'(2) by blast
    moreover from this(1) have "unat m + length (sr # srs) < 2 ^ 64"
      using Cons.prems unfolding room_for_def by blast
    ultimately show "unat n + length srs < 2 ^ 64" by simp
  qed
  from Cons.IH [OF this] s'(1) show ?case by simp
qed simp

text \<open>Without a bad hash, and within the bounds, a batch is handled to its end.\<close>

lemma bounded_batch_returns:
  assumes hashes: "\<forall>r \<in> set requests. get_block_and_spec_version L lib (env_block env (request_chain r)) \<noteq> Panic"
    and blocks: "\<And>r info. \<lbrakk>r \<in> set requests;
      execute_query L (env_block env (request_chain r)) = Inr (Some info)\<rbrakk>
      \<Longrightarrow> unat (as_u32 (br_current_block_number info)) + 64 < 2 ^ 32"
    and cached: "\<And>k c. pr_nonces p k = Some c \<Longrightarrow> unat c + length requests < 2 ^ 64"
    and told: "\<And>r n. \<lbrakk>r \<in> set requests;
      execute_query L (env_nonce env (request_key lib (with_signer lib keypair r))) = Inr n\<rbrakk>
      \<Longrightarrow> unat (as_u64 n) + length requests < 2 ^ 64"
  shows "\<exists>p' report. transaction_handler L lib env keypair requests p = Return (p', report)"
proof -
  let ?srs = "map (with_signer lib keypair) requests"
  obtain pf where pf: "prefetch_chains L lib env (pr_store p) requests = Return pf"
    by (rule prefetch_chains_returns [of requests L lib env]) (use hashes in auto)
  define rf where "rf = refresh_nonces L lib env (failed_chains pf) (pr_nonces p) ?srs"
  define s0 where "s0 = \<lparr>ss_nonces = nr_nonces rf, ss_inputs = [], ss_signed = [], committed_keys = {}\<rparr>"
  have R: "refresh_inv L lib env (failed_chains pf) (pr_nonces p) ?srs rf"
    unfolding rf_def by (rule refresh_nonces_inv)
  have "unat n + length requests < 2 ^ 64" if slot: "nr_nonces rf k = Some n" for k n
  proof (cases "k \<in> refreshed_keys rf")
    case True
    then have "k \<in> request_key lib ` with_signer lib keypair ` set requests"
      using refresh_invD(2) [OF R] by auto
    then obtain r where "r \<in> set requests" "k = request_key lib (with_signer lib keypair r)" by blast
    moreover obtain m where "execute_query L (env_nonce env k) = Inr m"
      "n = as_u64 m \<or> pr_nonces p k = Some n"
      using True spec [OF refresh_invD(3) [OF R], of k] slot
      by (auto simp: slot_after_def get_account_nonce_def max_def split: sum.splits option.splits if_splits)
    ultimately show ?thesis using told cached by blast
  next
    case False
    then have "pr_nonces p k = Some n"
      using spec [OF refresh_invD(3) [OF R], of k] slot by (simp add: slot_after_def)
    then show ?thesis by (rule cached)
  qed
  then have "room_for (length ?srs) s0" by (simp add: room_for_def s0_def)
  moreover have "unat b + 64 < 2 ^ 32" if known: "block_infos pf k = Some (b, h, v)" for k b h v
  proof -
    have "k \<in> request_chain ` set requests"
      using prefetch_invD(2) [OF prefetch_chains_inv [OF pf]] known by blast
    then show ?thesis
      using prefetch_invD(3) [OF prefetch_chains_inv [OF pf] known] blocks
      by (auto elim!: block_query_reply)
  qed
  ultimately obtain st where
    "fold_exec (sign_request lib keypair pf (failed_keys rf)) ?srs s0 = Return st"
    using signing_loop_returns [of pf ?srs s0] by blast
  then show ?thesis
    using pf unfolding transaction_handler_def zip_signers Let_def rf_def s0_def
    by (auto split: sum.splits)
qed

text \<open>
  C25: With the documented \<open>H256::from_slice\<close>, and as long as the block numbers the platform reports
  for the chains of the batch leave room for the mortality of a fuel tank signature, and the nonces,
  those in the cache and those told for the signers of the batch, leave room for as many transactions
  as the batch has: the processor comes back from the batch, and so answers the poller, exactly when
  every block hash reported for a chain of the batch that decodes from hexadecimal has 32 bytes. A
  hash of another length ends the task in a panic.
\<close>

theorem batch_returns:
  assumes from_slice: "\<And>b. h256_from_slice lib b = (if length b = 32 then Return b else Panic)"
    and blocks: "\<And>r info. \<lbrakk>r \<in> set requests;
      execute_query L (env_block env (request_chain r)) = Inr (Some info)\<rbrakk>
      \<Longrightarrow> unat (as_u32 (br_current_block_number info)) + 64 < 2 ^ 32"
    and cached: "\<And>k c. pr_nonces p k = Some c \<Longrightarrow> unat c + length requests < 2 ^ 64"
    and told: "\<And>r n. \<lbrakk>r \<in> set requests;
      execute_query L (env_nonce env (request_key lib (with_signer lib keypair r))) = Inr n\<rbrakk>
      \<Longrightarrow> unat (as_u64 n) + length requests < 2 ^ 64"
  shows "(\<exists>p' report. transaction_handler L lib env keypair requests p = Return (p', report))
    \<longleftrightarrow> (\<forall>r \<in> set requests. \<forall>info hex b.
          execute_query L (env_block env (request_chain r)) = Inr (Some info)
          \<longrightarrow> split_nth_1 (br_current_block_hash info) = Some hex \<longrightarrow> hex_decode lib hex = Inr b
          \<longrightarrow> length b = 32)"
proof -
  let ?hashes = "\<forall>r \<in> set requests. get_block_and_spec_version L lib (env_block env (request_chain r)) \<noteq> Panic"
  have hashes: "?hashes \<longleftrightarrow> (\<forall>r \<in> set requests. \<forall>info hex b.
          execute_query L (env_block env (request_chain r)) = Inr (Some info)
          \<longrightarrow> split_nth_1 (br_current_block_hash info) = Some hex \<longrightarrow> hex_decode lib hex = Inr b
          \<longrightarrow> length b = 32)"
    unfolding block_query_panics_iff [OF from_slice] by blast
  have "?hashes" if "transaction_handler L lib env keypair requests p = Return (p', report)" for p' report
    using that by (rule transaction_handlerE) (use prefetch_chains_panics in fastforce)
  moreover have "\<exists>p' report. transaction_handler L lib env keypair requests p = Return (p', report)" if ?hashes
    using that blocks cached told by (rule bounded_batch_returns)
  ultimately show ?thesis unfolding hashes [symmetric] by blast
qed

lemma batch_returns_witness:
  "\<exists>p' report. transaction_handler sample_text_lib sample_lib (sample_env (ok_response True)) 3
     sample_batch fresh_processor = Return (p', report)"
proof -
  let ?env = "sample_env (ok_response True)"
  define info where "info = \<lparr>br_current_block_number = (1000::i64),
    br_current_block_hash = ''0x'' @ replicate 32 (CHR ''a''), br_spec_version = (1::i64)\<rparr>"
  have block: "execute_query sample_text_lib (env_block ?env k) = Inr (Some i) \<longleftrightarrow> i = info" for k i
    by (auto simp: execute_query_Ok_iff sample_env_def ok_response_def info_def)
  have nonce: "execute_query sample_text_lib (env_nonce ?env k) = Inr n \<longleftrightarrow> n = 7" for k n
    by (auto simp: execute_query_Ok_iff sample_env_def ok_response_def)
  have hash: "split_nth_1 (br_current_block_hash info) = Some (replicate 32 (CHR ''a''))"
    unfolding info_def block_reply.simps by (rule split_nth_1_0x) simp
  have decoded: "hex_decode sample_lib (replicate 32 (CHR ''a'')) = Inr (replicate 32 97)"
    by code_simp
  have "(\<exists>p' report. transaction_handler sample_text_lib sample_lib ?env 3 sample_batch fresh_processor
      = Return (p', report))
    \<longleftrightarrow> (\<forall>r \<in> set sample_batch. \<forall>info hex b.
          execute_query sample_text_lib (env_block ?env (request_chain r)) = Inr (Some info)
          \<longrightarrow> split_nth_1 (br_current_block_hash info) = Some hex \<longrightarrow> hex_decode sample_lib hex = Inr b
          \<longrightarrow> length b = 32)"
  proof (rule batch_returns)
    show "h256_from_slice sample_lib b = (if length b = 32 then Return b else Panic)" for b
      by (simp add: sample_lib_def)
    show "unat (as_u32 (br_current_block_number i)) + 64 < 2 ^ 32"
      if "execute_query sample_text_lib (env_block ?env (request_chain r)) = Inr (Some i)" for r i
      using that by (simp add: block info_def as_u32_def)
    show "unat c + length sample_batch < 2 ^ 64" if "pr_nonces fresh_processor k = Some c" for k c
      using that by (simp add: fresh_processor_def)
    show "unat (as_u64 n) + length sample_batch < 2 ^ 64"
      if "execute_query sample_text_lib
        (env_nonce ?env (request_key sample_lib (with_signer sample_lib 3 r))) = Inr n" for r n
      using that by (simp add: nonce as_u64_def sample_batch_def)
  qed
  then show ?thesis by (simp add: block hash decoded)
qed

end
