(* ===== verification/Tx_Worker.thy ===== *)
theory Tx_Worker
  imports Notices Tx_Polling Tx_Batches
begin

text \<open>
  The transaction worker as a whole: the poller of \<open>Tx_Poller\<close> and the processor of \<open>Tx_Processor\<close>,
  composed as in \<open>Acked_Loop\<close>. The acknowledgement a page gets is now the outcome of its batch, and what
  holds for each part alone is put together: which ticks reach the processor, which nonces a run of
  the worker signs with, and what a scan submits.
\<close>

subsection \<open>The composition\<close>

definition transaction_poll ::
    "text_lib \<Rightarrow> ('meta, 'cab, 'tx, 'kp) chain_lib \<Rightarrow> tick_dispatch_error + batch_outcome \<Rightarrow> poll_input
     \<Rightarrow> poller_state \<times> trigger_state \<Rightarrow> poll_result" where
  "transaction_poll L lib ack i st = poll_iteration L lib (i\<lparr>in_ack := ack\<rparr>) st"

fun ticks_in :: "poll_action list \<Rightarrow> (transaction_request list \<times> chain_key set) list" where
  "ticks_in [] = []"
| "ticks_in (SendTick requests idle # actions) = (requests, idle) # ticks_in actions"
| "ticks_in (a # actions) = ticks_in actions"

lemma ticks_in_append [simp]: "ticks_in (xs @ ys) = ticks_in xs @ ticks_in ys"
  by (induction xs rule: ticks_in.induct) auto

text \<open>\<open>send_tick_and_wait\<close>: what the loop reads.\<close>

fun dispatch_failure :: "dispatch_error \<Rightarrow> tick_dispatch_error" where
  "dispatch_failure ReceiverGone = ConsumerGone"
| "dispatch_failure AckGone = AckDropped"

fun send_tick_and_wait :: "dispatch_error + batch_report \<Rightarrow> tick_dispatch_error + batch_outcome" where
  "send_tick_and_wait (Inl e) = Inl (dispatch_failure e)"
| "send_tick_and_wait (Inr report) = Inr (br_outcome report)"

definition handle_tick ::
    "text_lib \<Rightarrow> ('meta, 'cab, 'tx, 'kp) chain_lib \<Rightarrow> 'kp \<Rightarrow> batch_env
     \<Rightarrow> transaction_request list \<times> chain_key set \<Rightarrow> 'meta processor
     \<Rightarrow> ('meta processor \<times> batch_report) exec" where
  "handle_tick L lib keypair env = (\<lambda>(batch, idle) p. process_tick L lib env keypair batch idle p)"

type_synonym worker_log =
  "((tick_dispatch_error + batch_outcome) \<times> poll_action list \<times> batch_report list) list"

definition transaction_worker ::
    "text_lib \<Rightarrow> ('meta, 'cab, 'tx, 'kp) chain_lib \<Rightarrow> 'kp \<Rightarrow> (poll_input \<times> batch_env) list
     \<Rightarrow> (poller_state \<times> trigger_state) \<times> 'meta processor option
     \<Rightarrow> worker_log \<times> (tick_dispatch_error + (poller_state \<times> trigger_state)) \<times> 'meta processor option" where
  "transaction_worker L lib keypair =
     acked_run (transaction_poll L lib) ticks_in send_tick_and_wait (handle_tick L lib keypair)"

subsection \<open>What an iteration does with its acknowledgement\<close>

abbreviation page_reads_ack :: "((tick_dispatch_error + batch_outcome) \<Rightarrow> poll_result) \<Rightarrow> bool" where
  "page_reads_ack \<equiv> reads_ack ticks_in send_tick_and_wait dispatch_failure"

lemma no_tick_in_pause: "set pause \<subseteq> range RetryDelay \<Longrightarrow> ticks_in pause = []"
  by (induction pause rule: ticks_in.induct) auto

lemma end_empty_scan_reads_ack: "page_reads_ack (\<lambda>k. end_empty_scan (i\<lparr>in_ack := k\<rparr>) fresh s t)"
proof -
  obtain idle previous current where scan:
    "complete_chain_scan (previous_scan_chains s) (current_scan_chains s) = (idle, previous, current)"
    by (rule prod_cases3)
  define s1 where "s1 = s\<lparr>previous_scan_chains := previous, current_scan_chains := current\<rparr>"
  obtain t1 d where t1: "(if fresh then (finish_empty_lookup t, False) else finish_batch True t) = (t1, d)"
    by fastforce
  obtain pause s2 where s2: "finish_scan_retry (in_jitter i) d s1 = (pause, s2)" by fastforce
  have form: "end_empty_scan (i\<lparr>in_ack := k\<rparr>) fresh s t =
      (case (if idle \<noteq> {} then k else Inr Completed) of
         Inl e \<Rightarrow> ((if idle \<noteq> {} then [SendTick [] idle] else []), Inl e)
       | Inr outcome \<Rightarrow> ((if idle \<noteq> {} then [SendTick [] idle] else []) @ pause, Inr (s2, t1)))" for k
    using t1 s2 by (auto simp: end_empty_scan_def scan s1_def Let_def split: sum.split)
  have "ticks_in pause = []"
    using finish_scan_retry_facts(1) [OF s2] by (intro no_tick_in_pause) auto
  then show ?thesis
    by (cases "idle = {}")
      (simp_all add: form unread_const, intro read, auto split: sum.split)
qed

lemma apply_batch_step_pause:
  "set (fst (apply_batch_step jitter deferred (batch_step outcome c next_cursor n) s)) \<subseteq> range RetryDelay"
  by (cases outcome) (auto simp: batch_step_def apply_batch_step_def finish_scan_retry_def retry_delay_def Let_def)

lemma process_page_reads_ack: "page_reads_ack (\<lambda>k. process_page (i\<lparr>in_ack := k\<rparr>) requests next_cursor s t)"
proof (rule read)
  let ?idle = "if next_cursor = None
    then previous_scan_chains s - (current_scan_chains s \<union> set (map request_chain requests)) else {}"
  have pause: "ticks_in (fst (apply_batch_step j d (batch_step outcome c next_cursor n) q)) = []"
    for j d outcome c n q
    by (rule no_tick_in_pause) (rule apply_batch_step_pause)
  show "ticks_in (fst (process_page (i\<lparr>in_ack := k\<rparr>) requests next_cursor s t)) = [(requests, ?idle)]" for k
    by (cases k) (auto simp: process_page_def complete_chain_scan_def Let_def split_def pause)
  show "snd (process_page (i\<lparr>in_ack := send_tick_and_wait (Inl e)\<rparr>) requests next_cursor s t)
      = Inl (dispatch_failure e)" for e
    by (auto simp: process_page_def complete_chain_scan_def Let_def split: prod.split)
  show "\<exists>st. snd (process_page (i\<lparr>in_ack := send_tick_and_wait (Inr report)\<rparr>) requests next_cursor s t)
      = Inr st" for report
    by (auto simp: process_page_def complete_chain_scan_def Let_def split: prod.split)
qed

lemma handle_response_reads_ack: "page_reads_ack (\<lambda>k. handle_response (i\<lparr>in_ack := k\<rparr>) fresh response s t)"
proof -
  have pause: "ticks_in [fst (retry_delay j q)] = []" for j q
    by (simp add: retry_delay_def)
  show ?thesis
  proof (cases response)
    case (Inl e)
    then show ?thesis
      using end_empty_scan_reads_ack pause
      by (cases "e = NO_TRANSACTIONS_MSG")
        (auto simp: handle_response_def Let_def split_def unread_const)
  next
    case (Inr page)
    obtain requests next_cursor where page: "page = (requests, next_cursor)" by (cases page)
    show ?thesis
    proof (cases "requests = []")
      case True
      then show ?thesis
        using end_empty_scan_reads_ack
        by (cases "should_continue_empty_drain (cursor s) next_cursor (unproductive_pages s)")
          (auto simp: handle_response_def Inr page unread_const)
    next
      case False
      then show ?thesis using process_page_reads_ack by (simp add: handle_response_def Inr page)
    qed
  qed
qed

lemma transaction_poll_reads_ack: "page_reads_ack (\<lambda>k. transaction_poll L lib k i st)"
proof -
  obtain s t where st: "st = (s, t)" by (cases st)
  obtain s1 t1 where at: "at_response i (s, t) = (s1, t1)" by fastforce
  let ?f = "\<lambda>k. handle_response (i\<lparr>in_ack := k\<rparr>) (cursor s = None)
    (get_pending_transactions L lib (in_page i)) s1 t1"
  let ?before = "(if fetch_now s then [] else [AwaitWork]) @ [FetchPage (cursor s)]"
  have form: "transaction_poll L lib k i st = (?before @ fst (?f k), snd (?f k))" for k
    using at by (auto simp: transaction_poll_def poll_iteration_def at_response_def st Let_def
        split: prod.split)
  show ?thesis
    by (rule reads_ack_prefix [where f = ?f and before = ?before])
      (simp_all only: handle_response_reads_ack form, simp)
qed

interpretation transaction_acks: acked_poller "transaction_poll L lib" ticks_in send_tick_and_wait
  dispatch_failure
  for L lib
  by unfold_locales (simp_all add: transaction_poll_reads_ack)

subsection \<open>What an iteration does with its notifications\<close>

text \<open>The cursor of the first request among the actions; \<open>None\<close> is the head of the queue.\<close>

fun first_fetch :: "poll_action list \<Rightarrow> string option option" where
  "first_fetch [] = None"
| "first_fetch (FetchPage c # actions) = Some c"
| "first_fetch (a # actions) = first_fetch actions"

interpretation transaction_notices: notified_poller "transaction_poll L lib" in_before in_during
  "\<lambda>actions. first_fetch actions = Some None" snd poller_inv
  for L lib
proof unfold_locales
  show "trigger_inv (snd st)" if "poller_inv st" for st
    using that by (cases st) (simp add: poller_inv_def)
next
  fix k i actions and st st' :: "poller_state \<times> trigger_state"
  assume inv: "poller_inv st" and "transaction_poll L lib k i st = (actions, Inr st')"
  moreover obtain s t s' t' where st: "st = (s, t)" "st' = (s', t')" by (cases st, cases st')
  ultimately have it: "poll_iteration L lib (i\<lparr>in_ack := k\<rparr>) (s, t) = (actions, Inr (s', t'))"
    by (simp add: transaction_poll_def)
  have "poll_next L lib (i\<lparr>in_ack := k\<rparr>) (s, t) = Some (s', t')"
    using it by (auto simp: poll_next_Some)
  then show "poller_inv st'"
    unfolding st by (rule tx_poller.invar_poll [OF inv [unfolded st]])
  from it obtain rest where
    "actions = (if fetch_now s then [] else [AwaitWork]) @ FetchPage (cursor s) # rest"
    by (rule poll_iterationE)
  then have "first_fetch actions = Some (cursor s)" by simp
  moreover have "trigger_inv t" using inv by (simp add: st poller_inv_def)
  ultimately show "outstanding (snd st') \<longleftrightarrow>
      in_during i \<noteq> [] \<or> \<not> first_fetch actions = Some None \<and> (in_before i \<noteq> [] \<or> outstanding (snd st))"
    using poll_iteration_facts(4) [OF it, of "current_scan_chains s"] by (simp add: st)
qed

end
