(* ===== verification/Transaction_Runs.thy ===== *)
theory Transaction_Runs
  imports Tx_Worker
begin

text \<open>
  What the transaction worker as a whole promises (\<open>Tx_Worker\<close>): its runs are runs of its two parts,
  no nonce is used twice while a chain has work, and a scan submits every transaction it shows.
\<close>

lemma handle_all_run_processor:
  "handle_all (handle_tick L lib keypair) ticks p = run_processor L lib keypair ticks p"
  by (induction L lib keypair ticks p rule: run_processor.induct) (auto simp: handle_tick_def split: exec.split)

lemma loop_run_start_polling:
  "loop_run (transaction_poll L lib) (zip acks inputs) st =
     start_polling L lib (map2 (\<lambda>ack i. i\<lparr>in_ack := ack\<rparr>) acks inputs) st"
proof (induction acks inputs arbitrary: st rule: list_induct2')
  case (4 k acks i inputs)
  then show ?case
    by (cases "transaction_poll L lib k i st") (auto simp: transaction_poll_def Let_def split: sum.split)
qed simp_all

lemmas transaction_run_composed =
  transaction_acks.run_composed
    [where L = L and lib = lib and handle = "handle_tick L lib keypair" for L lib keypair, folded transaction_worker_def,
     unfolded transaction_acks.composed_run_def handle_all_run_processor loop_run_start_polling
       dispatch_failure.simps send_tick_and_wait.simps]

lemma transaction_runE:
  assumes "transaction_worker L lib keypair xs (st, Some p) = (log, r, proc)"
  obtains handled p1 where "run_processor L lib keypair handled p = Return (p1, run_reports log)"
    and "case proc of
           Some p' \<Rightarrow> sent_ticks ticks_in (map snd xs) log = handled \<and> p' = p1 \<and> (\<exists>st'. r = Inr st')
         | None \<Rightarrow> \<exists>env batch. sent_ticks ticks_in (map snd xs) log = handled @ [(env, batch)]
                    \<and> handle_tick L lib keypair env batch p1 = Panic \<and> r = Inl AckDropped"
    and "\<forall>any. start_polling L lib
           (map2 (\<lambda>ack i. i\<lparr>in_ack := ack\<rparr>) (read_acks ticks_in any log) (map fst xs)) st
         = (run_actions log, r)"
  using transaction_run_composed [OF assms] by (elim conjE exE) (rule that)

text \<open>
  C1: The worker is its two parts. Whatever the platform and the notifications do, what the poller
  does is a run of \<open>start_polling\<close> in which each tick is acknowledged with the outcome of its batch,
  and the reports are those of \<open>run_processor\<close> on exactly the ticks sent, in order, each handled
  with the cache and the metadata the one before left. The poller ends only when the processor
  panicked, and then on the very tick it panicked on, with \<open>AckDropped\<close>.
\<close>

theorem worker_refines_its_parts:
  assumes "transaction_worker L lib keypair xs (st, Some p) = (log, r, proc)"
  shows "start_polling L lib
           (map2 (\<lambda>ack i. i\<lparr>in_ack := ack\<rparr>) (read_acks ticks_in any log) (map fst xs)) st
         = (run_actions log, r)
       \<and> map snd (sent_ticks ticks_in (map snd xs) log) = ticks_in (run_actions log)
       \<and> map fst (sent_ticks ticks_in (map fst log) log) =
           map (\<lambda>report. Inr (br_outcome report)) (run_reports log)
           @ (if proc = None then [Inl AckDropped] else [])
       \<and> (\<exists>handled p1. run_processor L lib keypair handled p = Return (p1, run_reports log)
            \<and> (case proc of
                 Some p' \<Rightarrow> sent_ticks ticks_in (map snd xs) log = handled \<and> p' = p1
                            \<and> (\<exists>st'. r = Inr st')
               | None \<Rightarrow> \<exists>env batch idle.
                           sent_ticks ticks_in (map snd xs) log = handled @ [(env, batch, idle)]
                         \<and> process_tick L lib env keypair batch idle p1 = Panic
                         \<and> r = Inl AckDropped))"
  using transaction_run_composed [OF assms]
  by (auto simp: handle_tick_def split: option.splits)

subsection \<open>Nonces\<close>

text \<open>Whether the pages of every scan at whose end something is evicted had shown the chain.\<close>

fun shown_before_evictions :: "chain_key \<Rightarrow> chain_key set \<Rightarrow> poll_action list \<Rightarrow> bool" where
  "shown_before_evictions c shown [] = True"
| "shown_before_evictions c shown (FetchPage None # actions) = shown_before_evictions c {} actions"
| "shown_before_evictions c shown (SendTick requests idle # actions) =
     ((idle \<noteq> {} \<longrightarrow> c \<in> shown \<union> set (map request_chain requests))
      \<and> shown_before_evictions c (shown \<union> set (map request_chain requests)) actions)"
| "shown_before_evictions c shown (a # actions) = shown_before_evictions c shown actions"

lemma shown_chain_not_idle:
  "\<lbrakk>idle_unseen shown actions; shown_before_evictions c shown actions; (batch, idle) \<in> set (ticks_in actions)\<rbrakk>
     \<Longrightarrow> c \<notin> idle"
  by (induction shown actions rule: idle_unseen.induct) auto

lemma prefix_ticks_subset:
  assumes "map snd (handled @ rest) = ticks"
  shows "\<forall>(env, batch, idle) \<in> set handled. (batch, idle) \<in> set ticks"
  using assms by force

text \<open>
  C2: No nonce is used twice. Over any run of the worker, from any nonce cache, the nonces signed
  for a key are strictly increasing, however the platform cuts its transactions into pages and
  whatever nonces it tells, as long as no batch signed for the key is refused and the chain of the
  key has pending transactions, somewhere on the pages of every scan that ends with an eviction.
\<close>

theorem worker_nonces_increase:
  assumes run: "transaction_worker L lib keypair xs ((initial_poller, t), Some p) = (log, r, proc)"
    and pending: "shown_before_evictions (chain_key_of k) {} (run_actions log)"
    and taken: "list_all (\<lambda>report. br_outcome report \<noteq> SubmissionFailed
                   \<or> nonces_of k (br_signed report) = []) (run_reports log)"
  shows "sorted_wrt (<) (concat (map (\<lambda>report. nonces_of k (br_signed report)) (run_reports log)))"
proof -
  obtain handled p1 where
    proc: "run_processor L lib keypair handled p = Return (p1, run_reports log)"
    and sent: "case proc of
           Some p' \<Rightarrow> sent_ticks ticks_in (map snd xs) log = handled \<and> p' = p1 \<and> (\<exists>st'. r = Inr st')
         | None \<Rightarrow> \<exists>env batch. sent_ticks ticks_in (map snd xs) log = handled @ [(env, batch)]
                    \<and> handle_tick L lib keypair env batch p1 = Panic \<and> r = Inl AckDropped"
    and polled: "\<forall>any. start_polling L lib
           (map2 (\<lambda>ack i. i\<lparr>in_ack := ack\<rparr>) (read_acks ticks_in any log) (map fst xs)) (initial_poller, t)
         = (run_actions log, r)"
    using run by (rule transaction_runE)
  have "idle_unseen {} (run_actions log)"
    using polling_idle_unseen spec [OF polled, of "Inl AckDropped"] by (metis fst_conv)
  then have idle: "chain_key_of k \<notin> idle" if "(batch, idle) \<in> set (ticks_in (run_actions log))" for batch idle
    using shown_chain_not_idle pending that by blast
  obtain rest where "sent_ticks ticks_in (map snd xs) log = handled @ rest"
    using sent by (cases proc) auto
  then have "map snd (handled @ rest) = ticks_in (run_actions log)"
    using transaction_run_composed [OF run] by simp
  then have "\<forall>(env, batch, idle) \<in> set handled. (batch, idle) \<in> set (ticks_in (run_actions log))"
    by (rule prefix_ticks_subset)
  then have "\<forall>(env, batch, idle) \<in> set handled. chain_key_of k \<notin> idle"
    using idle by fastforce
  then show ?thesis
    using taken by (intro no_nonce_used_twice [OF proc]) (auto simp: list_all_iff)
qed

subsection \<open>A scan\<close>

lemma handed_requests_ticks: "handed_requests actions = concat (map fst (ticks_in actions))"
  by (induction actions rule: ticks_in.induct) auto

lemma start_polling_poll_run:
  "start_polling L lib inputs st = (actions, Inr st') \<Longrightarrow> poll_run (poll_next L lib) inputs st = Some st'"
  by (induction inputs arbitrary: st actions)
    (auto simp: poll_next_def Let_def split: prod.splits sum.splits)

lemma served_inputs:
  assumes "list_all2 (\<lambda>(i, env) page. get_pending_transactions L lib (in_page i) = Inr page) xs pages"
    and "length acks = length xs" and "set acks \<subseteq> {Inr Completed, Inr PartialProgress}"
  shows "list_all2 (tx_serves L lib) (map2 (\<lambda>ack i. i\<lparr>in_ack := ack\<rparr>) acks (map fst xs)) pages
     \<and> barren_count tx_barren (map2 (\<lambda>ack i. i\<lparr>in_ack := ack\<rparr>) acks (map fst xs)) pages
       = length (filter (\<lambda>(requests, next_cursor). requests = []) pages)"
  using assms
proof (induction xs pages arbitrary: acks rule: list_all2_induct)
  case (Cons x xs page pages)
  then show ?case by (cases acks; cases x; cases page) (auto simp: tx_serves_def tx_barren_def)
qed simp

lemma process_tick_uuids:
  assumes "process_tick L lib env keypair batch idle p = Return (p1, report)"
  shows "subseq (map uuid (br_inputs report)) (map request_id batch)"
    and "br_outcome report = Completed \<Longrightarrow> map uuid (br_inputs report) = map request_id batch"
proof -
  have "subseq (map uuid (br_inputs report)) (map request_id batch)
      \<and> (br_outcome report = Completed \<longrightarrow> map uuid (br_inputs report) = map request_id batch)"
  proof (cases "batch = []")
    case True
    then show ?thesis using assms by (auto simp: process_tick_def Let_def)
  next
    case False
    then obtain q where "transaction_handler L lib env keypair batch q = Return (p1, report)"
      using assms by (auto simp: process_tick_def Let_def)
    from batch_outcome_facts [OF this] show ?thesis by blast
  qed
  then show "subseq (map uuid (br_inputs report)) (map request_id batch)"
    "br_outcome report = Completed \<Longrightarrow> map uuid (br_inputs report) = map request_id batch"
    by blast+
qed

lemma run_processor_uuids:
  assumes "run_processor L lib keypair ticks p = Return (p', reports)"
  shows "subseq (map uuid (concat (map br_inputs reports)))
           (map request_id (concat (map (\<lambda>(env, batch, idle). batch) ticks)))"
    and "list_all (\<lambda>report. br_outcome report = Completed) reports \<Longrightarrow>
         map uuid (concat (map br_inputs reports))
         = map request_id (concat (map (\<lambda>(env, batch, idle). batch) ticks))"
proof -
  have "subseq (map uuid (concat (map br_inputs reports)))
           (map request_id (concat (map (\<lambda>(env, batch, idle). batch) ticks)))
     \<and> (list_all (\<lambda>report. br_outcome report = Completed) reports \<longrightarrow>
         map uuid (concat (map br_inputs reports))
         = map request_id (concat (map (\<lambda>(env, batch, idle). batch) ticks)))"
    using assms
  proof (induction L lib keypair ticks p arbitrary: reports rule: run_processor.induct)
    case (2 L lib keypair env batch idle ticks p)
    then obtain p1 report rest where
      "process_tick L lib env keypair batch idle p = Return (p1, report)"
      "run_processor L lib keypair ticks p1 = Return (p', rest)" "reports = report # rest"
      by (auto split: exec.splits prod.splits)
    with 2(1) [OF this(1) refl this(2)] process_tick_uuids [OF this(1)] show ?case
      by (auto intro: list_emb_append_mono)
  qed simp
  then show "subseq (map uuid (concat (map br_inputs reports)))
           (map request_id (concat (map (\<lambda>(env, batch, idle). batch) ticks)))"
    "list_all (\<lambda>report. br_outcome report = Completed) reports \<Longrightarrow>
         map uuid (concat (map br_inputs reports))
         = map request_id (concat (map (\<lambda>(env, batch, idle). batch) ticks))"
    by blast+
qed

text \<open>
  C3: A scan submits what it shows. When the worker, after any run, starts a scan, the platform
  answers with a chain of pages (20 of them without a usable row at most) and takes some or all of
  every batch, then every row that can be converted reaches the processor once, in the order of the
  pages; what the platform is sent are signed inputs for these rows, in this order and each at most
  once, and if every batch is completed there is exactly one for each row. The worker is then at the
  end of the scan.
\<close>

theorem scan_submits_its_transactions:
  assumes reached: "transaction_worker L lib keypair before ((initial_poller, new_trigger), Some p0)
         = (log0, Inr (s, t), Some p)" "cursor s = None"
    and run: "transaction_worker L lib keypair xs ((s, t), Some p) = (log, r, Some p')"
    and served: "list_all2 (\<lambda>(i, env) page. get_pending_transactions L lib (in_page i) = Inr page) xs pages"
      "page_chain None pages" "length (filter (\<lambda>(requests, next_cursor). requests = []) pages) \<le> 20"
    and taken: "list_all (\<lambda>report. br_outcome report \<in> {Completed, PartialProgress}) (run_reports log)"
  shows "(\<exists>s' t'. r = Inr (s', t') \<and> cursor s' = None)
       \<and> concat (map fst (ticks_in (run_actions log))) = concat (map fst pages)
       \<and> subseq (map uuid (concat (map br_inputs (run_reports log))))
           (map request_id (concat (map fst pages)))
       \<and> (list_all (\<lambda>report. br_outcome report = Completed) (run_reports log) \<longrightarrow>
            map uuid (concat (map br_inputs (run_reports log)))
            = map request_id (concat (map fst pages)))"
proof -
  let ?inputs = "\<lambda>log xs. map2 (\<lambda>ack i. i\<lparr>in_ack := ack\<rparr>) (read_acks ticks_in (Inr Completed) log) (map fst xs)"
  have "start_polling L lib (?inputs log0 before) (initial_poller, new_trigger) = (run_actions log0, Inr (s, t))"
    using reached(1) by (auto elim: transaction_runE)
  then have reach: "poll_run (poll_next L lib) (?inputs log0 before) (initial_poller, new_trigger) = Some (s, t)"
    by (rule start_polling_poll_run)
  obtain p1 where
    proc: "run_processor L lib keypair (sent_ticks ticks_in (map snd xs) log) p = Return (p1, run_reports log)"
    and polled: "start_polling L lib (?inputs log xs) (s, t) = (run_actions log, r)"
    and cont: "\<exists>st'. r = Inr st'"
    using run by (auto elim!: transaction_runE)
  have len: "length (read_acks ticks_in (Inr Completed) log) = length xs"
    using run cont length_acked_run unfolding transaction_worker_def read_acks_def by fastforce
  have "fst ` set (sent_ticks ticks_in (map fst log) log) \<subseteq> {Inr Completed, Inr PartialProgress}"
  proof -
    have "map fst (sent_ticks ticks_in (map fst log) log)
        = map (\<lambda>report. Inr (br_outcome report)) (run_reports log)"
      using transaction_run_composed [OF run] by simp
    then have "fst ` set (sent_ticks ticks_in (map fst log) log)
        = (\<lambda>report. Inr (br_outcome report)) ` set (run_reports log)"
      by (metis set_map)
    then show ?thesis using taken by (auto simp: list_all_iff)
  qed
  then have "set (read_acks ticks_in (Inr Completed) log) \<subseteq> {Inr Completed, Inr PartialProgress}"
    using set_read_acks [of ticks_in "Inr Completed" log] by blast
  note inputs = served_inputs [OF served(1) len this]
  obtain actions s' t' where done_scan: "start_polling L lib (?inputs log xs) (s, t) = (actions, Inr (s', t'))"
    "handed_requests actions = concat (map fst pages)" "cursor s' = None"
    using transaction_scan_complete [OF reach reached(2) conjunct1 [OF inputs] served(2)] served(3) inputs
    by auto
  have "map snd (sent_ticks ticks_in (map snd xs) log) = ticks_in (run_actions log)"
    using transaction_run_composed [OF run] by simp
  from arg_cong [OF this, of "map fst"]
  have "map (\<lambda>(env, batch, idle). batch) (sent_ticks ticks_in (map snd xs) log)
      = map fst (ticks_in (run_actions log))"
    by (simp add: split_def comp_def)
  then show ?thesis
    using run_processor_uuids [OF proc] done_scan polled by (auto simp: handed_requests_ticks)
qed

subsection \<open>A run\<close>

text \<open>Two pages with one transaction each, which the platform takes.\<close>

definition signable_row :: pending_transaction where
  "signable_row = good_row\<lparr>pt_encoded_data := ''0x'' @ [CHR 0x00, CHR 0x00, CHR 0x04]\<rparr>"

definition sample_inputs :: "(poll_input \<times> batch_env) list" where
  "sample_inputs = [(page_input [signable_row] (Some ''p'') [] Skipped, sample_env (ok_response True)),
     (page_input [signable_row] None [] Skipped, sample_env (ok_response True))]"

abbreviation sample_worker where
  "sample_worker \<equiv> transaction_worker sample_text_lib sample_lib 3"

lemma sample_worker_runs:
  obtains log r p' where
    "sample_worker sample_inputs ((initial_poller, new_trigger), Some fresh_processor) = (log, r, Some p')"
    "list_all (\<lambda>report. br_outcome report = Completed) (run_reports log)"
    "map (\<lambda>report. nonces_of (Canary, Matrix, [3]) (br_signed report)) (run_reports log) = [[7], [8]]"
    "shown_before_evictions (chain_key_of (Canary, Matrix, [3])) {} (run_actions log)"
proof -
  have "case sample_worker sample_inputs ((initial_poller, new_trigger), Some fresh_processor) of
     (log, r, proc) \<Rightarrow> (case proc of None \<Rightarrow> False | Some p \<Rightarrow> True)
       \<and> list_all (\<lambda>report. br_outcome report = Completed) (run_reports log)
       \<and> map (\<lambda>report. nonces_of (Canary, Matrix, [3]) (br_signed report)) (run_reports log) = [[7], [8]]
       \<and> shown_before_evictions (chain_key_of (Canary, Matrix, [3])) {} (run_actions log)"
    by code_simp
  then show thesis using that by (auto split: option.splits prod.splits)
qed

lemma worker_refines_its_parts_witness:
  "\<exists>log r p'. sample_worker sample_inputs ((initial_poller, new_trigger), Some fresh_processor)
       = (log, r, Some p')
     \<and> run_processor sample_text_lib sample_lib 3 (sent_ticks ticks_in (map snd sample_inputs) log)
         fresh_processor = Return (p', run_reports log)
     \<and> length (run_reports log) = 2"
proof -
  obtain log r p' where run: "sample_worker sample_inputs
      ((initial_poller, new_trigger), Some fresh_processor) = (log, r, Some p')"
    and signed: "map (\<lambda>report. nonces_of (Canary, Matrix, [3]) (br_signed report)) (run_reports log) = [[7], [8]]"
    by (rule sample_worker_runs)
  have "length (run_reports log) = 2" using arg_cong [OF signed, of length] by simp
  with run worker_refines_its_parts [OF run] show ?thesis by auto
qed

lemma worker_nonces_increase_witness:
  "\<exists>log r p'. sample_worker sample_inputs ((initial_poller, new_trigger), Some fresh_processor)
       = (log, r, Some p')
     \<and> concat (map (\<lambda>report. nonces_of (Canary, Matrix, [3]) (br_signed report)) (run_reports log)) = [7, 8]
     \<and> sorted_wrt (<)
         (concat (map (\<lambda>report. nonces_of (Canary, Matrix, [3]) (br_signed report)) (run_reports log)))"
proof -
  obtain log r p' where run: "sample_worker sample_inputs
      ((initial_poller, new_trigger), Some fresh_processor) = (log, r, Some p')"
    and completed: "list_all (\<lambda>report. br_outcome report = Completed) (run_reports log)"
    and signed: "map (\<lambda>report. nonces_of (Canary, Matrix, [3]) (br_signed report)) (run_reports log) = [[7], [8]]"
    and shown: "shown_before_evictions (chain_key_of (Canary, Matrix, [3])) {} (run_actions log)"
    by (rule sample_worker_runs)
  have "list_all (\<lambda>report. br_outcome report \<noteq> SubmissionFailed
      \<or> nonces_of (Canary, Matrix, [3]) (br_signed report) = []) (run_reports log)"
    using completed by (auto simp: list_all_iff)
  from run worker_nonces_increase [OF run shown this] signed show ?thesis by auto
qed

lemma scan_submits_its_transactions_witness:
  "\<exists>log r p'. sample_worker sample_inputs ((initial_poller, new_trigger), Some fresh_processor)
       = (log, r, Some p')
     \<and> map uuid (concat (map br_inputs (run_reports log))) = [''p'', ''p'']"
proof -
  obtain log r p' where run: "sample_worker sample_inputs
      ((initial_poller, new_trigger), Some fresh_processor) = (log, r, Some p')"
    and completed: "list_all (\<lambda>report. br_outcome report = Completed) (run_reports log)"
    by (rule sample_worker_runs)
  let ?request = "the (case transaction_request_try_from sample_lib signable_row of
    Inr r \<Rightarrow> Some r | Inl e \<Rightarrow> None)"
  define pages where "pages = [([?request], Some ''p''), ([?request], None)]"
  have "list_all2 (\<lambda>(i, env) page. get_pending_transactions sample_text_lib sample_lib (in_page i) = Inr page)
      sample_inputs pages" "request_id ?request = ''p''"
    unfolding pages_def by code_simp+
  moreover have "page_chain None pages"
    "length (filter (\<lambda>(requests, next_cursor). requests = []) pages) \<le> 20"
    "concat (map fst pages) = [?request, ?request]"
    by (simp_all add: pages_def)
  moreover have "sample_worker [] ((initial_poller, new_trigger), Some fresh_processor)
      = ([], Inr (initial_poller, new_trigger), Some fresh_processor)" "cursor initial_poller = None"
    by (simp_all add: transaction_worker_def initial_poller_def)
  moreover have "list_all (\<lambda>report. br_outcome report \<in> {Completed, PartialProgress}) (run_reports log)"
    using completed by (auto simp: list_all_iff)
  ultimately show ?thesis
    using scan_submits_its_transactions [of sample_text_lib sample_lib 3 "[]" fresh_processor "[]"
        initial_poller new_trigger fresh_processor sample_inputs log r p' pages] run completed
    by auto
qed

end
