(* ===== verification/Wallet_Worker.thy ===== *)
theory Wallet_Worker
  imports Scan_Pacing Graphql_Query Chain_Lib
begin

text \<open>
  The managed-wallet worker of \<open>src/src/wallet.rs\<close>: the requests made from the platform's rows
  (\<open>DeriveWalletRequest\<close>), the processor that derives a wallet for each and registers it with the
  platform (\<open>derive_wallets\<close>, \<open>launch_job_scheduler\<close>), and the polling loop (\<open>start_polling\<close> with
  \<open>wallet_step\<close>, \<open>empty_scan_step\<close> and \<open>apply_step\<close>). As for the transaction poller, what one
  iteration meets is its input, and a wait that a notification cuts short delivers the notification
  before the next lookup.
\<close>

subsection \<open>Rows and requests\<close>

definition ACCOUNT_PAGE_SIZE :: int where "ACCOUNT_PAGE_SIZE = 100"

record pending_wallet =
  row_external_id :: "string option"

record wallet_page =
  wp_data :: "pending_wallet list"
  wp_next_cursor :: "string option"

record derive_wallet_request =
  dw_external_id :: string

definition derive_wallet_request_try_from :: "pending_wallet \<Rightarrow> derive_wallet_request result" where
  "derive_wallet_request_try_from data =
     (case ok_or (row_external_id data) ''No external id'' of
        Inl e \<Rightarrow> Inl e
      | Inr eid \<Rightarrow> Inr \<lparr>dw_external_id = eid\<rparr>)"

definition get_pending_wallets ::
    "text_lib \<Rightarrow> wallet_page option http_outcome
     \<Rightarrow> (derive_wallet_request list \<times> string option) result" where
  "get_pending_wallets L outcome =
     (case execute_query L outcome of
        Inl e \<Rightarrow> Inl e
      | Inr None \<Rightarrow> Inr ([], None)
      | Inr (Some result) \<Rightarrow>
          (let next_cursor = (case wp_next_cursor result of
                 Some c \<Rightarrow> if c \<noteq> [] then Some c else None | None \<Rightarrow> None)
           in Inr (keep_ok (map derive_wallet_request_try_from (wp_data result)), next_cursor)))"

subsection \<open>The processor\<close>

datatype wallet_outcome = WalletsCompleted | WalletsFailed

definition wallet_message :: "('meta, 'cab, 'tx, 'kp) chain_lib \<Rightarrow> 'kp \<Rightarrow> string" where
  "wallet_message lib keypair =
     ''EnjinPlatform.VerifyManagedWallet(0x'' @ hex_encode lib (public_key_of lib keypair) @ '')''"

definition derive_wallet ::
    "('meta, 'cab, 'tx, 'kp) chain_lib \<Rightarrow> 'kp \<Rightarrow> derive_wallet_request
     \<Rightarrow> populate_managed_wallet_input" where
  "derive_wallet lib keypair request =
     (let eid = dw_external_id request;
          derived_pair = derive_soft lib keypair (derive_junction eid);
          signature = sign_message lib derived_pair (string_bytes (wallet_message lib keypair))
      in \<lparr>pw_external_id = eid,
          pw_public_key = ''0x'' @ hex_encode lib (public_key_of lib derived_pair),
          pw_signed_message = ''0x'' @ hex_encode lib signature\<rparr>)"

text \<open>The wallets submitted, and the outcome for the platform's answer.\<close>

definition derive_wallets ::
    "text_lib \<Rightarrow> ('meta, 'cab, 'tx, 'kp) chain_lib \<Rightarrow> bool http_outcome \<Rightarrow> 'kp
     \<Rightarrow> derive_wallet_request list \<Rightarrow> populate_managed_wallet_input list \<times> wallet_outcome" where
  "derive_wallets L lib answer keypair requests =
     (let wallets = map (derive_wallet lib keypair) requests
      in (wallets, case populate_managed_wallets L answer wallets of
                     Inr u \<Rightarrow> WalletsCompleted | Inl e \<Rightarrow> WalletsFailed))"

text \<open>The task: one batch after another, each acknowledged with its outcome.\<close>

fun launch_wallet_scheduler ::
    "text_lib \<Rightarrow> ('meta, 'cab, 'tx, 'kp) chain_lib \<Rightarrow> 'kp
     \<Rightarrow> (bool http_outcome \<times> derive_wallet_request list) list
     \<Rightarrow> (populate_managed_wallet_input list \<times> wallet_outcome) list" where
  "launch_wallet_scheduler L lib keypair [] = []"
| "launch_wallet_scheduler L lib keypair ((answer, requests) # batches) =
     derive_wallets L lib answer keypair requests # launch_wallet_scheduler L lib keypair batches"

subsection \<open>The next step\<close>

datatype wallet_step =
    ContinueScan (ws_cursor: "string option") (ws_restart: bool) (ws_reset: bool) (ws_fetch: bool)
  | DelayThenFetch (ws_cursor: "string option") (ws_restart: bool) (ws_reason: string)

text \<open>\<open>ContinueScan cursor restart_after_scan reset_failures fetch_now\<close> and
  \<open>DelayThenFetch cursor restart_after_scan reason\<close>.\<close>

definition wallet_step :: "wallet_outcome \<Rightarrow> string option \<Rightarrow> bool \<Rightarrow> bool \<Rightarrow> wallet_step" where
  "wallet_step outcome next_cursor restart_after_scan deferred =
     (case outcome of
        WalletsCompleted \<Rightarrow>
          if next_cursor = None \<and> restart_after_scan
          then DelayThenFetch None False ''Managed-wallet scan left pending work''
          else ContinueScan next_cursor restart_after_scan (\<not> restart_after_scan)
                 (next_cursor \<noteq> None \<or> deferred)
      | WalletsFailed \<Rightarrow>
          DelayThenFetch next_cursor (next_cursor \<noteq> None) ''Managed-wallet batch submission failed'')"

definition empty_scan_step :: "bool \<Rightarrow> bool \<Rightarrow> wallet_step" where
  "empty_scan_step restart_after_scan deferred =
     (if restart_after_scan
      then DelayThenFetch None False ''Managed-wallet scan skipped unconvertible rows''
      else ContinueScan None False True deferred)"

subsection \<open>The polling loop\<close>

record wallet_state =
  w_cursor :: "string option"
  w_fetch_now :: bool
  w_failure_count :: u32
  restart_after_scan :: bool
  empty_pages :: u32

definition initial_wallet :: wallet_state where
  "initial_wallet = \<lparr>w_cursor = None, w_fetch_now = True, w_failure_count = 0,
     restart_after_scan = False, empty_pages = 0\<rparr>"

datatype wallet_action = WAwaitWork | WFetchPage "string option"
  | SendBatch "derive_wallet_request list" | WRetryDelay duration

text \<open>What becomes of a batch put into the channel: the processor is gone, it drops the
  acknowledgement, or it acknowledges with an outcome.\<close>

datatype batch_fate = ReceiverDropped | BatchAckDropped | Acked wallet_outcome

definition send_batch_and_wait :: "batch_fate \<Rightarrow> wallet_outcome result" where
  "send_batch_and_wait fate =
     (case fate of
        ReceiverDropped \<Rightarrow> Inl ''managed-wallet processor receiver dropped''
      | BatchAckDropped \<Rightarrow> Inl ''managed-wallet processor dropped batch acknowledgement''
      | Acked outcome \<Rightarrow> Inr outcome)"

record wallet_input =
  wi_before :: "notification list"
  wi_page :: "wallet_page option http_outcome"
  wi_during :: "notification list"
  wi_fate :: batch_fate
  wi_jitter :: u64

type_synonym wallet_result = "wallet_action list \<times> (wallet_state \<times> trigger_state) result"

definition wallet_delay :: "u64 \<Rightarrow> wallet_state \<Rightarrow> wallet_action list \<times> wallet_state" where
  "wallet_delay jitter s =
     ([WRetryDelay (jittered_exponential_delay jitter (w_failure_count s))],
      s\<lparr>w_failure_count := saturating_add (w_failure_count s) 1, w_fetch_now := True\<rparr>)"

definition apply_step :: "u64 \<Rightarrow> wallet_step \<Rightarrow> wallet_state \<Rightarrow> wallet_action list \<times> wallet_state" where
  "apply_step jitter step s =
     (case step of
        ContinueScan cursor restart reset_failures fetch_now \<Rightarrow>
          ([], s\<lparr>w_failure_count := (if reset_failures then 0 else w_failure_count s),
                 w_cursor := cursor, restart_after_scan := restart, w_fetch_now := fetch_now\<rparr>)
      | DelayThenFetch cursor restart reason \<Rightarrow>
          wallet_delay jitter (s\<lparr>w_cursor := cursor, restart_after_scan := restart\<rparr>))"

text \<open>The \<open>match\<close> on the fetched page. \<open>empty_pages\<close> is below 20 where it is incremented.\<close>

definition handle_wallet_page ::
    "wallet_input \<Rightarrow> bool \<Rightarrow> (derive_wallet_request list \<times> string option) result \<Rightarrow> wallet_state
     \<Rightarrow> trigger_state \<Rightarrow> wallet_result" where
  "handle_wallet_page i fresh_lookup response s t =
     (case response of
        Inr (requests, next_cursor) \<Rightarrow>
          if requests = []
          then if should_continue_empty_drain (w_cursor s) next_cursor (empty_pages s)
               then ([], Inr (s\<lparr>empty_pages := empty_pages s + 1, w_cursor := next_cursor,
                                restart_after_scan := True, w_fetch_now := True\<rparr>, t))
               else (let restart = (next_cursor \<noteq> None \<or> restart_after_scan s);
                         (t1, deferred) = (if fresh_lookup then (finish_empty_lookup t, False)
                                           else finish_batch True t);
                         (pause, s1) = apply_step (wi_jitter i) (empty_scan_step restart deferred)
                                         (s\<lparr>empty_pages := 0\<rparr>)
                     in (pause, Inr (s1, t1)))
          else (case send_batch_and_wait (wi_fate i) of
                  Inl e \<Rightarrow> ([SendBatch requests], Inl e)
                | Inr outcome \<Rightarrow>
                    (let (t1, deferred) = finish_batch (next_cursor = None) t;
                         (pause, s1) = apply_step (wi_jitter i)
                           (wallet_step outcome next_cursor (restart_after_scan s) deferred)
                           (s\<lparr>empty_pages := 0\<rparr>)
                     in (SendBatch requests # pause, Inr (s1, t1))))
      | Inl e \<Rightarrow>
          (let (pause, s1) = wallet_delay (wi_jitter i)
                 (s\<lparr>w_cursor := None, restart_after_scan := False, empty_pages := 0\<rparr>)
           in (pause, Inr (s1, finish_empty_lookup t))))"

definition wallet_iteration ::
    "text_lib \<Rightarrow> wallet_input \<Rightarrow> wallet_state \<times> trigger_state \<Rightarrow> wallet_result" where
  "wallet_iteration L i = (\<lambda>(s, t).
     (let waits = (if w_fetch_now s then [] else [WAwaitWork]);
          t1 = fold deliver (wi_before i) t;
          fresh_lookup = (w_cursor s = None);
          t2 = (if fresh_lookup then begin_fresh_lookup t1 else t1);
          t3 = fold deliver (wi_during i) t2;
          (actions, r) = handle_wallet_page i fresh_lookup (get_pending_wallets L (wi_page i)) s t3
      in (waits @ WFetchPage (w_cursor s) # actions, r)))"

fun start_wallet_polling ::
    "text_lib \<Rightarrow> wallet_input list \<Rightarrow> wallet_state \<times> trigger_state \<Rightarrow> wallet_result" where
  "start_wallet_polling L [] st = ([], Inr st)"
| "start_wallet_polling L (i # inputs) st =
     (case wallet_iteration L i st of
        (actions, Inl e) \<Rightarrow> (actions, Inl e)
      | (actions, Inr st') \<Rightarrow>
          (let (rest, r) = start_wallet_polling L inputs st' in (actions @ rest, r)))"

end
