(* ===== verification/Wallet_Polling.thy ===== *)
theory Wallet_Polling
  imports Wallet_Worker
begin

text \<open>
  What the managed-wallet worker promises: the wallets it registers are those whose keys sign later,
  its loop paces itself (an interpretation of \<open>paced_poller\<close>), work that a scan left behind is
  retried after a delay, and one scan hands every row to the processor.
\<close>

subsection \<open>Every iteration\<close>

lemma wallet_cursor_nonempty:
  "get_pending_wallets L outcome = Inr (reqs, next_cursor) \<Longrightarrow> next_cursor \<noteq> Some []"
  by (auto simp: get_pending_wallets_def Let_def split: sum.splits option.splits if_splits)

definition wallet_next ::
    "text_lib \<Rightarrow> wallet_input \<Rightarrow> wallet_state \<times> trigger_state \<Rightarrow> (wallet_state \<times> trigger_state) option"
  where
  "wallet_next L i st = (case snd (wallet_iteration L i st) of Inl e \<Rightarrow> None | Inr st' \<Rightarrow> Some st')"

fun is_wallet_delay :: "wallet_action \<Rightarrow> bool" where
  "is_wallet_delay (WRetryDelay d) = True"
| "is_wallet_delay a = False"

fun sends_batch :: "wallet_action \<Rightarrow> bool" where
  "sends_batch (SendBatch requests) = True"
| "sends_batch a = False"

text \<open>An iteration is hasty when it registered no wallet and the next request follows at once.\<close>

definition wallet_hasty :: "text_lib \<Rightarrow> wallet_input \<Rightarrow> wallet_state \<times> trigger_state \<Rightarrow> bool" where
  "wallet_hasty L i st =
     (case wallet_iteration L i st of
        (actions, Inl e) \<Rightarrow> False
      | (actions, Inr (s', t')) \<Rightarrow>
          w_fetch_now s' \<and> \<not> list_ex is_wallet_delay actions
          \<and> \<not> (list_ex sends_batch actions \<and> wi_fate i = Acked WalletsCompleted))"

definition wallet_inv :: "wallet_state \<times> trigger_state \<Rightarrow> bool" where
  "wallet_inv = (\<lambda>(s, t). trigger_inv t \<and> unat (empty_pages s) \<le> 20
     \<and> (\<not> restart_after_scan s \<longrightarrow> empty_pages s = 0) \<and> w_cursor s \<noteq> Some []
     \<and> (if w_cursor s = None then empty_pages s = 0 else w_fetch_now s))"

definition wallet_rank :: "wallet_state \<times> trigger_state \<Rightarrow> nat" where
  "wallet_rank = (\<lambda>(s, t).
     if restart_after_scan s then 20 - unat (empty_pages s)
     else if w_cursor s \<noteq> None then 21 else 20)"

lemmas wallet_step_defs = apply_step_def wallet_delay_def wallet_step_def empty_scan_step_def
  send_batch_and_wait_def

lemma wallet_finished_inv:
  "\<lbrakk>finish_batch c t = (t', d); trigger_inv t\<rbrakk> \<Longrightarrow> trigger_inv t'"
  "trigger_inv t \<Longrightarrow> trigger_inv (finish_empty_lookup t)"
  using trigger.invar_finish [of t c] trigger.invar_empty [of t] by auto

text \<open>The five ways an iteration that goes on ends.\<close>

lemma handle_wallet_page_cases:
  assumes "handle_wallet_page i fresh response s t = (actions, Inr (s', t'))"
  obtains
    (failed) e where "response = Inl e" "t' = finish_empty_lookup t"
      "(actions, s') = wallet_delay (wi_jitter i)
         (s\<lparr>w_cursor := None, restart_after_scan := False, empty_pages := 0\<rparr>)"
  | (drain) next_cursor where "response = Inr ([], next_cursor)"
      "should_continue_empty_drain (w_cursor s) next_cursor (empty_pages s)" "actions = []" "t' = t"
      "s' = s\<lparr>empty_pages := empty_pages s + 1, w_cursor := next_cursor,
              restart_after_scan := True, w_fetch_now := True\<rparr>"
  | (ended) next_cursor deferred where "response = Inr ([], next_cursor)"
      "\<not> should_continue_empty_drain (w_cursor s) next_cursor (empty_pages s)"
      "(if fresh then (finish_empty_lookup t, False) else finish_batch True t) = (t', deferred)"
      "(actions, s') = apply_step (wi_jitter i)
         (empty_scan_step (next_cursor \<noteq> None \<or> restart_after_scan s) deferred) (s\<lparr>empty_pages := 0\<rparr>)"
  | (sent) requests next_cursor outcome deferred pause where
      "response = Inr (requests, next_cursor)" "requests \<noteq> []" "wi_fate i = Acked outcome"
      "finish_batch (next_cursor = None) t = (t', deferred)" "actions = SendBatch requests # pause"
      "(pause, s') = apply_step (wi_jitter i)
         (wallet_step outcome next_cursor (restart_after_scan s) deferred) (s\<lparr>empty_pages := 0\<rparr>)"
proof (cases response)
  case (Inl e)
  then show thesis using assms failed
    by (auto simp: handle_wallet_page_def split: prod.splits)
next
  case (Inr r)
  obtain requests next_cursor where r: "r = (requests, next_cursor)" by (cases r)
  show thesis
  proof (cases "requests = []")
    case True
    then show thesis using assms drain ended Inr r
      by (auto simp: handle_wallet_page_def Let_def split: prod.splits if_splits)
  next
    case False
    then show thesis using assms sent Inr r
      by (cases "wi_fate i")
        (auto simp: handle_wallet_page_def send_batch_and_wait_def Let_def split: prod.splits)
  qed
qed

lemma handle_wallet_page_inv:
  assumes "handle_wallet_page i fresh (get_pending_wallets L page) s t = (actions, Inr (s', t'))"
    and "wallet_inv (s, t)"
  shows "wallet_inv (s', t')"
  using assms(1)
proof (cases rule: handle_wallet_page_cases)
  case (failed e)
  then show ?thesis using assms(2) wallet_finished_inv by (auto simp: wallet_inv_def wallet_delay_def)
next
  case (drain next_cursor)
  then show ?thesis using assms(2) drain_step [OF drain(2)] by (auto simp: wallet_inv_def)
next
  case (ended next_cursor deferred)
  have "trigger_inv t'"
    using ended(3) assms(2) wallet_finished_inv by (auto simp: wallet_inv_def split: if_splits)
  then show ?thesis using ended(4) by (auto simp: wallet_inv_def wallet_step_defs split: if_splits)
next
  case (sent requests next_cursor outcome deferred pause)
  have "trigger_inv t'" "next_cursor \<noteq> Some []"
    using sent(1,4) assms(2) wallet_finished_inv wallet_cursor_nonempty by (auto simp: wallet_inv_def)
  then show ?thesis using sent(6)
    by (cases outcome) (auto simp: wallet_inv_def wallet_step_defs split: if_splits)
qed

lemma handle_wallet_page_rank:
  assumes "handle_wallet_page i (w_cursor s = None) (get_pending_wallets L page) s t
      = (actions, Inr (s', t'))"
    and "wallet_inv (s, t)" and "w_fetch_now s'" and "\<not> list_ex is_wallet_delay actions"
    and "\<not> (list_ex sends_batch actions \<and> wi_fate i = Acked WalletsCompleted)"
  shows "wallet_rank (s', t') < wallet_rank (s, t)"
  using assms(1)
proof (cases rule: handle_wallet_page_cases)
  case (failed e)
  then show ?thesis using assms(4) by (simp add: wallet_delay_def)
next
  case (drain next_cursor)
  then show ?thesis using assms(2) drain_step [OF drain(2)]
    by (auto simp: wallet_inv_def wallet_rank_def)
next
  case (ended next_cursor deferred)
  have quiet: "\<not> (next_cursor \<noteq> None \<or> restart_after_scan s)"
    using ended(4) assms(4) by (auto simp: wallet_step_defs split: if_splits)
  then have "w_fetch_now s' = deferred" "w_cursor s' = None" "\<not> restart_after_scan s'"
    using ended(4) by (simp_all add: wallet_step_defs)
  moreover have "w_cursor s \<noteq> None" using ended(3) assms(3) calculation by (cases "w_cursor s") auto
  ultimately show ?thesis using quiet by (auto simp: wallet_rank_def)
next
  case (sent requests next_cursor outcome deferred pause)
  then have "outcome = WalletsFailed" using assms(5) by (cases outcome) auto
  then show ?thesis using sent assms(4) by (simp add: wallet_step_defs)
qed

text \<open>The state in which an iteration meets its page.\<close>

definition wallet_trigger :: "wallet_input \<Rightarrow> wallet_state \<times> trigger_state \<Rightarrow> trigger_state" where
  "wallet_trigger i = (\<lambda>(s, t).
     fold deliver (wi_during i)
       (if w_cursor s = None then begin_fresh_lookup (fold deliver (wi_before i) t)
        else fold deliver (wi_before i) t))"

lemma wallet_iteration_eq:
  "wallet_iteration L i (s, t) =
     (let (rest, r) = handle_wallet_page i (w_cursor s = None) (get_pending_wallets L (wi_page i)) s
                        (wallet_trigger i (s, t))
      in ((if w_fetch_now s then [] else [WAwaitWork]) @ WFetchPage (w_cursor s) # rest, r))"
  by (simp add: wallet_iteration_def wallet_trigger_def Let_def split: prod.split)

lemma wallet_iterationE:
  assumes "wallet_iteration L i (s, t) = (actions, r)"
  obtains rest where
    "actions = (if w_fetch_now s then [] else [WAwaitWork]) @ WFetchPage (w_cursor s) # rest"
    "handle_wallet_page i (w_cursor s = None) (get_pending_wallets L (wi_page i)) s
       (wallet_trigger i (s, t)) = (rest, r)"
  using assms that by (auto simp: wallet_iteration_eq Let_def split: prod.splits)

lemma wallet_inv_prepare: "wallet_inv (s, t) \<Longrightarrow> wallet_inv (s, wallet_trigger i (s, t))"
  by (auto simp: wallet_inv_def wallet_trigger_def intro!: trigger.invar_notifies trigger.invar_begin)

lemma wallet_next_Some:
  "wallet_next L i st = Some st' \<longleftrightarrow> (\<exists>actions. wallet_iteration L i st = (actions, Inr st'))"
  by (cases "wallet_iteration L i st") (auto simp: wallet_next_def split: sum.splits)

interpretation wallet_poller: paced_poller "wallet_next L" "wallet_hasty L" wallet_inv wallet_rank 21
  for L
proof unfold_locales
  fix st st' :: "wallet_state \<times> trigger_state" and i
  assume inv: "wallet_inv st" and step: "wallet_next L i st = Some st'"
  obtain s t s' t' where st: "st = (s, t)" "st' = (s', t')" by (cases st, cases st')
  from step obtain actions where it: "wallet_iteration L i (s, t) = (actions, Inr (s', t'))"
    by (auto simp: wallet_next_Some st)
  from it obtain rest where
    actions: "actions = (if w_fetch_now s then [] else [WAwaitWork]) @ WFetchPage (w_cursor s) # rest"
    and resp: "handle_wallet_page i (w_cursor s = None) (get_pending_wallets L (wi_page i)) s
      (wallet_trigger i (s, t)) = (rest, Inr (s', t'))"
    by (rule wallet_iterationE)
  have inv1: "wallet_inv (s, wallet_trigger i (s, t))" using inv [unfolded st] by (rule wallet_inv_prepare)
  show "wallet_inv st'" unfolding st using handle_wallet_page_inv [OF resp inv1] .
  assume "wallet_hasty L i st"
  then have "w_fetch_now s'" "\<not> list_ex is_wallet_delay rest"
      "\<not> (list_ex sends_batch rest \<and> wi_fate i = Acked WalletsCompleted)"
    by (auto simp: wallet_hasty_def st it actions split: if_splits)
  then have "wallet_rank (s', t') < wallet_rank (s, wallet_trigger i (s, t))"
    by (rule handle_wallet_page_rank [OF resp inv1])
  then show "wallet_rank st' < wallet_rank st" by (simp add: wallet_rank_def st)
next
  fix st :: "wallet_state \<times> trigger_state"
  show "wallet_rank st \<le> 21" by (auto simp: wallet_rank_def split: prod.splits)
qed

subsection \<open>A scan\<close>

text \<open>The requests that a list of actions hands to the processor, and one iteration in those terms.\<close>

fun handed_over :: "wallet_action list \<Rightarrow> derive_wallet_request list" where
  "handed_over [] = []"
| "handed_over (SendBatch requests # actions) = requests @ handed_over actions"
| "handed_over (a # actions) = handed_over actions"

lemma handed_over_append [simp]: "handed_over (xs @ ys) = handed_over xs @ handed_over ys"
  by (induction xs rule: handed_over.induct) auto

definition wallet_scan_step ::
    "text_lib \<Rightarrow> wallet_input \<Rightarrow> wallet_state \<times> trigger_state
     \<Rightarrow> (derive_wallet_request list \<times> wallet_state \<times> trigger_state) option" where
  "wallet_scan_step L i st =
     (case wallet_iteration L i st of
        (actions, Inl e) \<Rightarrow> None
      | (actions, Inr st') \<Rightarrow> Some (handed_over actions, st'))"

lemma scan_run_wallet:
  "scan_run (wallet_scan_step L) inputs st =
     (case start_wallet_polling L inputs st of
        (actions, Inl e) \<Rightarrow> None
      | (actions, Inr st') \<Rightarrow> Some (handed_over actions, st'))"
  by (induction inputs arbitrary: st)
    (auto simp: wallet_scan_step_def Let_def split: prod.splits sum.splits)

definition wallet_serves ::
    "text_lib \<Rightarrow> wallet_input \<Rightarrow> derive_wallet_request list \<times> string option \<Rightarrow> bool" where
  "wallet_serves L i page \<longleftrightarrow>
     get_pending_wallets L (wi_page i) = Inr page \<and> wi_fate i \<notin> {ReceiverDropped, BatchAckDropped}"

interpretation wallet_scan: page_scanner "wallet_scan_step L" "\<lambda>st. w_cursor (fst st)"
  "\<lambda>st. unat (empty_pages (fst st))" "wallet_serves L" "\<lambda>i requests. requests = []"
  for L
proof unfold_locales
  fix i requests next_cursor and st :: "wallet_state \<times> trigger_state"
  obtain s t where st: "st = (s, t)" by (cases st)
  assume serves: "wallet_serves L i (requests, next_cursor)"
    and fresh: "next_cursor \<noteq> Some []" "next_cursor \<noteq> None \<longrightarrow> next_cursor \<noteq> w_cursor (fst st)"
    and room: "unat (empty_pages (fst st)) + (if requests = [] then 1 else 0) \<le> 20"
  obtain rest r where resp: "handle_wallet_page i (w_cursor s = None) (Inr (requests, next_cursor)) s
      (wallet_trigger i (s, t)) = (rest, r)"
    by (metis surj_pair)
  have "\<exists>s' t'. r = Inr (s', t') \<and> handed_over rest = requests \<and> w_cursor s' = next_cursor
      \<and> unat (empty_pages s') \<le> unat (empty_pages s) + (if requests = [] then 1 else 0)"
  proof (cases "requests = []")
    case True
    show ?thesis
    proof (cases "next_cursor = None")
      case None: True
      with True resp show ?thesis
        by (auto simp: handle_wallet_page_def should_continue_empty_drain_def wallet_step_defs Let_def
            split: prod.splits if_splits)
    next
      case False
      then have go: "should_continue_empty_drain (w_cursor s) next_cursor (empty_pages s)"
        using fresh room True st by (intro drain_continuesI) auto
      with True resp drain_step(1) [OF go] show ?thesis
        by (auto simp: handle_wallet_page_def)
    qed
  next
    case False
    obtain outcome where "wi_fate i = Acked outcome"
      using serves by (cases "wi_fate i") (auto simp: wallet_serves_def)
    with False resp show ?thesis
      by (cases outcome)
        (auto simp: handle_wallet_page_def wallet_step_defs Let_def split: prod.splits if_splits)
  qed
  moreover have "get_pending_wallets L (wi_page i) = Inr (requests, next_cursor)"
    using serves by (simp add: wallet_serves_def)
  ultimately show "\<exists>st'. wallet_scan_step L i st = Some (requests, st')
      \<and> w_cursor (fst st') = next_cursor
      \<and> unat (empty_pages (fst st')) \<le> unat (empty_pages (fst st)) + (if requests = [] then 1 else 0)"
    using resp by (auto simp: wallet_scan_step_def wallet_iteration_eq st Let_def)
qed

lemma wallet_inv_initial: "wallet_inv (initial_wallet, new_trigger)"
  by (simp add: wallet_inv_def initial_wallet_def)

subsection \<open>Properties of the worker\<close>

text \<open>
  C24: Registration and signing agree. For every request of a batch, in order, the platform is sent
  the public key of the very pair that transactions for that external id are signed with, with that
  pair's signature over a message naming the daemon's own key; the batch is completed exactly when the
  platform answers \<open>true\<close>.
\<close>

theorem registered_wallet_signs:
  "fst (derive_wallets L lib answer keypair requests) =
     map (\<lambda>r. let signer = derive_signer (derive_soft lib) keypair (Some (dw_external_id r))
              in \<lparr>pw_external_id = dw_external_id r,
                  pw_public_key = ''0x'' @ hex_encode lib (public_key_of lib signer),
                  pw_signed_message = ''0x'' @ hex_encode lib (sign_message lib signer
                    (string_bytes (''EnjinPlatform.VerifyManagedWallet(0x''
                       @ hex_encode lib (public_key_of lib keypair) @ '')'')))\<rparr>) requests
   \<and> (snd (derive_wallets L lib answer keypair requests) = WalletsCompleted \<longleftrightarrow>
        (\<exists>r. answer = Responded 200 (Inr r) \<and> resp_data r = Some True))"
proof -
  have "derive_signer (derive_soft lib) keypair (Some eid)
      = derive_soft lib keypair (derive_junction eid)" for eid
    by (auto simp: derive_signer_def derive_junction_def split: option.splits)
  moreover have "populate_managed_wallets L answer ws = Inr () \<longleftrightarrow>
      (\<exists>r. answer = Responded 200 (Inr r) \<and> resp_data r = Some True)" for ws
    by (simp add: populate_ok_iff execute_query_Ok_iff)
  ultimately show ?thesis
    by (auto simp: derive_wallets_def derive_wallet_def wallet_message_def Let_def split: sum.splits)
qed

text \<open>
  The wallet loop paces itself too: at most 21 iterations in a row register nothing and go on to
  the next request without a pause, whatever the platform, the processor and the event source do.
\<close>

lemma wallet_poller_never_storms:
  assumes "poll_run (wallet_next L) before (initial_wallet, new_trigger) = Some st"
    and "hasty_run (wallet_next L) (wallet_hasty L) inputs st"
  shows "length inputs \<le> 21"
  using wallet_inv_initial assms by (rule wallet_poller.hasty_run_bounded)

text \<open>A scan of three pages, the second of which holds only a row without an external id.\<close>

definition sample_wallet_input :: "string option list \<Rightarrow> string option \<Rightarrow> wallet_outcome \<Rightarrow> wallet_input"
  where
  "sample_wallet_input ids next_cursor outcome =
     \<lparr>wi_before = [],
      wi_page = Responded 200 (Inr \<lparr>resp_data = Some (Some
        \<lparr>wp_data = map (\<lambda>e. \<lparr>row_external_id = e\<rparr>) ids, wp_next_cursor = next_cursor\<rparr>),
        resp_errors = None\<rparr>),
      wi_during = [], wi_fate = Acked outcome, wi_jitter = 100\<rparr>"

definition sample_wallet_scan :: "wallet_input list" where
  "sample_wallet_scan =
     [sample_wallet_input [Some ''7'', Some ''bob''] (Some ''p'') WalletsFailed,
      sample_wallet_input [None] (Some ''q'') WalletsCompleted,
      sample_wallet_input [None, Some ''8''] None WalletsCompleted]"

lemma wallet_poller_never_storms_witness:
  "length [sample_wallet_input [None] (Some ''q'') WalletsCompleted] \<le> 21"
proof (rule wallet_poller_never_storms)
  show "poll_run (wallet_next sample_text_lib) [] (initial_wallet, new_trigger)
      = Some (initial_wallet, new_trigger)"
    by simp
  show "hasty_run (wallet_next sample_text_lib) (wallet_hasty sample_text_lib)
      [sample_wallet_input [None] (Some ''q'') WalletsCompleted] (initial_wallet, new_trigger)"
    by code_simp
qed

text \<open>
  A failed batch or a scan that must be restarted is always paced. If the scan is marked, or the
  batch of this page is not taken by the platform, then either the scan goes on with the mark and the
  failure count kept, or the next request comes after the delay for the failures so far.
\<close>

lemma wallet_restart_is_delayed:
  assumes "wallet_iteration L i (s, t) = (actions, Inr (s', t'))"
    and "restart_after_scan s \<or> list_ex sends_batch actions \<and> wi_fate i \<noteq> Acked WalletsCompleted"
  shows "(w_cursor s' \<noteq> None \<and> restart_after_scan s' \<and> w_failure_count s' = w_failure_count s)
       \<or> (WRetryDelay (jittered_exponential_delay (wi_jitter i) (w_failure_count s)) \<in> set actions
          \<and> w_fetch_now s' \<and> w_failure_count s' = saturating_add (w_failure_count s) 1)"
proof -
  from assms(1) obtain rest where
    actions: "actions = (if w_fetch_now s then [] else [WAwaitWork]) @ WFetchPage (w_cursor s) # rest"
    and resp: "handle_wallet_page i (w_cursor s = None) (get_pending_wallets L (wi_page i)) s
      (wallet_trigger i (s, t)) = (rest, Inr (s', t'))"
    by (rule wallet_iterationE)
  have marked: "restart_after_scan s \<or> list_ex sends_batch rest \<and> wi_fate i \<noteq> Acked WalletsCompleted"
    using assms(2) actions by (auto split: if_splits)
  show ?thesis
    using resp
  proof (cases rule: handle_wallet_page_cases)
    case (failed e)
    then show ?thesis by (simp add: wallet_delay_def actions)
  next
    case (drain next_cursor)
    then show ?thesis using drain_step(3) [OF drain(2)] by simp
  next
    case (ended next_cursor deferred)
    then have "restart_after_scan s"
      using marked by (auto simp: wallet_step_defs split: if_splits)
    then show ?thesis using ended(4) by (simp add: wallet_step_defs actions)
  next
    case (sent requests next_cursor outcome deferred pause)
    then show ?thesis using marked actions
      by (cases outcome) (auto simp: wallet_step_defs split: if_splits)
  qed
qed

text \<open>
  A scan hands over everything. When the loop starts a scan and the platform answers with a chain
  of pages, every row that can be converted reaches the processor, once and in the order of the
  pages, and the scan then starts afresh: pages whose rows cannot be converted (20 at most) do not
  hide later pages, and neither does a batch that the platform refuses.
\<close>

lemma wallet_scan_complete:
  assumes "poll_run (wallet_next L) before (initial_wallet, new_trigger) = Some (s, t)"
    and "w_cursor s = None"
    and "list_all2 (wallet_serves L) inputs pages" and "page_chain None pages"
    and "length (filter (\<lambda>page. fst page = []) pages) \<le> 20"
  shows "\<exists>actions s' t'. start_wallet_polling L inputs (s, t) = (actions, Inr (s', t'))
           \<and> handed_over actions = concat (map fst pages) \<and> w_cursor s' = None"
proof -
  have "wallet_inv (s, t)"
    using wallet_poller.invar_run [OF wallet_inv_initial assms(1)] .
  then have "unat (empty_pages s) = 0" using assms(2) by (simp add: wallet_inv_def)
  moreover have "barren_count (\<lambda>i requests. requests = []) inputs pages
      = length (filter (\<lambda>page. fst page = []) pages)"
    using assms(3) by (induction rule: list_all2_induct) auto
  ultimately have "\<exists>st'. scan_run (wallet_scan_step L) inputs (s, t) = Some (concat (map fst pages), st')
      \<and> w_cursor (fst st') = None"
    using assms(2-5) by (intro wallet_scan.scan_hands_over_every_page) auto
  then show ?thesis
    by (auto simp: scan_run_wallet split: prod.splits sum.splits)
qed

lemma wallet_scan_complete_witness:
  "\<exists>actions s' t'. start_wallet_polling sample_text_lib sample_wallet_scan (initial_wallet, new_trigger)
       = (actions, Inr (s', t'))
     \<and> handed_over actions = [\<lparr>dw_external_id = ''7''\<rparr>, \<lparr>dw_external_id = ''bob''\<rparr>,
                               \<lparr>dw_external_id = ''8''\<rparr>]"
proof -
  define pages where "pages = [([\<lparr>dw_external_id = ''7''\<rparr>, \<lparr>dw_external_id = ''bob''\<rparr>], Some ''p''),
    ([], Some ''q''), ([\<lparr>dw_external_id = ''8''\<rparr>], None)]"
  have "list_all2 (wallet_serves sample_text_lib) sample_wallet_scan pages"
    unfolding pages_def by code_simp
  moreover have "page_chain None pages" "length (filter (\<lambda>page. fst page = []) pages) \<le> 20"
    "concat (map fst pages) = [\<lparr>dw_external_id = ''7''\<rparr>, \<lparr>dw_external_id = ''bob''\<rparr>,
                               \<lparr>dw_external_id = ''8''\<rparr>]"
    by (simp_all add: pages_def)
  moreover have "poll_run (wallet_next sample_text_lib) [] (initial_wallet, new_trigger)
      = Some (initial_wallet, new_trigger)" "w_cursor initial_wallet = None"
    by (simp_all add: initial_wallet_def)
  ultimately show ?thesis using wallet_scan_complete by metis
qed

lemma wallet_restart_is_delayed_witness:
  "\<exists>actions s' t'. wallet_iteration sample_text_lib (hd sample_wallet_scan) (initial_wallet, new_trigger)
       = (actions, Inr (s', t'))
     \<and> WRetryDelay (jittered_exponential_delay 100 0) \<in> set actions"
proof -
  let ?run = "wallet_iteration sample_text_lib (hd sample_wallet_scan) (initial_wallet, new_trigger)"
  have "case ?run of (actions, Inl e) \<Rightarrow> False
      | (actions, Inr (s', t')) \<Rightarrow> list_ex sends_batch actions \<and> w_failure_count s' = 1"
    by (simp add: sample_wallet_scan_def sample_wallet_input_def initial_wallet_def wallet_iteration_def
        handle_wallet_page_def wallet_step_defs get_pending_wallets_def execute_query_def
        execute_query_inner_def derive_wallet_request_try_from_def saturating_add_def Let_def
        split: prod.splits)
  then obtain actions s' t' where it: "?run = (actions, Inr (s', t'))"
    "list_ex sends_batch actions" "w_failure_count s' = 1"
    by (cases ?run) (auto split: sum.splits)
  moreover have "wi_fate (hd sample_wallet_scan) = Acked WalletsFailed"
    "wi_jitter (hd sample_wallet_scan) = 100" "w_failure_count initial_wallet = 0"
    by (simp_all add: sample_wallet_scan_def sample_wallet_input_def initial_wallet_def)
  ultimately show ?thesis using wallet_restart_is_delayed [OF it(1)] by auto
qed

end
