(* ===== verification/Wallet_Service.thy ===== *)
theory Wallet_Service
  imports Notices Wallet_Polling
begin

text \<open>
  The managed-wallet worker as a whole: the loop and the processor of \<open>Wallet_Worker\<close>, composed as in
  \<open>Acked_Loop\<close>. Deriving and registering a batch has no way to panic, so the loop never stops, and a
  scan registers every wallet it shows.
\<close>

subsection \<open>The composition\<close>

definition wallet_poll ::
    "text_lib \<Rightarrow> batch_fate \<Rightarrow> wallet_input \<Rightarrow> wallet_state \<times> trigger_state \<Rightarrow> wallet_result" where
  "wallet_poll L fate i st = wallet_iteration L (i\<lparr>wi_fate := fate\<rparr>) st"

fun batches_in :: "wallet_action list \<Rightarrow> derive_wallet_request list list" where
  "batches_in [] = []"
| "batches_in (SendBatch requests # actions) = requests # batches_in actions"
| "batches_in (a # actions) = batches_in actions"

type_synonym wallet_report = "populate_managed_wallet_input list \<times> wallet_outcome"

fun batch_fate_of :: "dispatch_error + wallet_report \<Rightarrow> batch_fate" where
  "batch_fate_of (Inl ReceiverGone) = ReceiverDropped"
| "batch_fate_of (Inl AckGone) = BatchAckDropped"
| "batch_fate_of (Inr (wallets, outcome)) = Acked outcome"

fun wallet_stop :: "dispatch_error \<Rightarrow> string" where
  "wallet_stop ReceiverGone = ''managed-wallet processor receiver dropped''"
| "wallet_stop AckGone = ''managed-wallet processor dropped batch acknowledgement''"

text \<open>The processor keeps no state; it meets the platform's answer to the registration.\<close>

definition register_batch ::
    "text_lib \<Rightarrow> ('meta, 'cab, 'tx, 'kp) chain_lib \<Rightarrow> 'kp \<Rightarrow> bool http_outcome
     \<Rightarrow> derive_wallet_request list \<Rightarrow> unit \<Rightarrow> (unit \<times> wallet_report) exec" where
  "register_batch L lib keypair answer requests u = Return ((), derive_wallets L lib answer keypair requests)"

definition wallet_service ::
    "text_lib \<Rightarrow> ('meta, 'cab, 'tx, 'kp) chain_lib \<Rightarrow> 'kp \<Rightarrow> (wallet_input \<times> bool http_outcome) list
     \<Rightarrow> (wallet_state \<times> trigger_state) \<times> unit option
     \<Rightarrow> (batch_fate \<times> wallet_action list \<times> wallet_report list) list
        \<times> (wallet_state \<times> trigger_state) result \<times> unit option" where
  "wallet_service L lib keypair =
     acked_run (wallet_poll L) batches_in batch_fate_of (register_batch L lib keypair)"

subsection \<open>What an iteration does with its acknowledgement\<close>

lemma batches_in_append [simp]: "batches_in (xs @ ys) = batches_in xs @ batches_in ys"
  by (induction xs rule: batches_in.induct) auto

lemma no_batch_in_pause [simp]:
  "batches_in (fst (wallet_delay j s)) = []" "batches_in (fst (apply_step j step s)) = []"
  by (simp_all add: wallet_delay_def apply_step_def split: wallet_step.split)

abbreviation wallet_reads_ack :: "(batch_fate \<Rightarrow> wallet_result) \<Rightarrow> bool" where
  "wallet_reads_ack \<equiv> reads_ack batches_in batch_fate_of wallet_stop"

lemma sent_batch_reads_ack:
  assumes "requests \<noteq> []"
  shows "wallet_reads_ack (\<lambda>fate. handle_wallet_page (i\<lparr>wi_fate := fate\<rparr>) fresh (Inr (requests, next_cursor)) s t)"
    (is "wallet_reads_ack ?f")
proof (rule read)
  show "batches_in (fst (?f fate)) = [requests]" for fate
    using assms by (cases fate)
      (simp_all add: handle_wallet_page_def send_batch_and_wait_def Let_def split_def)
  show "snd (?f (batch_fate_of (Inl e))) = Inl (wallet_stop e)" for e
    using assms by (cases e) (simp_all add: handle_wallet_page_def send_batch_and_wait_def)
  show "\<exists>st. snd (?f (batch_fate_of (Inr report))) = Inr st" for report
    using assms by (cases report)
      (simp add: handle_wallet_page_def send_batch_and_wait_def Let_def split_def)
qed

lemma handle_wallet_page_reads_ack:
  "wallet_reads_ack (\<lambda>fate. handle_wallet_page (i\<lparr>wi_fate := fate\<rparr>) fresh response s t)"
proof (cases response)
  case (Inl e)
  then show ?thesis by (simp add: handle_wallet_page_def Let_def split_def unread_const)
next
  case (Inr page)
  obtain requests next_cursor where page: "page = (requests, next_cursor)" by (cases page)
  show ?thesis
  proof (cases "requests = []")
    case True
    then show ?thesis
      by (cases "should_continue_empty_drain (w_cursor s) next_cursor (empty_pages s)"; cases fresh)
        (simp_all add: handle_wallet_page_def Let_def split_def unread_const Inr page)
  next
    case False
    then show ?thesis using sent_batch_reads_ack by (simp add: Inr page)
  qed
qed

interpretation wallet_acks: acked_poller "wallet_poll L" batches_in batch_fate_of wallet_stop
  for L
proof unfold_locales
  fix i and st :: "wallet_state \<times> trigger_state"
  obtain s t where st: "st = (s, t)" by (cases st)
  let ?f = "\<lambda>fate. handle_wallet_page (i\<lparr>wi_fate := fate\<rparr>) (w_cursor s = None)
    (get_pending_wallets L (wi_page i)) s (wallet_trigger i st)"
  let ?before = "(if w_fetch_now s then [] else [WAwaitWork]) @ [WFetchPage (w_cursor s)]"
  have form: "wallet_poll L fate i st = (?before @ fst (?f fate), snd (?f fate))" for fate
    by (simp add: wallet_poll_def wallet_iteration_eq wallet_trigger_def st Let_def split_def)
  show "wallet_reads_ack (\<lambda>fate. wallet_poll L fate i st)"
    by (rule reads_ack_prefix [where f = ?f and before = ?before])
      (simp_all only: handle_wallet_page_reads_ack form, simp)
qed simp_all

lemma loop_run_start_wallet_polling:
  "loop_run (wallet_poll L) (zip fates inputs) st =
     start_wallet_polling L (map2 (\<lambda>fate i. i\<lparr>wi_fate := fate\<rparr>) fates inputs) st"
proof (induction fates inputs arbitrary: st rule: list_induct2')
  case (4 k fates i inputs)
  then show ?case
    by (cases "wallet_poll L k i st") (auto simp: wallet_poll_def Let_def split: sum.split)
qed simp_all

lemmas wallet_run_composed =
  wallet_acks.run_composed
    [where L = L and handle = "register_batch L lib keypair" for L lib keypair, folded wallet_service_def,
     unfolded wallet_acks.composed_run_def loop_run_start_wallet_polling]

subsection \<open>What an iteration does with its notifications\<close>

fun first_wallet_fetch :: "wallet_action list \<Rightarrow> string option option" where
  "first_wallet_fetch [] = None"
| "first_wallet_fetch (WFetchPage c # actions) = Some c"
| "first_wallet_fetch (a # actions) = first_wallet_fetch actions"

lemma handle_wallet_page_outstanding:
  assumes "handle_wallet_page i fresh response s t = (actions, Inr (s', t'))"
  shows "outstanding t' \<longleftrightarrow> outstanding t"
proof -
  have finished: "outstanding t1 \<longleftrightarrow> outstanding t" if "finish_batch c t = (t1, d)" for c t1 d
    using outstanding_step(4) [of c t] that by simp
  show ?thesis
    using assms by (cases rule: handle_wallet_page_cases) (auto split: if_splits dest: finished)
qed

lemma wallet_trigger_outstanding:
  "trigger_inv t \<Longrightarrow> outstanding (wallet_trigger i (s, t)) \<longleftrightarrow>
     wi_during i \<noteq> [] \<or> w_cursor s \<noteq> None \<and> (wi_before i \<noteq> [] \<or> outstanding t)"
  by (simp add: wallet_trigger_def trigger.pending_notifies trigger.invar_notifies trigger.invar_begin)

interpretation wallet_notices: notified_poller "wallet_poll L" wi_before wi_during
  "\<lambda>actions. first_wallet_fetch actions = Some None" snd wallet_inv
  for L
proof unfold_locales
  show "trigger_inv (snd st)" if "wallet_inv st" for st
    using that by (cases st) (simp add: wallet_inv_def)
next
  fix k i actions and st st' :: "wallet_state \<times> trigger_state"
  assume inv: "wallet_inv st" and "wallet_poll L k i st = (actions, Inr st')"
  moreover obtain s t s' t' where st: "st = (s, t)" "st' = (s', t')" by (cases st, cases st')
  ultimately have it: "wallet_iteration L (i\<lparr>wi_fate := k\<rparr>) (s, t) = (actions, Inr (s', t'))"
    by (simp add: wallet_poll_def)
  have "wallet_next L (i\<lparr>wi_fate := k\<rparr>) (s, t) = Some (s', t')"
    using it by (auto simp: wallet_next_Some)
  then show "wallet_inv st'"
    unfolding st by (rule wallet_poller.invar_poll [OF inv [unfolded st]])
  from it obtain rest where
    "actions = (if w_fetch_now s then [] else [WAwaitWork]) @ WFetchPage (w_cursor s) # rest"
    and resp: "handle_wallet_page (i\<lparr>wi_fate := k\<rparr>) (w_cursor s = None)
        (get_pending_wallets L (wi_page (i\<lparr>wi_fate := k\<rparr>))) s (wallet_trigger (i\<lparr>wi_fate := k\<rparr>) (s, t))
      = (rest, Inr (s', t'))"
    by (rule wallet_iterationE)
  from this(1) have "first_wallet_fetch actions = Some (w_cursor s)" by simp
  moreover have "trigger_inv t" using inv by (simp add: st wallet_inv_def)
  ultimately show "outstanding (snd st') \<longleftrightarrow> wi_during i \<noteq> []
      \<or> \<not> first_wallet_fetch actions = Some None \<and> (wi_before i \<noteq> [] \<or> outstanding (snd st))"
    using handle_wallet_page_outstanding [OF resp] by (simp add: st wallet_trigger_outstanding)
qed

subsection \<open>Properties\<close>

lemma register_batches:
  "handle_all (register_batch L lib keypair) batches u =
     Return ((), launch_wallet_scheduler L lib keypair batches)"
  by (induction L lib keypair batches arbitrary: u rule: launch_wallet_scheduler.induct)
    (simp_all add: register_batch_def)

lemma wallet_service_facts:
  assumes "wallet_service L lib keypair xs (st, Some ()) = (log, r, proc)"
  shows "proc = Some ()" "\<exists>st'. r = Inr st'"
    and "run_reports log = launch_wallet_scheduler L lib keypair (sent_ticks batches_in (map snd xs) log)"
    and "map snd (sent_ticks batches_in (map snd xs) log) = batches_in (run_actions log)"
    and "start_wallet_polling L (map2 (\<lambda>fate i. i\<lparr>wi_fate := fate\<rparr>) (read_acks batches_in any log) (map fst xs)) st
       = (run_actions log, r)"
    and "set (read_acks batches_in (Acked WalletsCompleted) log) \<inter> {ReceiverDropped, BatchAckDropped} = {}"
proof -
  note run = wallet_run_composed [OF assms, unfolded register_batches]
  show alive: "proc = Some ()"
    using run by (cases proc) (auto simp: register_batch_def)
  show "\<exists>st'. r = Inr st'"
    "run_reports log = launch_wallet_scheduler L lib keypair (sent_ticks batches_in (map snd xs) log)"
    "map snd (sent_ticks batches_in (map snd xs) log) = batches_in (run_actions log)"
    "start_wallet_polling L (map2 (\<lambda>fate i. i\<lparr>wi_fate := fate\<rparr>) (read_acks batches_in any log) (map fst xs)) st
       = (run_actions log, r)"
    using run alive by auto
  have "map fst (sent_ticks batches_in (map fst log) log)
      = map (\<lambda>report. batch_fate_of (Inr report)) (run_reports log)"
    using run alive by simp
  then have "fst ` set (sent_ticks batches_in (map fst log) log)
      = (\<lambda>report. batch_fate_of (Inr report)) ` set (run_reports log)"
    by (metis set_map)
  moreover have "batch_fate_of (Inr report) \<notin> {ReceiverDropped, BatchAckDropped}" for report
    by (cases report) simp
  ultimately show "set (read_acks batches_in (Acked WalletsCompleted) log)
      \<inter> {ReceiverDropped, BatchAckDropped} = {}"
    using set_read_acks [of batches_in "Acked WalletsCompleted" log] by auto
qed

lemma start_wallet_polling_poll_run:
  "start_wallet_polling L inputs st = (actions, Inr st') \<Longrightarrow> poll_run (wallet_next L) inputs st = Some st'"
  by (induction inputs arbitrary: st actions)
    (auto simp: wallet_next_def Let_def split: prod.splits sum.splits)

lemma handed_over_batches: "handed_over actions = concat (batches_in actions)"
  by (induction actions rule: batches_in.induct) auto

lemma served_wallet_inputs:
  assumes "list_all2 (\<lambda>(i, answer) page. get_pending_wallets L (wi_page i) = Inr page) xs pages"
    and "length fates = length xs" and "set fates \<inter> {ReceiverDropped, BatchAckDropped} = {}"
  shows "list_all2 (wallet_serves L) (map2 (\<lambda>fate i. i\<lparr>wi_fate := fate\<rparr>) fates (map fst xs)) pages"
  using assms
proof (induction xs pages arbitrary: fates rule: list_all2_induct)
  case (Cons x xs page pages)
  then show ?case by (cases fates; cases x) (auto simp: wallet_serves_def)
qed simp

lemma scheduler_wallets:
  "concat (map fst (launch_wallet_scheduler L lib keypair batches)) =
     map (derive_wallet lib keypair) (concat (map snd batches))"
  by (induction L lib keypair batches rule: launch_wallet_scheduler.induct) (simp_all add: derive_wallets_def Let_def)

text \<open>
  C13: A scan registers what it shows. When the worker, after any run, starts a scan and the platform
  answers with a chain of pages (20 of them without a usable row at most), the platform is sent a
  wallet for every row that can be converted, once and in the order of the pages, whether or not it
  takes the batches; the worker is then at the end of the scan, both of its tasks running.
\<close>

theorem wallet_scan_registers_every_row:
  assumes reached: "wallet_service L lib keypair before ((initial_wallet, new_trigger), Some ())
         = (log0, Inr (s, t), proc0)" "w_cursor s = None"
    and run: "wallet_service L lib keypair xs ((s, t), Some ()) = (log, r, proc)"
    and served: "list_all2 (\<lambda>(i, answer) page. get_pending_wallets L (wi_page i) = Inr page) xs pages"
      "page_chain None pages" "length (filter (\<lambda>page. fst page = []) pages) \<le> 20"
  shows "concat (map fst (run_reports log)) = map (derive_wallet lib keypair) (concat (map fst pages))
       \<and> (\<exists>s' t'. r = Inr (s', t') \<and> w_cursor s' = None) \<and> proc = Some ()"
proof -
  let ?inputs = "\<lambda>log xs. map2 (\<lambda>fate i. i\<lparr>wi_fate := fate\<rparr>)
    (read_acks batches_in (Acked WalletsCompleted) log) (map fst xs)"
  note F = wallet_service_facts [OF run]
  have reach: "poll_run (wallet_next L) (?inputs log0 before) (initial_wallet, new_trigger) = Some (s, t)"
    by (rule start_wallet_polling_poll_run) (rule wallet_service_facts(5) [OF reached(1)])
  have "length (read_acks batches_in (Acked WalletsCompleted) log) = length xs"
    using run F(2) length_acked_run unfolding wallet_service_def read_acks_def by fastforce
  note inputs = served_wallet_inputs [OF served(1) this F(6)]
  obtain actions s' t' where scan: "start_wallet_polling L (?inputs log xs) (s, t) = (actions, Inr (s', t'))"
    "handed_over actions = concat (map fst pages)" "w_cursor s' = None"
    using wallet_scan_complete [OF reach reached(2) inputs served(2,3)] by blast
  then have "actions = run_actions log" "r = Inr (s', t')"
    using F(5) [of "Acked WalletsCompleted"] by auto
  with scan F(1,3,4) show ?thesis
    by (simp add: scheduler_wallets handed_over_batches)
qed

lemma wallet_scan_registers_every_row_witness:
  "\<exists>log r proc. wallet_service sample_text_lib sample_lib 3
       [(sample_wallet_input [Some ''7'', None] None WalletsCompleted, SendFailed ''down'')]
       ((initial_wallet, new_trigger), Some ()) = (log, r, proc)
     \<and> map pw_external_id (concat (map fst (run_reports log))) = [''7''] \<and> proc = Some ()"
proof -
  let ?xs = "[(sample_wallet_input [Some ''7'', None] None WalletsCompleted, SendFailed ''down'')]"
  obtain log r proc where run: "wallet_service sample_text_lib sample_lib 3 ?xs
      ((initial_wallet, new_trigger), Some ()) = (log, r, proc)"
    by (metis prod_cases3)
  define pages where "pages = [([\<lparr>dw_external_id = ''7''\<rparr>], None :: string option)]"
  have "list_all2 (\<lambda>(i, answer) page. get_pending_wallets sample_text_lib (wi_page i) = Inr page) ?xs pages"
    unfolding pages_def by code_simp
  moreover have "page_chain None pages" "length (filter (\<lambda>page. fst page = []) pages) \<le> 20"
    "concat (map fst pages) = [\<lparr>dw_external_id = ''7''\<rparr>]"
    by (simp_all add: pages_def)
  moreover have "wallet_service sample_text_lib sample_lib 3 [] ((initial_wallet, new_trigger), Some ())
      = ([], Inr (initial_wallet, new_trigger), Some ())" "w_cursor initial_wallet = None"
    by (simp_all add: wallet_service_def initial_wallet_def)
  ultimately have "concat (map fst (run_reports log)) = [derive_wallet sample_lib 3 \<lparr>dw_external_id = ''7''\<rparr>]
      \<and> proc = Some ()"
    using wallet_scan_registers_every_row [OF _ _ run] by auto
  then show ?thesis using run by (simp add: derive_wallet_def Let_def)
qed

end
