(* ===== verification/Websocket.thy ===== *)
theory Websocket
  imports Work_Trigger Graphql_Query Key_Derivation Rust_Text
begin

text \<open>
  \<open>src/src/websocket.rs\<close>: the Pusher connection. A connection is made and subscribed
  (\<open>connect_and_subscribe\<close>), then read until it fails (\<open>listen\<close>), and made again after a backoff
  (\<open>run\<close>). What the socket delivers, the clock, the result of each send and the random jitter are
  arguments; the functions return what they send and do. JSON texts are read and written by
  third-party code, the record \<open>pusher_lib\<close>. Texts are their UTF-8 bytes.
\<close>

definition DEFAULT_PUSHER_APP_KEY :: string where "DEFAULT_PUSHER_APP_KEY = ''8ab7ab8c519e8f59b635''"
definition DEFAULT_PUSHER_CLUSTER :: string where "DEFAULT_PUSHER_CLUSTER = ''us2''"
definition PONG_TIMEOUT :: duration where "PONG_TIMEOUT = from_secs 30"
definition MIN_STABLE_SUBSCRIPTION :: duration where "MIN_STABLE_SUBSCRIPTION = from_secs 30"
definition MIN_ACTIVITY_TIMEOUT_SECS :: u64 where "MIN_ACTIVITY_TIMEOUT_SECS = 1"
definition MAX_ACTIVITY_TIMEOUT_SECS :: u64 where "MAX_ACTIVITY_TIMEOUT_SECS = 600"

record pusher_frame =
  pf_event :: string
  pf_channel :: "string option"
  pf_data :: json

record connection_established =
  socket_id :: string
  activity_timeout_secs :: u64

record pusher_lib =
  parse_value :: "string \<Rightarrow> json result"
  parse_frame :: "string \<Rightarrow> pusher_frame result"
  parse_established :: "string \<Rightarrow> connection_established result"
  established_from_value :: "json \<Rightarrow> connection_established result"
  json_to_string :: "json \<Rightarrow> string"

subsection \<open>Configuration\<close>

text \<open>The triggers and the status that \<open>PusherConnection\<close> also holds are shared with the pollers; what is
  done to them is among the actions below.\<close>

record pusher_connection =
  app_key :: string
  cluster :: string

definition valid_component :: "string \<Rightarrow> bool" where
  "valid_component value =
     (value \<noteq> [] \<and> list_all (\<lambda>c. is_ascii_alphanumeric c \<or> c = CHR ''-'' \<or> c = CHR ''_'') value)"

definition component_error :: "string \<Rightarrow> string" where
  "component_error name =
     name @ '' may only contain letters, numbers, '' @ [CHR 0x27, CHR ''-'', CHR 0x27]
     @ '' and '' @ [CHR 0x27, CHR ''_'', CHR 0x27]"

text \<open>\<open>var\<close> is the lookup of an environment variable.\<close>

definition from_env :: "(string \<Rightarrow> string option) \<Rightarrow> pusher_connection result" where
  "from_env var =
     (let key = (case var ''PUSHER_APP_KEY'' of Some k \<Rightarrow> k | None \<Rightarrow> DEFAULT_PUSHER_APP_KEY);
          clu = (case var ''PUSHER_CLUSTER'' of Some k \<Rightarrow> k | None \<Rightarrow> DEFAULT_PUSHER_CLUSTER)
      in if \<not> valid_component key
         then Inl (component_error ''PUSHER_APP_KEY'')
         else if \<not> valid_component clu
         then Inl (component_error ''PUSHER_CLUSTER'')
         else Inr \<lparr>app_key = key, cluster = clu\<rparr>)"

definition pusher_url :: "pusher_connection \<Rightarrow> string" where
  "pusher_url c = ''wss://ws-'' @ cluster c @ ''.pusher.com/app/'' @ app_key c @ ''?protocol=7''"

subsection \<open>Error messages\<close>

definition trim_word :: "string \<Rightarrow> string" where
  "trim_word word = trim_matches (\<lambda>c. \<not> is_ascii_alphanumeric c \<and> c \<noteq> CHR '':'') word"

definition looks_secret :: "string \<Rightarrow> bool" where
  "looks_secret word = (CHR '':'' \<in> set (trim_word word) \<and> 32 \<le> length (trim_word word))"

definition redact_pusher_message :: "string \<Rightarrow> string" where
  "redact_pusher_message message =
     join_with '' ''
       (map (\<lambda>word. if looks_secret word then ''[redacted]'' else word) (split_whitespace message))"

definition json_get :: "string \<Rightarrow> json \<Rightarrow> json option" where
  "json_get k v = (case v of JObj kvs \<Rightarrow> map_of kvs k | _ \<Rightarrow> None)"

definition json_as_i64 :: "json \<Rightarrow> int option" where
  "json_as_i64 v = (case v of JInt n \<Rightarrow> if - (2 ^ 63) \<le> n \<and> n < 2 ^ 63 then Some n else None | _ \<Rightarrow> None)"

definition json_as_str :: "json \<Rightarrow> string option" where
  "json_as_str v = (case v of JStr s \<Rightarrow> Some s | _ \<Rightarrow> None)"

definition pusher_error :: "pusher_lib \<Rightarrow> json \<Rightarrow> string" where
  "pusher_error lib data =
     (let decoded = (case data of
            JStr encoded \<Rightarrow> (case parse_value lib encoded of Inr v \<Rightarrow> v | Inl e \<Rightarrow> JNull)
          | other \<Rightarrow> other);
          code = (case Option.bind (json_get ''code'' decoded) json_as_i64 of
                    Some n \<Rightarrow> show_int n | None \<Rightarrow> ''unknown'');
          found = (case Option.bind (json_get ''message'' decoded) json_as_str of
                     Some m \<Rightarrow> Some m | None \<Rightarrow> json_as_str data);
          message = (case map_option redact_pusher_message found of
                       Some m \<Rightarrow> m | None \<Rightarrow> ''no message'')
      in ''Pusher protocol error (code '' @ code @ ''): '' @ message)"

definition decode_data :: "pusher_lib \<Rightarrow> json \<Rightarrow> connection_established result" where
  "decode_data lib data =
     (case data of
        JStr encoded \<Rightarrow> parse_established lib encoded
      | value \<Rightarrow> established_from_value lib value)"

subsection \<open>The handshake\<close>

text \<open>What reading the socket gives. A message carries the result of the reply to it, if one is sent.\<close>

datatype message = TextMsg string | PingMsg bytes | PongMsg bytes | BinaryMsg bytes | RawFrame bytes
  | CloseMsg string

datatype incoming = StreamEnded | SocketError string | Got message "unit result"

datatype outgoing = SendPong bytes | SendText string

definition pong_text :: "pusher_lib \<Rightarrow> string" where
  "pong_text lib = json_to_string lib (JObj [(''event'', JStr ''pusher:pong''), (''data'', JObj [])])"

definition ping_text :: "pusher_lib \<Rightarrow> string" where
  "ping_text lib = json_to_string lib (JObj [(''event'', JStr ''pusher:ping''), (''data'', JObj [])])"

text \<open>What is sent; and, unless the items run out first, the items left unread and the frame with the
  result of a reply to it.\<close>

fun receive_protocol_frame ::
    "pusher_lib \<Rightarrow> incoming list
     \<Rightarrow> outgoing list \<times> (incoming list \<times> (pusher_frame \<times> unit result) result) option" where
  "receive_protocol_frame lib [] = ([], None)"
| "receive_protocol_frame lib (StreamEnded # items) =
     ([], Some (items, Inl ''Pusher WebSocket stream ended''))"
| "receive_protocol_frame lib (SocketError e # items) = ([], Some (items, Inl e))"
| "receive_protocol_frame lib (Got (TextMsg text) sent # items) =
     ([], Some (items, case parse_frame lib text of Inl e \<Rightarrow> Inl e | Inr f \<Rightarrow> Inr (f, sent)))"
| "receive_protocol_frame lib (Got (PingMsg p) sent # items) =
     (case sent of
        Inl e \<Rightarrow> ([SendPong p], Some (items, Inl e))
      | Inr u \<Rightarrow> (let (out, r) = receive_protocol_frame lib items in (SendPong p # out, r)))"
| "receive_protocol_frame lib (Got (CloseMsg f) sent # items) =
     ([], Some (items, Inl (''Pusher closed the connection: '' @ f)))"
| "receive_protocol_frame lib (Got m sent # items) = receive_protocol_frame lib items"

lemma received_shorter:
  "receive_protocol_frame lib items = (out, Some (rest, r)) \<Longrightarrow> length rest < length items"
  by (induction lib items arbitrary: out rule: receive_protocol_frame.induct)
    (auto simp: Let_def split: sum.splits prod.splits)

function await_established ::
    "pusher_lib \<Rightarrow> incoming list
     \<Rightarrow> outgoing list \<times> (incoming list \<times> connection_established result) option" where
  "await_established lib items =
     (case receive_protocol_frame lib items of
        (out, None) \<Rightarrow> (out, None)
      | (out, Some (rest, Inl e)) \<Rightarrow> (out, Some (rest, Inl e))
      | (out, Some (rest, Inr (frame, sent))) \<Rightarrow>
          if pf_event frame = ''pusher:connection_established''
          then (out, Some (rest, decode_data lib (pf_data frame)))
          else if pf_event frame = ''pusher:error''
          then (out, Some (rest, Inl (pusher_error lib (pf_data frame))))
          else (let (out', r) = await_established lib rest in (out @ out', r)))"
  by pat_completeness auto
termination
  by (relation "measure (\<lambda>(lib, items). length items)")
    (auto dest: received_shorter [OF sym])

function await_subscribed ::
    "pusher_lib \<Rightarrow> string \<Rightarrow> incoming list \<Rightarrow> outgoing list \<times> (incoming list \<times> unit result) option"
  where
  "await_subscribed lib expected items =
     (case receive_protocol_frame lib items of
        (out, None) \<Rightarrow> (out, None)
      | (out, Some (rest, Inl e)) \<Rightarrow> (out, Some (rest, Inl e))
      | (out, Some (rest, Inr (frame, sent))) \<Rightarrow>
          if pf_event frame = ''pusher_internal:subscription_succeeded''
             \<and> pf_channel frame = Some expected
          then (out, Some (rest, Inr ()))
          else if pf_event frame = ''pusher:error''
          then (out, Some (rest, Inl (pusher_error lib (pf_data frame))))
          else if pf_event frame = ''pusher:ping''
          then (case sent of
                  Inl e \<Rightarrow> (out @ [SendText (pong_text lib)], Some (rest, Inl e))
                | Inr u \<Rightarrow>
                    (let (out', r) = await_subscribed lib expected rest
                     in (out @ SendText (pong_text lib) # out', r)))
          else (let (out', r) = await_subscribed lib expected rest in (out @ out', r)))"
  by pat_completeness auto
termination
  by (relation "measure (\<lambda>(lib, expected, items). length items)")
    (auto dest: received_shorter [OF sym])

declare await_established.simps [simp del] await_subscribed.simps [simp del]

text \<open>A connection attempt meets: the outcome of connecting (\<open>None\<close> when it takes 30 seconds), the items
  read until the connection is established, the platform's answer to the authentication, the result
  of sending the subscription, and the items read until it is confirmed; a wait whose items run out
  has timed out.\<close>

record attempt =
  at_connect :: "unit result option"
  at_established :: "incoming list"
  at_auth :: "pusher_subscription http_outcome"
  at_send :: "unit result"
  at_subscribed :: "incoming list"

definition subscribe_text :: "pusher_lib \<Rightarrow> pusher_subscription \<Rightarrow> string" where
  "subscribe_text lib subscription =
     json_to_string lib (JObj [(''event'', JStr ''pusher:subscribe''),
       (''data'', JObj [(''channel'', JStr (ps_channel subscription)),
                        (''auth'', JStr (ps_auth subscription))])])"

text \<open>What is sent, and the activity timeout with the channel.\<close>

definition connect_and_subscribe ::
    "text_lib \<Rightarrow> pusher_lib \<Rightarrow> attempt \<Rightarrow> outgoing list \<times> (duration \<times> string) result" where
  "connect_and_subscribe L lib a =
     (case at_connect a of
        None \<Rightarrow> ([], Inl ''timed out connecting to Pusher'')
      | Some (Inl e) \<Rightarrow> ([], Inl e)
      | Some (Inr u) \<Rightarrow>
     (case await_established lib (at_established a) of
        (out1, None) \<Rightarrow> (out1, Inl ''timed out waiting for Pusher connection establishment'')
      | (out1, Some (unread, Inl e)) \<Rightarrow> (out1, Inl e)
      | (out1, Some (unread, Inr established)) \<Rightarrow>
     (case snd (authenticate_pusher_socket L (at_auth a)) of
        Inl e \<Rightarrow> (out1, Inl e)
      | Inr subscription \<Rightarrow>
          (let out2 = out1 @ [SendText (subscribe_text lib subscription)]
           in case at_send a of
                Inl e \<Rightarrow> (out2, Inl e)
              | Inr v \<Rightarrow>
     (case await_subscribed lib (ps_channel subscription) (unread @ at_subscribed a) of
        (out3, None) \<Rightarrow> (out2 @ out3, Inl ''timed out waiting for Pusher subscription confirmation'')
      | (out3, Some (rest, Inl e)) \<Rightarrow> (out2 @ out3, Inl e)
      | (out3, Some (rest, Inr w)) \<Rightarrow>
          (out2 @ out3,
           Inr (from_secs (clamp (activity_timeout_secs established)
                             MIN_ACTIVITY_TIMEOUT_SECS MAX_ACTIVITY_TIMEOUT_SECS),
                ps_channel subscription)))))))"

subsection \<open>Listening\<close>

record listen_state =
  activity_deadline :: instant
  pong_deadline :: "instant option"

text \<open>One iteration of the \<open>select!\<close>: something was read, or the deadline passed (with the result of
  sending the ping); and the time then.\<close>

datatype listen_event = Incoming incoming | DeadlinePassed "unit result"

datatype listen_action = Outgoing outgoing | TransactionEvent instant | WalletEvent instant

definition handle_frame ::
    "pusher_lib \<Rightarrow> string \<Rightarrow> instant \<Rightarrow> unit result \<Rightarrow> pusher_frame \<Rightarrow> listen_action list \<times> unit result"
  where
  "handle_frame lib channel now sent frame =
     (if (case pf_channel frame of Some c \<Rightarrow> c \<noteq> channel | None \<Rightarrow> False) then ([], Inr ())
      else if pf_event frame = ''TransactionCreated'' then ([TransactionEvent now], Inr ())
      else if pf_event frame = ''ManagedWalletRequested'' then ([WalletEvent now], Inr ())
      else if pf_event frame = ''pusher:ping'' then ([Outgoing (SendText (pong_text lib))], sent)
      else if pf_event frame = ''pusher:pong''
           \<or> pf_event frame = ''pusher_internal:subscription_succeeded'' then ([], Inr ())
      else if pf_event frame = ''pusher:error'' then ([], Inl (pusher_error lib (pf_data frame)))
      else ([], Inr ()))"

fun handle_message ::
    "pusher_lib \<Rightarrow> string \<Rightarrow> instant \<Rightarrow> incoming \<Rightarrow> listen_action list \<times> unit result" where
  "handle_message lib channel now StreamEnded = ([], Inl ''Pusher WebSocket stream ended'')"
| "handle_message lib channel now (SocketError e) = ([], Inl e)"
| "handle_message lib channel now (Got (TextMsg text) sent) =
     (case parse_frame lib text of
        Inl e \<Rightarrow> ([], Inl e)
      | Inr frame \<Rightarrow> handle_frame lib channel now sent frame)"
| "handle_message lib channel now (Got (PingMsg p) sent) = ([Outgoing (SendPong p)], sent)"
| "handle_message lib channel now (Got (CloseMsg f) sent) =
     ([], Inl (''Pusher closed the connection: '' @ f))"
| "handle_message lib channel now (Got m sent) = ([], Inr ())"

definition start_listening :: "duration \<Rightarrow> instant \<Rightarrow> listen_state" where
  "start_listening activity_timeout now =
     \<lparr>activity_deadline = now + activity_timeout, pong_deadline = None\<rparr>"

definition deadline :: "listen_state \<Rightarrow> instant" where
  "deadline st = (case pong_deadline st of Some d \<Rightarrow> d | None \<Rightarrow> activity_deadline st)"

definition listen_step ::
    "pusher_lib \<Rightarrow> duration \<Rightarrow> string \<Rightarrow> listen_event \<times> instant \<Rightarrow> listen_state
     \<Rightarrow> listen_action list \<times> listen_state result" where
  "listen_step lib activity_timeout channel = (\<lambda>(event, now) st.
     (case event of
        Incoming item \<Rightarrow>
          (let st' = \<lparr>activity_deadline = now + activity_timeout, pong_deadline = None\<rparr>
           in case handle_message lib channel now item of
                (actions, Inl e) \<Rightarrow> (actions, Inl e)
              | (actions, Inr u) \<Rightarrow> (actions, Inr st'))
      | DeadlinePassed sent \<Rightarrow>
          if pong_deadline st \<noteq> None then ([], Inl ''Pusher ping timed out'')
          else ([Outgoing (SendText (ping_text lib))],
                case sent of
                  Inl e \<Rightarrow> Inl e
                | Inr u \<Rightarrow>
                    Inr (st\<lparr>pong_deadline := Some (now + min PONG_TIMEOUT activity_timeout)\<rparr>))))"

text \<open>The loop: it ends only with an error; when the events end first it is still listening.\<close>

fun listen ::
    "pusher_lib \<Rightarrow> duration \<Rightarrow> string \<Rightarrow> (listen_event \<times> instant) list \<Rightarrow> listen_state
     \<Rightarrow> listen_action list \<times> listen_state result" where
  "listen lib activity_timeout channel [] st = ([], Inr st)"
| "listen lib activity_timeout channel (e # events) st =
     (case listen_step lib activity_timeout channel e st of
        (actions, Inl err) \<Rightarrow> (actions, Inl err)
      | (actions, Inr st') \<Rightarrow>
          (let (rest, r) = listen lib activity_timeout channel events st' in (actions @ rest, r)))"

subsection \<open>Reconnecting\<close>

definition reconnect_backoff_attempt :: "u32 \<Rightarrow> duration \<Rightarrow> u32" where
  "reconnect_backoff_attempt current_attempt connected_for =
     (if MIN_STABLE_SUBSCRIPTION \<le> connected_for then 0 else current_attempt)"

datatype connection_action = Handshake outgoing | SetConnected bool | ForceTransactions | ForceWallets
  | Listening listen_action | SleepFor duration

text \<open>One iteration of \<open>run\<close> meets: a connection attempt; when it succeeds, the time of the subscription,
  what is read then, and how long the connection lasted; and the jitter of the backoff.\<close>

record session =
  se_attempt :: attempt
  se_subscribed_at :: instant
  se_events :: "(listen_event \<times> instant) list"
  se_connected_for :: duration
  se_jitter :: u64

text \<open>The result is \<open>None\<close> while the connection is still up.\<close>

definition run_iteration ::
    "text_lib \<Rightarrow> pusher_lib \<Rightarrow> session \<Rightarrow> u32 \<Rightarrow> connection_action list \<times> u32 option" where
  "run_iteration L lib se failures =
     (let retry = (\<lambda>failures. ([SleepFor (jittered_exponential_delay (se_jitter se) failures)],
                             Some (saturating_add failures 1)))
      in case connect_and_subscribe L lib (se_attempt se) of
           (out, Inr (activity_timeout, channel)) \<Rightarrow>
             (let (heard, r) = listen lib activity_timeout channel (se_events se)
                                 (start_listening activity_timeout (se_subscribed_at se));
                  before = map Handshake out @ [SetConnected True, ForceTransactions, ForceWallets]
                           @ map Listening heard
              in case r of
                   Inr st \<Rightarrow> (before, None)
                 | Inl e \<Rightarrow>
                     (let (pause, failures') =
                            retry (reconnect_backoff_attempt failures (se_connected_for se))
                      in (before @ SetConnected False # pause, failures')))
         | (out, Inl e) \<Rightarrow>
             (let (pause, failures') = retry failures
              in (map Handshake out @ SetConnected False # pause, failures')))"

fun run_connection ::
    "text_lib \<Rightarrow> pusher_lib \<Rightarrow> session list \<Rightarrow> u32 \<Rightarrow> connection_action list" where
  "run_connection L lib [] failures = []"
| "run_connection L lib (se # sessions) failures =
     (case run_iteration L lib se failures of
        (actions, None) \<Rightarrow> actions
      | (actions, Some failures') \<Rightarrow> actions @ run_connection L lib sessions failures')"

end
