(* ===== verification/Pusher_Session.thy ===== *)
theory Pusher_Session
  imports Websocket
begin

text \<open>
  What the Pusher connection of \<open>Websocket\<close> promises: error messages carry no credential, a connection
  is read only after both work triggers were forced, a flapping connection backs off, and a silent
  one is noticed in bounded time.
\<close>

subsection \<open>Error messages\<close>

lemma redacted_word: "white_free ''[redacted]''" "\<not> looks_secret ''[redacted]''"
  by (simp_all add: white_free_simps white1_def white2_def white3_def looks_secret_def trim_word_def trim_matches_def
      is_ascii_alphanumeric_def)

lemma redact_words:
  "split_whitespace (redact_pusher_message message) =
     map (\<lambda>w. if looks_secret w then ''[redacted]'' else w) (split_whitespace message)"
  unfolding redact_pusher_message_def
  by (rule split_join) (auto simp: redacted_word(1) dest: split_whitespace_free)

text \<open>A text without a space lies in one of the words that spaces separate.\<close>

lemma sublist_at_separator:
  assumes "sublist a (x @ c # y)" and "c \<notin> set a"
  shows "sublist a x \<or> sublist a y"
proof -
  from assms(1) obtain ps ss where "x @ c # y = ps @ a @ ss" by (auto simp: sublist_def)
  then consider us where "x = ps @ us" "us @ c # y = a @ ss" | us where "c # y = us @ a @ ss"
    by (auto simp: append_eq_append_conv2)
  then show ?thesis
  proof cases
    case 1
    then consider vs where "us = a @ vs" | vs where "a = us @ vs" "c # y = vs @ ss"
      by (auto simp: append_eq_append_conv2)
    then show ?thesis
    proof cases
      case 2
      then have "vs = []" using assms(2) by (cases vs) auto
      then show ?thesis using 1 2 by auto
    qed (use 1 in auto)
  next
    case 2
    then show ?thesis using assms(2) by (cases us) (auto simp: Cons_eq_append_conv)
  qed
qed

lemma sublist_of_words:
  "\<lbrakk>sublist a (join_with '' '' ws); CHR '' '' \<notin> set a; a \<noteq> []\<rbrakk> \<Longrightarrow> \<exists>w \<in> set ws. sublist a w"
  by (induction ws rule: induct_list012) (auto dest: sublist_at_separator)

text \<open>Trimming a word keeps any part of it that has nothing to trim.\<close>

lemma sublist_trim:
  assumes "sublist a w" and "\<forall>c \<in> set a. \<not> p c"
  shows "sublist a (trim_matches p w)"
proof -
  have drop: "\<exists>ps'. dropWhile p (ps @ b @ ss) = ps' @ b @ ss" if "\<forall>c \<in> set b. \<not> p c" "b \<noteq> []"
    for ps b ss
  proof (cases "\<forall>c \<in> set ps. p c")
    case True
    then show ?thesis using that by (cases b) (auto simp: dropWhile_append2)
  next
    case False
    then show ?thesis by (metis dropWhile_append1)
  qed
  show ?thesis
  proof (cases "a = []")
    case False
    from assms(1) obtain ps ss where w: "w = ps @ a @ ss" by (auto simp: sublist_def)
    obtain ps' where "dropWhile p w = ps' @ a @ ss" using drop [OF assms(2) False] w by metis
    then have "rev (dropWhile p w) = rev ss @ rev a @ rev ps'" by simp
    moreover obtain ss' where "dropWhile p (rev ss @ rev a @ rev ps') = ss' @ rev a @ rev ps'"
      using drop [of "rev a" "rev ss" "rev ps'"] assms(2) False by auto
    ultimately have "trim_matches p w = ps' @ a @ rev ss'" by (simp add: trim_matches_def)
    then show ?thesis by simp
  qed simp
qed

lemma sublist_set: "sublist a w \<Longrightarrow> set a \<subseteq> set w"
  by (auto simp: sublist_def)

text \<open>What a credential ends with: a colon and at least 31 letters and digits.\<close>

lemma signature_word_looks_secret:
  assumes "list_all is_ascii_alphanumeric signature" and "31 \<le> length signature"
    and "sublist (CHR '':'' # signature) w"
  shows "looks_secret w"
proof -
  have part: "sublist (CHR '':'' # signature) (trim_word w)"
    unfolding trim_word_def using assms(1) by (intro sublist_trim [OF assms(3)]) (auto simp: list_all_iff)
  then show ?thesis
    using assms(2) sublist_set [OF part] sublist_length_le [OF part] by (simp add: looks_secret_def)
qed

lemma shown_number_no_colon: "CHR '':'' \<notin> set (show_int n)"
proof -
  have digit: "digit_char d \<noteq> CHR '':''" if "d < 10" for d
    using digit_value_char [OF that] by (auto simp: digit_value_def)
  have "CHR '':'' \<notin> set (show_nat k)" for k
  proof (induction k rule: show_nat.induct)
    case (1 n)
    then show ?case using digit [of n] digit [of "n mod 10"] by (subst show_nat.simps) auto
  qed
  then show ?thesis by (simp add: show_int_def)
qed

text \<open>The shape of a Pusher error.\<close>

lemma pusher_error_cases:
  obtains (message) code m where "CHR '':'' \<notin> set code"
      "pusher_error lib data = (''Pusher protocol error (code '' @ code @ '')'') @ '':'' @ '' '' @ redact_pusher_message m"
  | (bare) code where "CHR '':'' \<notin> set code"
      "pusher_error lib data = (''Pusher protocol error (code '' @ code @ '')'') @ '':'' @ '' '' @ ''no message''"
proof -
  define decoded where "decoded = (case data of
      JStr encoded \<Rightarrow> (case parse_value lib encoded of Inr v \<Rightarrow> v | Inl e \<Rightarrow> JNull) | other \<Rightarrow> other)"
  define code where "code = (case Option.bind (json_get ''code'' decoded) json_as_i64 of
      Some n \<Rightarrow> show_int n | None \<Rightarrow> ''unknown'')"
  define found where "found = (case Option.bind (json_get ''message'' decoded) json_as_str of
      Some m \<Rightarrow> Some m | None \<Rightarrow> json_as_str data)"
  have code: "CHR '':'' \<notin> set code"
    by (simp add: code_def shown_number_no_colon split: option.split)
  have "pusher_error lib data = ''Pusher protocol error (code '' @ code @ ''): ''
      @ (case map_option redact_pusher_message found of Some m \<Rightarrow> m | None \<Rightarrow> ''no message'')"
    by (simp add: pusher_error_def Let_def code_def found_def flip: decoded_def)
  then show thesis using code message bare by (cases found) simp_all
qed

lemma sublist_first_at_end:
  assumes "sublist (c # b) (p @ [c])" and "c \<notin> set p"
  shows "b = []"
proof -
  from assms(1) obtain ps ss where "p @ [c] = ps @ c # b @ ss" by (auto simp: sublist_def)
  then have "butlast (p @ [c]) = butlast ((ps @ [c]) @ b @ ss)" by simp
  then have "b @ ss \<noteq> [] \<Longrightarrow> c \<in> set p" by (auto simp: butlast_append)
  then show ?thesis using assms(2) by auto
qed

lemma sublist_member_word: "w \<in> set ws \<Longrightarrow> sublist w (join_with sep ws)"
proof (induction sep ws rule: join_with.induct)
  case (3 sep x y xs)
  then show ?case
    by (cases "w = x") (auto intro: sublist_order.order_trans [OF _ sublist_append_leftI])
qed auto

lemma trim_word_subset: "set (trim_word w) \<subseteq> set w"
  unfolding trim_word_def trim_matches_def by (auto dest!: set_dropWhileD)

lemma colon_free_word_kept:
  assumes "word \<in> set (split_whitespace message)" and "CHR '':'' \<notin> set word"
  shows "sublist word (redact_pusher_message message)"
proof -
  have "\<not> looks_secret word" using assms(2) trim_word_subset [of word] by (auto simp: looks_secret_def)
  then show ?thesis
    unfolding redact_pusher_message_def using assms(1) by (intro sublist_member_word) force
qed

lemma pusher_error_no_signature:
  assumes "list_all is_ascii_alphanumeric signature" and "31 \<le> length signature"
  shows "\<not> sublist (CHR '':'' # signature) (pusher_error lib data)"
proof -
  let ?secret = "CHR '':'' # signature"
  have no_space: "CHR '' '' \<notin> set ?secret"
    using assms(1) by (auto simp: list_all_iff is_ascii_alphanumeric_def)
  have head: "\<not> sublist ?secret ((''Pusher protocol error (code '' @ code @ '')'') @ '':'')"
    if "CHR '':'' \<notin> set code" for code
    using sublist_first_at_end [of "CHR '':''" signature] that assms(2) by fastforce
  have tail: "\<not> sublist ?secret (redact_pusher_message m)" for m
  proof
    assume "sublist ?secret (redact_pusher_message m)"
    then obtain w where w: "sublist ?secret (if looks_secret w then ''[redacted]'' else w)"
      using sublist_of_words no_space unfolding redact_pusher_message_def by fastforce
    show False
    proof (cases "looks_secret w")
      case True
      then show False using sublist_set [of ?secret "''[redacted]''"] w by auto
    next
      case False
      then show False using signature_word_looks_secret [OF assms] w by simp
    qed
  qed
  have parts: "\<not> sublist ?secret (pre @ '' '' @ post)"
    if "\<not> sublist ?secret pre" "\<not> sublist ?secret post" for pre post
    using sublist_at_separator [of ?secret pre "CHR '' ''" post] no_space that by auto
  show ?thesis
  proof (cases rule: pusher_error_cases [of lib data])
    case (message code m)
    then show ?thesis using parts [OF head tail, of code m] by simp
  next
    case (bare code)
    then show ?thesis
      using parts [OF head, of code "''no message''"] sublist_set [of ?secret "''no message''"] by auto
  qed
qed

lemma pusher_error_keeps_word:
  assumes "map_of kvs ''message'' = Some (JStr message)"
    and "word \<in> set (split_whitespace message)" and "CHR '':'' \<notin> set word"
  shows "sublist word (pusher_error lib (JObj kvs))"
proof -
  from assms(1) obtain pre where "pusher_error lib (JObj kvs) = pre @ redact_pusher_message message"
    by (simp add: pusher_error_def json_get_def json_as_str_def Let_def)
  moreover have "sublist (redact_pusher_message message) (pre @ redact_pusher_message message)"
    by simp
  ultimately show ?thesis
    using colon_free_word_kept [OF assms(2,3)] sublist_order.order_trans by metis
qed

text \<open>
  C31: A Pusher error never puts the submitted credential in the log. The credential is the app key, a
  colon and the signature, letters and digits of which Pusher's has 64. Whatever the payload of the
  error, an object, a JSON text or a plain text, with the credential anywhere in it: the error text
  does not contain the colon and a signature of 31 characters or more, with any key before them or
  none. The wording is kept: of an object's message, every word that has no colon is in the error text.
\<close>

theorem pusher_error_hides_credential:
  assumes "list_all is_ascii_alphanumeric signature" and "31 \<le> length signature"
  shows "\<not> text_contains (pusher_error lib data) (key @ CHR '':'' # signature)
       \<and> (\<forall>kvs message word. data = JObj kvs \<longrightarrow> map_of kvs ''message'' = Some (JStr message)
            \<longrightarrow> word \<in> set (split_whitespace message) \<longrightarrow> CHR '':'' \<notin> set word
            \<longrightarrow> text_contains (pusher_error lib data) word)"
proof
  have "sublist (CHR '':'' # signature) (key @ CHR '':'' # signature)" by simp
  then show "\<not> text_contains (pusher_error lib data) (key @ CHR '':'' # signature)"
    unfolding text_contains_def using pusher_error_no_signature [OF assms] sublist_order.order_trans by blast
  show "\<forall>kvs message word. data = JObj kvs \<longrightarrow> map_of kvs ''message'' = Some (JStr message)
            \<longrightarrow> word \<in> set (split_whitespace message) \<longrightarrow> CHR '':'' \<notin> set word
            \<longrightarrow> text_contains (pusher_error lib data) word"
    unfolding text_contains_def using pusher_error_keeps_word by blast
qed

text \<open>An error that echoes the credential between quotes.\<close>

lemma pusher_error_hides_credential_witness:
  "let signature = ''0d1f4a9c7b3e2d5a8f6c0b9e4d7a2c5f8b1e3d6a9c2f5b8e1d4a7c0f3b6e9d2a'';
       data = JObj [(''code'', JInt 4009), (''message'',
         JStr (''Invalid signature, received (8ab7ab8c519e8f59b635:'' @ signature @ ''), refused''))];
       error = pusher_error \<lparr>parse_value = (\<lambda>s. Inl ''not JSON''), parse_frame = (\<lambda>s. Inl ''not a frame''),
         parse_established = (\<lambda>s. Inl ''not JSON''), established_from_value = (\<lambda>v. Inl ''not a text''),
         json_to_string = (\<lambda>v. ''json'')\<rparr> data
   in \<not> text_contains error (''8ab7ab8c519e8f59b635'' @ CHR '':'' # signature) \<and> text_contains error ''refused''"
proof -
  define signature where "signature = ''0d1f4a9c7b3e2d5a8f6c0b9e4d7a2c5f8b1e3d6a9c2f5b8e1d4a7c0f3b6e9d2a''"
  have "list_all is_ascii_alphanumeric signature" "31 \<le> length signature"
    unfolding signature_def by code_simp+
  note hidden = pusher_error_hides_credential [OF this]
  have word: "''refused'' \<in> set (split_whitespace
      (''Invalid signature, received (8ab7ab8c519e8f59b635:'' @ signature @ ''), refused''))"
    unfolding signature_def by code_simp
  show ?thesis
    unfolding Let_def signature_def [symmetric]
    by (intro conjI; (rule hidden [THEN conjunct1])?) (rule hidden [THEN conjunct2, rule_format, OF refl _ word]; simp)
qed

subsection \<open>Outages\<close>

text \<open>What an observer of the actions checks: nothing read from a subscribed connection is handled before
  both triggers were forced on that connection, and the status says connected exactly from the
  subscription to the disconnection, in particular not while a reconnection is waited for.\<close>

fun connection_ok :: "bool \<Rightarrow> bool \<Rightarrow> bool \<Rightarrow> connection_action list \<Rightarrow> bool" where
  "connection_ok connected tx w [] = True"
| "connection_ok connected tx w (Handshake out # actions) =
     (\<not> connected \<and> connection_ok connected tx w actions)"
| "connection_ok connected tx w (SetConnected b # actions) = connection_ok b False False actions"
| "connection_ok connected tx w (ForceTransactions # actions) =
     (connected \<and> connection_ok connected True w actions)"
| "connection_ok connected tx w (ForceWallets # actions) =
     (connected \<and> connection_ok connected tx True actions)"
| "connection_ok connected tx w (Listening a # actions) =
     (connected \<and> tx \<and> w \<and> connection_ok connected tx w actions)"
| "connection_ok connected tx w (SleepFor d # actions) =
     (\<not> connected \<and> connection_ok connected tx w actions)"

lemma connection_ok_maps [simp]:
  "connection_ok False tx w (map Handshake out @ actions) = connection_ok False tx w actions"
  "connection_ok True True True (map Listening heard @ actions) = connection_ok True True True actions"
proof -
  show "connection_ok False tx w (map Handshake out @ actions) = connection_ok False tx w actions"
    by (induction out) simp_all
  show "connection_ok True True True (map Listening heard @ actions)
      = connection_ok True True True actions"
    by (induction heard) simp_all
qed

text \<open>An iteration in those terms.\<close>

lemma run_iterationE:
  assumes "run_iteration L lib se failures = (actions, next)"
  obtains
    (refused) out e where "connect_and_subscribe L lib (se_attempt se) = (out, Inl e)"
      "next = Some (saturating_add failures 1)"
      "actions = map Handshake out
         @ [SetConnected False, SleepFor (jittered_exponential_delay (se_jitter se) failures)]"
  | (lost) out heard f where
      "f = reconnect_backoff_attempt failures (se_connected_for se)"
      "next = Some (saturating_add f 1)"
      "actions = map Handshake out @ [SetConnected True, ForceTransactions, ForceWallets]
         @ map Listening heard
         @ [SetConnected False, SleepFor (jittered_exponential_delay (se_jitter se) f)]"
  | (up) out heard where "next = None"
      "actions = map Handshake out @ [SetConnected True, ForceTransactions, ForceWallets]
         @ map Listening heard"
  using assms
  by (fastforce simp: run_iteration_def Let_def split: prod.splits sum.splits)

text \<open>
  C30: Nothing is missed across an outage. However connection attempts, connections and disconnections
  follow each other, both pollers are told to look again after every subscription before anything is
  read from it, the outage polling interval is in force from every disconnection to the next
  subscription, and handshakes and pauses happen only while disconnected.
\<close>

theorem reconnection_covers_outages:
  "connection_ok False False False (run_connection L lib sessions failures)"
proof -
  have "connection_ok False tx w (run_connection L lib sessions failures)" for tx w
  proof (induction sessions arbitrary: failures tx w)
    case (Cons se sessions)
    obtain actions next' where it: "run_iteration L lib se failures = (actions, next')"
      by (cases "run_iteration L lib se failures")
    from it show ?case
    proof (cases rule: run_iterationE)
      case refused
      then show ?thesis using it Cons by simp
    next
      case lost
      then show ?thesis using it Cons by simp
    next
      case (up out heard)
      then show ?thesis using it connection_ok_maps(2) [of heard "[]"] by simp
    qed
  qed simp
  then show ?thesis .
qed

subsection \<open>A concrete session\<close>

text \<open>A library that knows three frames, an attempt that they make succeed, and one that fails.\<close>

definition sample_pusher_lib :: pusher_lib where
  "sample_pusher_lib =
     \<lparr>parse_value = (\<lambda>s. Inl ''not JSON''),
      parse_frame = (\<lambda>s. if s = ''established''
                          then Inr \<lparr>pf_event = ''pusher:connection_established'', pf_channel = None,
                                    pf_data = JStr ''data''\<rparr>
                          else if s = ''subscribed''
                          then Inr \<lparr>pf_event = ''pusher_internal:subscription_succeeded'',
                                    pf_channel = Some ''daemon'', pf_data = JNull\<rparr>
                          else if s = ''created''
                          then Inr \<lparr>pf_event = ''TransactionCreated'', pf_channel = Some ''daemon'',
                                    pf_data = JNull\<rparr>
                          else Inl ''not a frame''),
      parse_established = (\<lambda>s. Inr \<lparr>socket_id = s, activity_timeout_secs = 120\<rparr>),
      established_from_value = (\<lambda>v. Inl ''not a text''),
      json_to_string = (\<lambda>v. ''json'')\<rparr>"

definition sample_attempt :: attempt where
  "sample_attempt =
     \<lparr>at_connect = Some (Inr ()),
      at_established = [Got (PingMsg []) (Inr ()), Got (TextMsg ''established'') (Inr ())],
      at_auth = Responded 200 (Inr \<lparr>resp_data = Some \<lparr>ps_auth = ''key:signature'', ps_channel = ''daemon''\<rparr>,
                                    resp_errors = None\<rparr>),
      at_send = Inr (), at_subscribed = [Got (TextMsg ''subscribed'') (Inr ())]\<rparr>"

definition refused_session :: session where
  "refused_session =
     \<lparr>se_attempt = sample_attempt\<lparr>at_connect := Some (Inl ''refused'')\<rparr>, se_subscribed_at = 0,
      se_events = [], se_connected_for = 0, se_jitter = 100\<rparr>"

lemma sample_subscribed:
  "connect_and_subscribe sample_text_lib sample_pusher_lib sample_attempt =
     ([SendPong [], SendText ''json''], Inr (from_secs 120, ''daemon''))"
  by (simp add: connect_and_subscribe_def sample_attempt_def sample_pusher_lib_def
      await_established.simps await_subscribed.simps decode_data_def subscribe_text_def
      authenticate_pusher_socket_def execute_query_inner_def clamp_def
      MIN_ACTIVITY_TIMEOUT_SECS_def MAX_ACTIVITY_TIMEOUT_SECS_def)

subsection \<open>Backoff\<close>

fun sleeps :: "connection_action list \<Rightarrow> duration list" where
  "sleeps [] = []"
| "sleeps (SleepFor d # actions) = d # sleeps actions"
| "sleeps (a # actions) = sleeps actions"

lemma sleeps_simps [simp]:
  "sleeps (xs @ ys) = sleeps xs @ sleeps ys" "sleeps (map Handshake out) = []"
  "sleeps (map Listening heard) = []"
proof -
  show "sleeps (xs @ ys) = sleeps xs @ sleeps ys" by (induction xs rule: sleeps.induct) auto
  show "sleeps (map Handshake out) = []" by (induction out) auto
  show "sleeps (map Listening heard) = []" by (induction heard) auto
qed

text \<open>A session that ends, without a connection of 30 seconds.\<close>

definition flapping :: "text_lib \<Rightarrow> pusher_lib \<Rightarrow> session \<Rightarrow> bool" where
  "flapping L lib se \<longleftrightarrow>
     se_connected_for se < MIN_STABLE_SUBSCRIPTION \<and> snd (run_iteration L lib se 0) \<noteq> None"

lemma flapping_iteration:
  assumes "flapping L lib se"
  shows "\<exists>actions. run_iteration L lib se failures = (actions, Some (saturating_add failures 1))
           \<and> sleeps actions = [jittered_exponential_delay (se_jitter se) failures]"
proof -
  obtain actions next' where it: "run_iteration L lib se failures = (actions, next')"
    by (cases "run_iteration L lib se failures")
  have short: "reconnect_backoff_attempt failures (se_connected_for se) = failures"
    using assms by (simp add: flapping_def reconnect_backoff_attempt_def)
  have "next' \<noteq> None"
    using assms it
    by (auto simp: flapping_def run_iteration_def Let_def split: prod.splits sum.splits)
  from it show ?thesis
  proof (cases rule: run_iterationE)
    case refused
    then show ?thesis using it by simp
  next
    case lost
    then show ?thesis using it short by simp
  next
    case up
    then show ?thesis using \<open>next' \<noteq> None\<close> by simp
  qed
qed

lemma failures_shift:
  "((\<lambda>n. saturating_add n 1) ^^ k) (saturating_add f 1) = saturating_add (((\<lambda>n. saturating_add n 1) ^^ k) f) 1"
  by (induction k) auto

lemma flapping_sleeps:
  "\<forall>se \<in> set sessions. flapping L lib se \<Longrightarrow>
   length (sleeps (run_connection L lib sessions failures)) = length sessions
   \<and> (\<forall>k < length sessions. sleeps (run_connection L lib sessions failures) ! k
         = jittered_exponential_delay (se_jitter (sessions ! k))
             (((\<lambda>n. saturating_add n 1) ^^ k) failures))"
proof (induction sessions arbitrary: failures)
  case (Cons se sessions)
  then obtain actions where
    "run_iteration L lib se failures = (actions, Some (saturating_add failures 1))"
    "sleeps actions = [jittered_exponential_delay (se_jitter se) failures]"
    using flapping_iteration by fastforce
  with Cons show ?case
    by (auto simp: less_Suc_eq_0_disj failures_shift)
qed simp

lemma saturating_count: "unat (((\<lambda>n. saturating_add n 1) ^^ k) (0::u32)) = min k (2 ^ 32 - 1)"
  by (induction k) (auto simp: unat_saturating_add)

text \<open>
  C33: A flapping connection backs off. When the connection is refused or lost within 30 seconds again
  and again, the pause before attempt number \<open>k\<close> is \<open>2 ^ k\<close> seconds, at most a minute, up to the
  jitter of 20 percent, and every pause is at most a minute.
\<close>

theorem flapping_connection_backs_off:
  assumes "\<forall>se \<in> set sessions. flapping L lib se \<and> se_jitter se \<in> {80..120}"
    and "k < length sessions"
  shows "length (sleeps (run_connection L lib sessions 0)) = length sessions
       \<and> min (2 ^ k) 60 * 800000000 \<le> sleeps (run_connection L lib sessions 0) ! k
       \<and> sleeps (run_connection L lib sessions 0) ! k \<le> min (min (2 ^ k) 60 * 1200000000) 60000000000"
proof -
  define f :: u32 where "f = ((\<lambda>n. saturating_add n 1) ^^ k) 0"
  define p where "p = se_jitter (sessions ! k)"
  have pause: "length (sleeps (run_connection L lib sessions 0)) = length sessions"
    "sleeps (run_connection L lib sessions 0) ! k = jittered_exponential_delay p f"
    using flapping_sleeps [of sessions L lib 0] assms by (auto simp: f_def p_def)
  have p: "80 \<le> unat p" "unat p \<le> 120"
    using assms nth_mem [OF assms(2)] unfolding p_def by (auto simp: word_le_nat_alt)
  have capped: "min (2 ^ unat f) 60 = min (2 ^ k) (60::nat)"
  proof (cases "k \<le> 2 ^ 32 - 1")
    case True
    then show ?thesis by (simp add: f_def saturating_count)
  next
    case False
    have "(2::nat) ^ 6 \<le> 2 ^ unat f" "(2::nat) ^ 6 \<le> 2 ^ k"
      using False by (intro power_increasing; simp add: f_def saturating_count)+
    then show ?thesis by simp
  qed
  define s where "s = min (2 ^ k) (60::nat)"
  define q where "q = s * unat p"
  have "80 * s \<le> q" "q \<le> 120 * s" "s \<le> 60" using p by (simp_all add: q_def s_def)
  moreover have "jittered_exponential_delay p f = min (q * 10) 60000 * 1000000"
    using jittered_delay_millis [OF p(2), of f] capped by (simp add: s_def q_def)
  ultimately show ?thesis
    using pause unfolding s_def [symmetric] by (auto simp: min_def)
qed

lemma flapping_connection_backs_off_witness:
  "2400000000 \<le> sleeps (run_connection sample_text_lib sample_pusher_lib
     [refused_session, refused_session, refused_session] 0) ! 2"
proof -
  have "flapping sample_text_lib sample_pusher_lib refused_session"
    by (simp add: flapping_def refused_session_def run_iteration_def connect_and_subscribe_def
        sample_attempt_def MIN_STABLE_SUBSCRIPTION_def from_secs_def)
  moreover have "se_jitter refused_session \<in> {80..120}"
    by (simp add: refused_session_def)
  ultimately show ?thesis
    using flapping_connection_backs_off [of "[refused_session, refused_session, refused_session]"
        sample_text_lib sample_pusher_lib 2] by simp
qed

subsection \<open>Silence\<close>

text \<open>The timers fire on time, up to \<open>late\<close>; \<open>last_read\<close> is the time something was last read.\<close>

fun timely ::
    "pusher_lib \<Rightarrow> duration \<Rightarrow> string \<Rightarrow> duration \<Rightarrow> (listen_event \<times> instant) list \<Rightarrow> listen_state \<Rightarrow> bool"
  where
  "timely lib activity_timeout channel late [] st = True"
| "timely lib activity_timeout channel late ((event, now) # events) st =
     ((case event of Incoming m \<Rightarrow> True | DeadlinePassed sent \<Rightarrow> now \<le> deadline st + late)
      \<and> (case snd (listen_step lib activity_timeout channel (event, now) st) of
           Inl e \<Rightarrow> True | Inr st' \<Rightarrow> timely lib activity_timeout channel late events st'))"

fun last_read :: "instant \<Rightarrow> (listen_event \<times> instant) list \<Rightarrow> instant" where
  "last_read t [] = t"
| "last_read t ((Incoming m, now) # events) = last_read now events"
| "last_read t ((DeadlinePassed sent, now) # events) = last_read t events"

text \<open>The deadlines in terms of the time of the last reading.\<close>

definition deadlines_ok :: "duration \<Rightarrow> duration \<Rightarrow> instant \<Rightarrow> listen_state \<Rightarrow> bool" where
  "deadlines_ok activity_timeout late t st \<longleftrightarrow>
     activity_deadline st = t + activity_timeout
     \<and> (\<forall>d. pong_deadline st = Some d
          \<longrightarrow> d \<le> t + activity_timeout + late + min PONG_TIMEOUT activity_timeout)"

lemma deadlines_ok_run:
  "\<lbrakk>listen lib at ch events st = (actions, Inr st'); timely lib at ch late events st;
    deadlines_ok at late t st\<rbrakk> \<Longrightarrow> deadlines_ok at late (last_read t events) st'"
proof (induction events arbitrary: st t actions)
  case (Cons ev events)
  obtain event now where ev: "ev = (event, now)" by (cases ev)
  from Cons.prems(1) ev obtain a1 st1 a2 where
    step: "listen_step lib at ch (event, now) st = (a1, Inr st1)"
    and rest: "listen lib at ch events st1 = (a2, Inr st')"
    by (auto split: prod.splits sum.splits)
  have timely: "timely lib at ch late events st1"
    "case event of Incoming m \<Rightarrow> True | DeadlinePassed sent \<Rightarrow> now \<le> deadline st + late"
    using Cons.prems(2) ev step by auto
  show ?case
  proof (cases event)
    case (Incoming m)
    then have "deadlines_ok at late now st1"
      using step by (auto simp: listen_step_def deadlines_ok_def Let_def split: prod.splits sum.splits)
    from Cons.IH [OF rest timely(1) this] show ?thesis by (simp add: ev Incoming)
  next
    case (DeadlinePassed sent)
    then have "deadlines_ok at late t st1"
      using step timely(2) Cons.prems(3)
      by (auto simp: listen_step_def deadlines_ok_def deadline_def split: sum.splits if_splits)
    from Cons.IH [OF rest timely(1) this] show ?thesis by (simp add: ev DeadlinePassed)
  qed
qed simp

text \<open>
  C32: A silent connection is noticed. While the loop is listening, the timer it waits for is at most
  the activity timeout and the pong timeout (never longer than the activity timeout) after the last
  reading, plus once the lateness of a timer; and when a ping is unanswered, that timer ends the
  connection with an error.
\<close>

theorem silence_is_noticed:
  assumes "listen lib at ch events (start_listening at t0) = (actions, Inr st)"
    and "timely lib at ch late events (start_listening at t0)"
  shows "deadline st \<le> last_read t0 events + at + late + min PONG_TIMEOUT at
       \<and> (pong_deadline st \<noteq> None \<longrightarrow>
            listen_step lib at ch (DeadlinePassed sent, now) st = ([], Inl ''Pusher ping timed out''))"
proof -
  have "deadlines_ok at late t0 (start_listening at t0)"
    by (simp add: deadlines_ok_def start_listening_def)
  from deadlines_ok_run [OF assms this] show ?thesis
    by (auto simp: deadlines_ok_def deadline_def listen_step_def split: option.splits)
qed

lemma silence_is_noticed_witness:
  "\<exists>actions st. listen sample_pusher_lib 10 ''daemon'' [(DeadlinePassed (Inr ()), 15)]
       (start_listening 10 5) = (actions, Inr st)
     \<and> deadline st \<le> 25
     \<and> listen_step sample_pusher_lib 10 ''daemon'' (DeadlinePassed (Inr ()), 25) st
         = ([], Inl ''Pusher ping timed out'')"
proof -
  define st where "st = \<lparr>activity_deadline = 15, pong_deadline = Some 25\<rparr>"
  have run: "listen sample_pusher_lib 10 ''daemon'' [(DeadlinePassed (Inr ()), 15)] (start_listening 10 5)
      = ([Outgoing (SendText ''json'')], Inr st)"
    by (simp add: st_def listen_step_def start_listening_def ping_text_def sample_pusher_lib_def
        PONG_TIMEOUT_def from_secs_def)
  moreover have "timely sample_pusher_lib 10 ''daemon'' 0 [(DeadlinePassed (Inr ()), 15)]
      (start_listening 10 5)"
    by (simp add: listen_step_def start_listening_def deadline_def)
  moreover have "min PONG_TIMEOUT 10 = 10" by (simp add: PONG_TIMEOUT_def from_secs_def)
  ultimately show ?thesis
    using silence_is_noticed [OF run, of 0] by (auto simp: st_def)
qed

subsection \<open>The subscription\<close>

lemma clamp_bounds: "low \<le> high \<Longrightarrow> low \<le> clamp v low high \<and> clamp v low high \<le> high"
  by (auto simp: clamp_def)

text \<open>
  What a successful handshake gives: the platform authenticated the socket, the subscription with
  its credential was sent on the socket, the channel listened to is the one the platform named, and
  the activity timeout lies between one second and ten minutes whatever the server asked for.
\<close>

lemma subscribed_connection:
  assumes "connect_and_subscribe L lib a = (out, Inr (activity_timeout, channel))"
  shows "from_secs 1 \<le> activity_timeout \<and> activity_timeout \<le> from_secs 600
       \<and> (\<exists>subscription. snd (authenticate_pusher_socket L (at_auth a)) = Inr subscription
            \<and> channel = ps_channel subscription
            \<and> SendText (subscribe_text lib subscription) \<in> set out)"
proof -
  have "(\<exists>v. activity_timeout = from_secs (clamp v MIN_ACTIVITY_TIMEOUT_SECS MAX_ACTIVITY_TIMEOUT_SECS))
      \<and> (\<exists>subscription. snd (authenticate_pusher_socket L (at_auth a)) = Inr subscription
            \<and> channel = ps_channel subscription
            \<and> SendText (subscribe_text lib subscription) \<in> set out)"
    using assms
    by (auto simp: connect_and_subscribe_def Let_def split: option.splits sum.splits prod.splits)
  moreover have "(1::u64) \<le> clamp v 1 600 \<and> clamp v 1 600 \<le> 600" for v
    by (rule clamp_bounds) (simp add: word_le_nat_alt)
  ultimately show ?thesis
    by (auto simp: MIN_ACTIVITY_TIMEOUT_SECS_def MAX_ACTIVITY_TIMEOUT_SECS_def)
qed

lemma subscribed_connection_witness:
  "from_secs 1 \<le> from_secs 120 \<and> SendText ''json'' \<in> set [SendPong [], SendText ''json'']
   \<and> connect_and_subscribe sample_text_lib sample_pusher_lib sample_attempt
       = ([SendPong [], SendText ''json''], Inr (from_secs 120, ''daemon''))"
  using subscribed_connection [OF sample_subscribed] sample_subscribed by simp

end
