(* ===== verification/Daemon.thy ===== *)
theory Daemon
  imports Transaction_Runs Wallet_Service Pusher_Session
begin

text \<open>
  The Pusher connection and the two workers together, as \<open>main\<close> of \<open>src/src/main.rs\<close> wires them: the
  connection notifies the triggers the pollers wait on. What Pusher announces becomes notifications
  of the right worker, and every notification is followed by a lookup, or still waits.
\<close>

subsection \<open>What the connection notifies\<close>

fun transaction_notice :: "connection_action \<Rightarrow> notification list" where
  "transaction_notice ForceTransactions = [ForceLookup]"
| "transaction_notice (Listening (TransactionEvent now)) = [NewEvent now]"
| "transaction_notice a = []"

fun wallet_notice :: "connection_action \<Rightarrow> notification list" where
  "wallet_notice ForceWallets = [ForceLookup]"
| "wallet_notice (Listening (WalletEvent now)) = [NewEvent now]"
| "wallet_notice a = []"

definition transaction_notices_of :: "connection_action list \<Rightarrow> notification list" where
  "transaction_notices_of actions = concat (map transaction_notice actions)"

definition wallet_notices_of :: "connection_action list \<Rightarrow> notification list" where
  "wallet_notices_of actions = concat (map wallet_notice actions)"

lemma notices_of_simps [simp]:
  "transaction_notices_of [] = []" "wallet_notices_of [] = []"
  "transaction_notices_of (a # as) = transaction_notice a @ transaction_notices_of as"
  "wallet_notices_of (a # as) = wallet_notice a @ wallet_notices_of as"
  "transaction_notices_of (as @ bs) = transaction_notices_of as @ transaction_notices_of bs"
  "wallet_notices_of (as @ bs) = wallet_notices_of as @ wallet_notices_of bs"
  by (simp_all add: transaction_notices_of_def wallet_notices_of_def)

lemma handshake_notices [simp]:
  "transaction_notices_of (map Handshake out) = []" "wallet_notices_of (map Handshake out) = []"
  by (induction out) simp_all

text \<open>What a message announces: an event of the given name, for the subscribed channel or for none.\<close>

definition announcement ::
    "pusher_lib \<Rightarrow> string \<Rightarrow> string \<Rightarrow> listen_event \<times> instant \<Rightarrow> notification list" where
  "announcement lib chan event = (\<lambda>(e, now).
     case e of
       Incoming (Got (TextMsg text) sent) \<Rightarrow>
         (case parse_frame lib text of
            Inr frame \<Rightarrow>
              if pf_channel frame \<in> {None, Some chan} \<and> pf_event frame = event
              then [NewEvent now] else []
          | Inl err \<Rightarrow> [])
     | _ \<Rightarrow> [])"

lemma handle_frame_notices:
  assumes "handle_frame lib chan now sent frame = (actions, r)"
  shows "transaction_notices_of (map Listening actions) =
      (if pf_channel frame \<in> {None, Some chan} \<and> pf_event frame = ''TransactionCreated''
       then [NewEvent now] else [])"
    and "wallet_notices_of (map Listening actions) =
      (if pf_channel frame \<in> {None, Some chan} \<and> pf_event frame = ''ManagedWalletRequested''
       then [NewEvent now] else [])"
  using assms by (auto simp: handle_frame_def split: if_splits option.splits)

lemma listen_step_notices:
  assumes "listen_step lib timeout chan e st = (actions, r)"
  shows "transaction_notices_of (map Listening actions) = announcement lib chan ''TransactionCreated'' e
       \<and> wallet_notices_of (map Listening actions) = announcement lib chan ''ManagedWalletRequested'' e"
proof (cases e)
  case (Pair event now)
  show ?thesis
  proof (cases event)
    case (DeadlinePassed sent)
    then show ?thesis using assms Pair by (auto simp: listen_step_def announcement_def split: if_splits)
  next
    case (Incoming item)
    then have "fst (handle_message lib chan now item) = actions"
      using assms Pair by (auto simp: listen_step_def Let_def split: prod.splits sum.splits)
    then obtain r' where handled: "handle_message lib chan now item = (actions, r')"
      by (metis prod.collapse)
    show ?thesis
    proof (cases "\<exists>text sent frame. item = Got (TextMsg text) sent \<and> parse_frame lib text = Inr frame")
      case True
      then show ?thesis
        using handled handle_frame_notices by (auto simp: Pair Incoming announcement_def)
    next
      case False
      then show ?thesis
        using handled by (cases "(lib, chan, now, item)" rule: handle_message.cases)
          (auto simp: Pair Incoming announcement_def split: sum.splits)
    qed
  qed
qed

text \<open>Over a connection: the events read are those up to the one that ends it, if one does.\<close>

lemma listen_notices:
  assumes "listen lib timeout chan events st = (heard, r)"
  shows "\<exists>seen unseen. events = seen @ unseen \<and> listen lib timeout chan seen st = (heard, r)
    \<and> (\<forall>st'. r = Inr st' \<longrightarrow> unseen = [])
    \<and> transaction_notices_of (map Listening heard)
        = concat (map (announcement lib chan ''TransactionCreated'') seen)
    \<and> wallet_notices_of (map Listening heard)
        = concat (map (announcement lib chan ''ManagedWalletRequested'') seen)"
  using assms
proof (induction events arbitrary: st heard)
  case (Cons e events)
  obtain actions r1 where step: "listen_step lib timeout chan e st = (actions, r1)" by fastforce
  note N = listen_step_notices [OF step]
  show ?case
  proof (cases r1)
    case (Inl err)
    then show ?thesis using Cons.prems step N by (intro exI [of _ "[e]"] exI [of _ events]) auto
  next
    case (Inr st1)
    then obtain rest where rest: "listen lib timeout chan events st1 = (rest, r)"
      and all: "heard = actions @ rest"
      using Cons.prems step by (auto split: prod.splits)
    from Cons.IH [OF rest] obtain seen unseen where
      "events = seen @ unseen" "listen lib timeout chan seen st1 = (rest, r)"
      "\<forall>st'. r = Inr st' \<longrightarrow> unseen = []"
      "transaction_notices_of (map Listening rest)
        = concat (map (announcement lib chan ''TransactionCreated'') seen)"
      "wallet_notices_of (map Listening rest)
        = concat (map (announcement lib chan ''ManagedWalletRequested'') seen)" by blast
    then show ?thesis using step Inr N all
      by (intro exI [of _ "e # seen"] exI [of _ unseen]) auto
  qed
qed simp

text \<open>
  C29: What Pusher announces reaches the right worker. A connection that got subscribed notifies the
  transaction poller once for the subscription and then once for each \<open>TransactionCreated\<close> message it
  reads, at its time, on the subscribed channel or on none, and the wallet poller likewise for
  \<open>ManagedWalletRequested\<close>; nothing is left unread but what comes after the message or timeout that
  ends the connection. An attempt that fails notifies nobody.
\<close>

theorem announcements_reach_their_worker:
  assumes "run_iteration L lib se failures = (actions, retry)"
  shows "case snd (connect_and_subscribe L lib (se_attempt se)) of
      Inl e \<Rightarrow> transaction_notices_of actions = [] \<and> wallet_notices_of actions = [] \<and> retry \<noteq> None
    | Inr (timeout, chan) \<Rightarrow>
        (\<exists>seen unseen. se_events se = seen @ unseen
           \<and> transaction_notices_of actions
               = ForceLookup # concat (map (announcement lib chan ''TransactionCreated'') seen)
           \<and> wallet_notices_of actions
               = ForceLookup # concat (map (announcement lib chan ''ManagedWalletRequested'') seen)
           \<and> (if retry = None then unseen = []
              else \<exists>e. snd (listen lib timeout chan seen (start_listening timeout (se_subscribed_at se)))
                     = Inl e))"
proof -
  obtain out r where attempt: "connect_and_subscribe L lib (se_attempt se) = (out, r)" by fastforce
  show ?thesis
  proof (cases r)
    case (Inl e)
    then show ?thesis using assms attempt by (auto simp: run_iteration_def Let_def)
  next
    case (Inr up)
    obtain timeout chan where up: "up = (timeout, chan)" by (cases up)
    obtain heard r1 where heard: "listen lib timeout chan (se_events se)
        (start_listening timeout (se_subscribed_at se)) = (heard, r1)" by fastforce
    from listen_notices [OF this] obtain seen unseen where "se_events se = seen @ unseen"
      "listen lib timeout chan seen (start_listening timeout (se_subscribed_at se)) = (heard, r1)"
      "\<forall>st'. r1 = Inr st' \<longrightarrow> unseen = []"
      "transaction_notices_of (map Listening heard)
        = concat (map (announcement lib chan ''TransactionCreated'') seen)"
      "wallet_notices_of (map Listening heard)
        = concat (map (announcement lib chan ''ManagedWalletRequested'') seen)" by blast
    moreover have "transaction_notices_of actions = ForceLookup # transaction_notices_of (map Listening heard)"
      "wallet_notices_of actions = ForceLookup # wallet_notices_of (map Listening heard)"
      "retry = None \<longleftrightarrow> (\<exists>st'. r1 = Inr st')"
      using assms attempt heard by (auto simp: run_iteration_def Let_def Inr up split: sum.splits)
    ultimately show ?thesis using attempt Inr up
      by (cases r1) (simp_all, intro exI [of _ seen] conjI exI [of _ unseen], auto)
  qed
qed

text \<open>
  C8: Nothing announced is forgotten. At any moment, take the run of the transaction worker so far, with
  the notifications of the connection so far, those before and during its iterations and those since
  the last: each is followed by a lookup from the head of the queue that began after it, or the
  trigger holds it; then, if the poller waits, the wait ends by itself at a definite time and the
  next request is such a lookup.
\<close>

theorem announced_work_is_looked_up:
  assumes run: "transaction_worker L lib keypair xs ((initial_poller, new_trigger), proc)
      = (log, Inr (s, t), proc')"
    and told: "concat (map (\<lambda>(i, env). in_before i @ in_during i) xs) @ waiting
      = transaction_notices_of (run_connection L plib sessions failures)"
    and notice: "n < length (transaction_notices_of (run_connection L plib sessions failures))"
  shows "looked_up 0 n
           (notice_steps in_before (\<lambda>actions. first_fetch actions = Some None) in_during xs log)
       \<or> outstanding (fold deliver waiting t)
         \<and> (\<not> fetch_now s \<longrightarrow> cursor s = None \<and> (\<exists>now. trigger_ready now (fold deliver waiting t)))"
proof -
  note inv = poller_inv_initial [OF trigger_inv_new]
  have "poller_inv (s, t)"
    using transaction_notices.invar_run [OF run [unfolded transaction_worker_def] inv] .
  then have "\<not> fetch_now s \<Longrightarrow> cursor s = None" by (auto simp: poller_inv_def split: if_splits)
  then show ?thesis
    using transaction_notices.notice_answered [OF run [unfolded transaction_worker_def] inv, of n waiting]
      told notice by auto
qed

text \<open>Likewise for the managed-wallet worker.\<close>

lemma announced_wallets_are_looked_up:
  assumes run: "wallet_service L lib keypair xs ((initial_wallet, new_trigger), proc)
      = (log, Inr (s, t), proc')"
    and told: "concat (map (\<lambda>(i, env). wi_before i @ wi_during i) xs) @ waiting
      = wallet_notices_of (run_connection L plib sessions failures)"
    and notice: "n < length (wallet_notices_of (run_connection L plib sessions failures))"
  shows "looked_up 0 n
           (notice_steps wi_before (\<lambda>actions. first_wallet_fetch actions = Some None) wi_during xs log)
       \<or> outstanding (fold deliver waiting t) \<and> (\<exists>now. trigger_ready now (fold deliver waiting t))"
  using wallet_notices.notice_answered [OF run [unfolded wallet_service_def] wallet_inv_initial, of n waiting]
    told notice by auto

subsection \<open>A concrete run\<close>

text \<open>A connection that is subscribed and reads one announcement, and a worker that has made one iteration
  before the announcement.\<close>

definition sample_session :: session where
  "sample_session =
     \<lparr>se_attempt = sample_attempt, se_subscribed_at = 0,
      se_events = [(Incoming (Got (TextMsg ''created'') (Inr ())), 5)], se_connected_for = 0,
      se_jitter = 100\<rparr>"

definition noticed_inputs :: "(poll_input \<times> batch_env) list" where
  "noticed_inputs = [((page_input [signable_row] None [] Skipped)\<lparr>in_before := [ForceLookup]\<rparr>,
     sample_env (ok_response True))]"

lemma sample_iteration:
  "run_iteration sample_text_lib sample_pusher_lib sample_session 0 =
     ([Handshake (SendPong []), Handshake (SendText ''json''), SetConnected True, ForceTransactions,
       ForceWallets, Listening (TransactionEvent 5)], None)"
proof -
  have "listen_step sample_pusher_lib d ''daemon'' (Incoming (Got (TextMsg ''created'') (Inr ())), 5) st
      = ([TransactionEvent 5], Inr \<lparr>activity_deadline = 5 + d, pong_deadline = None\<rparr>)" for d st
    by (simp add: listen_step_def handle_frame_def sample_pusher_lib_def)
  then have "listen sample_pusher_lib d ''daemon'' (se_events sample_session) st
      = ([TransactionEvent 5], Inr \<lparr>activity_deadline = 5 + d, pong_deadline = None\<rparr>)" for d st
    by (simp add: sample_session_def)
  moreover have "se_attempt sample_session = sample_attempt" by (simp add: sample_session_def)
  ultimately show ?thesis
    by (simp add: run_iteration_def sample_subscribed Let_def)
qed

lemma announcements_reach_their_worker_witness:
  "\<exists>actions. run_iteration sample_text_lib sample_pusher_lib sample_session 0 = (actions, None)
     \<and> transaction_notices_of actions = [ForceLookup, NewEvent 5] \<and> wallet_notices_of actions = [ForceLookup]"
proof -
  have "connect_and_subscribe sample_text_lib sample_pusher_lib (se_attempt sample_session)
      = ([SendPong [], SendText ''json''], Inr (from_secs 120, ''daemon''))"
    by (simp add: sample_session_def sample_subscribed)
  moreover have "se_events sample_session = [(Incoming (Got (TextMsg ''created'') (Inr ())), 5)]"
    by (simp add: sample_session_def)
  moreover have "announcement sample_pusher_lib ''daemon'' event
      (Incoming (Got (TextMsg ''created'') (Inr ())), 5)
      = (if event = ''TransactionCreated'' then [NewEvent 5] else [])" for event
    by (simp add: announcement_def sample_pusher_lib_def)
  ultimately show ?thesis
    using announcements_reach_their_worker [OF sample_iteration] sample_iteration by auto
qed

lemma announced_work_is_looked_up_witness:
  "\<exists>log s t p'. sample_worker noticed_inputs ((initial_poller, new_trigger), Some fresh_processor)
       = (log, Inr (s, t), p')
     \<and> (\<forall>n < 2. looked_up 0 n
            (notice_steps in_before (\<lambda>actions. first_fetch actions = Some None) in_during noticed_inputs log)
          \<or> outstanding (fold deliver [NewEvent 5] t))"
proof -
  have "case sample_worker noticed_inputs ((initial_poller, new_trigger), Some fresh_processor) of
      (log, r, proc) \<Rightarrow> (case r of Inl e \<Rightarrow> False | Inr st \<Rightarrow> True)"
    by code_simp
  then obtain log s t p' where
    run: "sample_worker noticed_inputs ((initial_poller, new_trigger), Some fresh_processor) = (log, Inr (s, t), p')"
    by (auto split: sum.splits prod.splits)
  have conn: "transaction_notices_of (run_connection sample_text_lib sample_pusher_lib [sample_session] 0)
      = [ForceLookup, NewEvent 5]"
    by (simp add: sample_iteration)
  have "concat (map (\<lambda>(i, env). in_before i @ in_during i) noticed_inputs) @ [NewEvent 5]
      = transaction_notices_of (run_connection sample_text_lib sample_pusher_lib [sample_session] 0)"
    unfolding conn by (simp add: noticed_inputs_def page_input_def)
  from announced_work_is_looked_up [OF run this, unfolded conn] run show ?thesis by auto
qed

end
