(* ===== verification/Signed_Extrinsics.thy ===== *)
theory Signed_Extrinsics
  imports Transaction_Runs
begin

text \<open>
  What reaches the platform as a signed extrinsic: from the row the platform showed, through the
  client of the row's own chain, to the bytes signed. The metadata store keeps, for each chain, a
  client configured for that very chain (\<open>store_bound\<close>), and every input submitted was signed with it.
\<close>

subsection \<open>The metadata store\<close>

text \<open>The entry of a chain holds its genesis hash, metadata for the spec version it is cached under, and
  one range that covers every block number.\<close>

definition entry_bound :: "'meta metadata_store \<Rightarrow> chain_key \<Rightarrow> bool" where
  "entry_bound store = (\<lambda>(network, chain).
     case store (network, chain) of
       None \<Rightarrow> True
     | Some info \<Rightarrow>
         enjin_genesis (md_client info) = get_genesis_hash network chain
         \<and> sc_genesis_hash (enjin_inner (md_client info)) = Some (get_genesis_hash network chain)
         \<and> map fst (sc_metadata (enjin_inner (md_client info))) = [spec_version info]
         \<and> map (\<lambda>r. (block_range r, sr_spec_version r)) (sc_ranges (enjin_inner (md_client info)))
             = [((0, - 1), spec_version info)])"

definition store_bound :: "'meta metadata_store \<Rightarrow> bool" where
  "store_bound store \<longleftrightarrow> (\<forall>k. entry_bound store k)"

lemma store_bound_empty: "store_bound Map.empty"
  by (simp add: store_bound_def entry_bound_def split_paired_All)

lemma update_metadata_bound:
  assumes "update_metadata_and_substrate_client L lib outcome network chain store = (store', r)"
    and "store_bound store"
  shows "store_bound store'"
proof (cases "r = Inr ()")
  case True
  then obtain info metadata where "build_metadata_info lib network chain info = Inr metadata"
    "store' = insert_metadata network chain metadata store"
    using assms(1) by (auto simp: update_metadata_and_substrate_client_def split: sum.splits)
  moreover have "entry_bound (insert_metadata network chain metadata store) (network, chain)"
    using calculation(1)
    by (auto simp: build_metadata_info_def entry_bound_def insert_metadata_def chain_config_def
        split: if_splits sum.splits)
  ultimately show ?thesis
    using assms(2) by (auto simp: store_bound_def entry_bound_def insert_metadata_def split_paired_All)
next
  case False
  then have "store' = store"
    using assms(1) by (auto simp: update_metadata_and_substrate_client_def split: sum.splits)
  then show ?thesis using assms(2) by simp
qed

lemma prefetch_chain_bound:
  assumes "prefetch_chain L lib env request s = Return s'" and "store_bound (pf_store s)"
  shows "store_bound (pf_store s')"
  using assms
  by (auto simp: prefetch_chain_def Let_def split: if_splits exec.splits sum.splits prod.splits
      dest: update_metadata_bound)

lemma prefetch_chains_bound:
  assumes "prefetch_chains L lib env store requests = Return pf" and "store_bound store"
  shows "store_bound (pf_store pf)"
proof -
  from assms(1) have "(\<lambda>rs s. store_bound (pf_store s)) requests pf"
    unfolding prefetch_chains_def
    by (rule fold_exec_invariant) (use assms(2) prefetch_chain_bound in auto)
  then show ?thesis .
qed

lemma process_tick_bound:
  assumes "process_tick L lib env keypair batch idle p = Return (p', report)" and "store_bound (pr_store p)"
  shows "store_bound (pr_store p')"
proof (cases "batch = []")
  case True
  then show ?thesis using assms by (auto simp: process_tick_def Let_def)
next
  case False
  then obtain q where "transaction_handler L lib env keypair batch q = Return (p', report)"
    "pr_store q = pr_store p"
    using assms(1) by (auto simp: process_tick_def Let_def split: if_splits)
  then show ?thesis
    using assms(2) prefetch_chains_bound by (auto elim!: transaction_handlerE)
qed

lemma run_processor_bound:
  assumes "run_processor L lib keypair ticks p = Return (p', reports)" and "store_bound (pr_store p)"
  shows "store_bound (pr_store p')"
  using assms
  by (induction L lib keypair ticks p arbitrary: reports rule: run_processor.induct)
    (auto split: exec.splits prod.splits dest: process_tick_bound)

subsection \<open>What is signed\<close>

text \<open>The input carries two extrinsics, signed by the wallet of the row's external id with one nonce, at
  one block of the row's chain: the call of the payload (of a fuel tank dispatch, with its settings
  replaced) and an empty remark to abandon it with.\<close>

definition signs_request ::
    "('meta, 'cab, 'tx, 'kp) chain_lib \<Rightarrow> 'kp \<Rightarrow> transaction_request \<Rightarrow> u64 \<Rightarrow> sign_transaction_input
     \<Rightarrow> bool" where
  "signs_request lib keypair request nonce input \<longleftrightarrow>
     (\<exists>client block_number block_hash client_at_block final raw signed_tx signed_dummy_tx.
        let signer = derive_signer (derive_soft lib) keypair (external_id request);
            params = (\<lambda>mortality. mortal_params nonce mortality block_number block_hash)
        in genesis_hash client = Some (get_genesis_hash (req_network request) (req_chain request))
         \<and> at_block lib client (ucast block_number) = Inr client_at_block
         \<and> fuel_tank_payload lib keypair client_at_block block_number (public_key_of lib signer) request
             = Return (Some final)
         \<and> from_bytes lib (metadata_ref lib client_at_block) final = Some raw
         \<and> sign_payload lib client_at_block signer raw (params TX_MORTALITY) = Some signed_tx
         \<and> sign_payload lib client_at_block signer dummy_payload (params DUMMY_TX_MORTALITY)
             = Some signed_dummy_tx
         \<and> input = \<lparr>uuid = request_id request,
                    signed_extrinsic = ''0x'' @ hex_encode lib signed_tx,
                    signed_abandon_extrinsic = ''0x'' @ hex_encode lib signed_dummy_tx\<rparr>)"

lemma build_inputE:
  assumes "build_input lib keypair cab bn bh signer n request = Return (Some input)"
  obtains final raw signed_tx signed_dummy_tx where
    "fuel_tank_payload lib keypair cab bn (public_key_of lib signer) request = Return (Some final)"
    "from_bytes lib (metadata_ref lib cab) final = Some raw"
    "sign_payload lib cab signer raw (mortal_params n TX_MORTALITY bn bh) = Some signed_tx"
    "sign_payload lib cab signer dummy_payload (mortal_params n DUMMY_TX_MORTALITY bn bh)
       = Some signed_dummy_tx"
    "input = \<lparr>uuid = request_id request, signed_extrinsic = ''0x'' @ hex_encode lib signed_tx,
              signed_abandon_extrinsic = ''0x'' @ hex_encode lib signed_dummy_tx\<rparr>"
  using assms that unfolding build_input_def
  by (auto split: exec.split_asm option.split_asm if_split_asm)

lemma can_sign_signs:
  assumes "can_sign lib keypair pf (with_signer lib keypair request) n input"
    and "store_bound (pf_store pf)"
  shows "signs_request lib keypair request n input"
proof -
  let ?signer = "derive_signer (derive_soft lib) keypair (external_id request)"
  from assms(1) obtain bn bh client cab where
    client: "substrate_client (req_network request) (req_chain request) (pf_store pf) = Some client"
    and cab: "at_block lib client (ucast bn) = Inr cab"
    and input: "build_input lib keypair cab bn bh ?signer n request = Return (Some input)"
    by (auto simp: can_sign_def with_signer_def)
  have "entry_bound (pf_store pf) (req_network request, req_chain request)"
    using assms(2) by (simp only: store_bound_def)
  then have "genesis_hash client = Some (get_genesis_hash (req_network request) (req_chain request))"
    using client by (auto simp: entry_bound_def substrate_client_def genesis_hash_def)
  with cab build_inputE [OF input] show ?thesis
    unfolding signs_request_def Let_def by metis
qed

lemma set_keep_some: "x \<in> set (keep_some xs) \<longleftrightarrow> Some x \<in> set xs"
  by (induction xs rule: keep_some.induct) auto

lemma process_tick_signs:
  assumes "process_tick L lib env keypair batch idle p = Return (p', report)"
    and "store_bound (pr_store p)" and "input \<in> set (br_inputs report)"
  shows "\<exists>request \<in> set batch. \<exists>n. signs_request lib keypair request n input"
proof -
  have "batch \<noteq> []" using assms(1,3) by (auto simp: process_tick_def Let_def)
  then obtain q where handled: "transaction_handler L lib env keypair batch q = Return (p', report)"
    and "pr_store q = pr_store p"
    using assms(1) by (auto simp: process_tick_def Let_def split: if_splits)
  then have bound: "store_bound (pr_store q)" using assms(2) by simp
  from handled obtain pf rs where
    pf: "prefetch_chains L lib env (pr_store q) batch = Return pf"
    and rs: "length rs = length batch" "br_inputs report = keep_some rs"
    and signed: "\<forall>i input. i < length batch \<longrightarrow>
       (rs ! i = Some input \<longleftrightarrow>
         (\<exists>n. nonce_at (next_nonce L env (pr_nonces q))
                (request_key lib (with_signer lib keypair (batch ! i)))
                (signed_count lib (request_key lib (with_signer lib keypair (batch ! i)))
                   (take i (map (with_signer lib keypair) batch)) (take i rs)) n
            \<and> can_sign lib keypair pf (with_signer lib keypair (batch ! i)) n input))"
    by (rule handled_batch)
  have "Some input \<in> set rs"
    using assms(3) rs(2) by (simp add: set_keep_some)
  then obtain i where i: "i < length batch" "rs ! i = Some input"
    using rs(1) by (metis in_set_conv_nth)
  then obtain n where "can_sign lib keypair pf (with_signer lib keypair (batch ! i)) n input"
    using signed by blast
  from can_sign_signs [OF this prefetch_chains_bound [OF pf bound]] i(1) show ?thesis
    by (auto intro: nth_mem)
qed

lemma run_processor_signs:
  assumes "run_processor L lib keypair ticks p = Return (p', reports)" and "store_bound (pr_store p)"
    and "input \<in> set (concat (map br_inputs reports))"
  shows "\<exists>env batch idle request n. (env, batch, idle) \<in> set ticks \<and> request \<in> set batch
           \<and> signs_request lib keypair request n input"
  using assms
proof (induction L lib keypair ticks p arbitrary: reports rule: run_processor.induct)
  case (2 L lib keypair env batch idle ticks p)
  then obtain p1 report rest where
    step: "process_tick L lib env keypair batch idle p = Return (p1, report)"
    and rest: "run_processor L lib keypair ticks p1 = Return (p', rest)" and reports: "reports = report # rest"
    by (auto split: exec.splits prod.splits)
  show ?case
  proof (cases "input \<in> set (br_inputs report)")
    case True
    from process_tick_signs [OF step 2(3) this] show ?thesis by auto
  next
    case False
    then have "input \<in> set (concat (map br_inputs rest))" using 2(4) reports by simp
    from 2(1) [OF step refl rest process_tick_bound [OF step 2(3)] this] show ?thesis
      by (metis list.set_intros(2))
  qed
qed simp

subsection \<open>Properties\<close>

text \<open>
  C7: The metadata store stays well formed. Starting from a store in which every client is configured
  for the chain it is kept under (the empty store the daemon starts with, say), so is the store after
  any run of the worker that its processor survives: the entry of a chain has the genesis hash of
  that chain, in both places that hold one, and one range and one metadata, both for the version it
  is cached under.
\<close>

theorem metadata_store_well_formed:
  assumes "transaction_worker L lib keypair xs (st, Some p) = (log, r, Some p')"
    and "store_bound (pr_store p)"
  shows "store_bound (pr_store p')"
  using assms by (auto elim!: transaction_runE dest: run_processor_bound)

text \<open>
  C4: Every input the worker submits, over any run, is signed for a row the platform showed: by the
  wallet of the row's external id, for the genesis hash of the row's own network and chain, at a
  block of it, with the row's call and with an empty remark to abandon it, both with the same nonce
  and the mortalities meant for them. No transaction is ever signed with another wallet's key or for
  another chain than its own.
\<close>

theorem inputs_are_signed_for_their_rows:
  assumes run: "transaction_worker L lib keypair xs (st, Some p) = (log, r, proc)"
    and bound: "store_bound (pr_store p)"
    and input: "input \<in> set (concat (map br_inputs (run_reports log)))"
  shows "\<exists>request \<in> set (concat (map fst (ticks_in (run_actions log)))).
           \<exists>nonce. signs_request lib keypair request nonce input"
proof -
  obtain handled p1 where
    proc: "run_processor L lib keypair handled p = Return (p1, run_reports log)"
    and sent: "case proc of
           Some p' \<Rightarrow> sent_ticks ticks_in (map snd xs) log = handled \<and> p' = p1 \<and> (\<exists>st'. r = Inr st')
         | None \<Rightarrow> \<exists>env batch. sent_ticks ticks_in (map snd xs) log = handled @ [(env, batch)]
                    \<and> handle_tick L lib keypair env batch p1 = Panic \<and> r = Inl AckDropped"
    using run by (rule transaction_runE)
  obtain rest where "sent_ticks ticks_in (map snd xs) log = handled @ rest"
    using sent by (cases proc) auto
  then have "map snd (handled @ rest) = ticks_in (run_actions log)"
    using transaction_run_composed [OF run] by simp
  then have "\<forall>(env, batch, idle) \<in> set handled. (batch, idle) \<in> set (ticks_in (run_actions log))"
    by (rule prefix_ticks_subset)
  then have shown: "(batch, idle) \<in> set (ticks_in (run_actions log))"
    if "(env, batch, idle) \<in> set handled" for env batch idle
    using that by blast
  obtain env batch idle request n where *: "(env, batch, idle) \<in> set handled" "request \<in> set batch"
    "signs_request lib keypair request n input"
    using run_processor_signs [OF proc bound input] by blast
  have "request \<in> set (concat (map fst (ticks_in (run_actions log))))"
    using shown [OF *(1)] *(2) by force
  then show ?thesis using *(3) by blast
qed

text \<open>
  C12: What is signed is what the platform sent. For a transaction that is no fuel tank dispatch, the
  call in the extrinsic is, byte for byte, the payload of the row, under the documented encoding of a
  call, in which the metadata finds a pallet and a call by the names it gave them.
\<close>

theorem signed_call_is_the_payload:
  assumes names: "\<And>metadata p c info. call_info_by_index lib metadata p c = Inr info \<Longrightarrow>
      index_of metadata (ci_pallet_name info) (ci_call_name info) = Some (p, c)"
    and signs: "signs_request lib keypair request nonce input"
    and plain: "fuel_tank_signer_external_id request = None"
  shows "\<exists>client_at_block raw signed_tx block_number block_hash.
           call_data_of (index_of (metadata_ref lib client_at_block)) raw = Some (payload request)
         \<and> sign_payload lib client_at_block
             (derive_signer (derive_soft lib) keypair (external_id request)) raw
             (mortal_params nonce TX_MORTALITY block_number block_hash) = Some signed_tx
         \<and> signed_extrinsic input = ''0x'' @ hex_encode lib signed_tx"
proof -
  let ?signer = "derive_signer (derive_soft lib) keypair (external_id request)"
  from signs obtain cab bn bh final raw signed_tx where
    final: "fuel_tank_payload lib keypair cab bn (public_key_of lib ?signer) request = Return (Some final)"
    and raw: "from_bytes lib (metadata_ref lib cab) final = Some raw"
    and signed: "sign_payload lib cab ?signer raw (mortal_params nonce TX_MORTALITY bn bh) = Some signed_tx"
      "signed_extrinsic input = ''0x'' @ hex_encode lib signed_tx"
    by (auto simp: signs_request_def Let_def)
  have "final = payload request" using final plain by (simp add: fuel_tank_payload_def)
  then have "call_data_of (index_of (metadata_ref lib cab)) raw = Some (payload request)"
    using from_bytes_call_data [of lib "metadata_ref lib cab" "index_of (metadata_ref lib cab)", OF _ raw]
      names by simp
  with signed show ?thesis by blast
qed

text \<open>The client of a chain knows the versions and the metadata for every block number the platform can
  report.\<close>

lemma bound_client_answers:
  assumes "documented_config S" and "store_bound store"
    and "substrate_client network chain store = Some client"
  shows "\<exists>version transaction_version metadata.
           metadata_spec_version network chain store = Some version
         \<and> genesis_hash client = Some (get_genesis_hash network chain)
         \<and> metadata_for_spec_version S client version = Some metadata
         \<and> spec_and_transaction_version_for_block_number S client (ucast (b :: u32))
             = Some (version, transaction_version)"
proof -
  obtain info where info: "store (network, chain) = Some info" "client = md_client info"
    using assms(3) by (auto simp: substrate_client_def)
  moreover have "entry_bound store (network, chain)"
    using assms(2) by (simp only: store_bound_def)
  ultimately obtain r metadata where
    "sc_ranges (enjin_inner client) = [r]" "block_range r = (0, - 1)" "sr_spec_version r = spec_version info"
    "sc_metadata (enjin_inner client) = [(spec_version info, metadata)]"
    "enjin_genesis client = get_genesis_hash network chain"
    by (auto simp: entry_bound_def)
  then show ?thesis
    using assms(1) info ucast_less_max [of b]
    by (simp add: enjin_config_defs documented_config_def metadata_spec_version_def)
qed

subsection \<open>A run\<close>

lemma metadata_store_well_formed_witness:
  "\<exists>log r p'. sample_worker sample_inputs ((initial_poller, new_trigger), Some fresh_processor)
       = (log, r, Some p') \<and> store_bound (pr_store p')"
proof -
  obtain log r p' where run: "sample_worker sample_inputs
      ((initial_poller, new_trigger), Some fresh_processor) = (log, r, Some p')"
    by (rule sample_worker_runs)
  have "store_bound (pr_store fresh_processor)"
    using store_bound_empty by (simp add: fresh_processor_def)
  from metadata_store_well_formed [OF run this] run show ?thesis by blast
qed

lemma sample_worker_signs:
  obtains log r p' input where
    "sample_worker sample_inputs ((initial_poller, new_trigger), Some fresh_processor) = (log, r, Some p')"
    "input \<in> set (concat (map br_inputs (run_reports log)))"
proof -
  obtain log r p' where run: "sample_worker sample_inputs
      ((initial_poller, new_trigger), Some fresh_processor) = (log, r, Some p')"
    by (rule sample_worker_runs)
  moreover have "case sample_worker sample_inputs ((initial_poller, new_trigger), Some fresh_processor) of
      (log, r, proc) \<Rightarrow> concat (map br_inputs (run_reports log)) \<noteq> []"
    by code_simp
  ultimately have "concat (map br_inputs (run_reports log)) \<noteq> []" by simp
  then obtain input where "input \<in> set (concat (map br_inputs (run_reports log)))"
    by (meson last_in_set)
  with run show thesis by (rule that)
qed

lemma inputs_are_signed_for_their_rows_witness:
  "\<exists>request nonce input. signs_request sample_lib 3 request nonce input"
proof -
  obtain log r p' input where run: "sample_worker sample_inputs
      ((initial_poller, new_trigger), Some fresh_processor) = (log, r, Some p')"
    and input: "input \<in> set (concat (map br_inputs (run_reports log)))"
    by (rule sample_worker_signs)
  have "store_bound (pr_store fresh_processor)"
    using store_bound_empty by (simp add: fresh_processor_def)
  from inputs_are_signed_for_their_rows [OF run this input] show ?thesis by blast
qed

text \<open>A remark by the daemon's own key, and what it is signed as.\<close>

definition sample_index :: "bytes \<Rightarrow> string \<Rightarrow> string \<Rightarrow> (u8 \<times> u8) option" where
  "sample_index metadata pallet call = (if pallet = ''System'' then Some (0, 0) else Some (54, 5))"

lemma sample_remark_signed:
  "signs_request sample_lib 3 (sample_request ''a'' None [0, 0, 4] None) 7
     \<lparr>uuid = ''a'', signed_extrinsic = ''0x'' @ [CHR 0x03, CHR 0x07, CHR 0x04],
      signed_abandon_extrinsic = ''0x'' @ [CHR 0x03, CHR 0x07, CHR 0x00]\<rparr>"
  unfolding signs_request_def Let_def
  by (rule exI [of _ "chain_config 1 1 [] (get_genesis_hash Canary Matrix)"],
      rule exI [of _ 1000], rule exI [of _ "[]"], rule exI [of _ "[]"], rule exI [of _ "[0, 0, 4]"],
      rule exI [of _ "\<lparr>pallet_name = ''System'', call_name = ''remark'', field_bytes = [4]\<rparr>"],
      rule exI [of _ "[3, 7, 4]"], rule exI [of _ "[3, 7, 0]"]) code_simp

lemma signed_call_is_the_payload_witness:
  "\<exists>raw :: raw_payload. call_data_of (sample_index []) raw = Some [0, 0, 4]"
proof -
  have "sample_index metadata (ci_pallet_name info) (ci_call_name info) = Some (p, c)"
    if "call_info_by_index sample_lib metadata p c = Inr info" for metadata p c info
    using that by (auto simp: sample_lib_def sample_call_info_def sample_index_def split: if_splits)
  moreover have "fuel_tank_signer_external_id (sample_request ''a'' None [0, 0, 4] None) = None"
    "payload (sample_request ''a'' None [0, 0, 4] None) = [0, 0, 4]"
    by (simp_all add: sample_request_def)
  moreover have "sample_index metadata = sample_index []" for metadata
    by (simp add: sample_index_def fun_eq_iff)
  ultimately show ?thesis
    using signed_call_is_the_payload [of sample_lib sample_index, OF _ sample_remark_signed] by metis
qed

end
