(* ===== verification/Retry_Wait.thy ===== *)
theory Retry_Wait
  imports Work_Trigger
begin

text \<open>
  \<open>wait_for_retry_or_trigger\<close> of \<open>src/src/transaction.rs\<close> and of \<open>src/src/wallet.rs\<close>: a failure delay is
  over when its time has passed, when the poll timer is due, or when new work arrives, whichever is
  first. The pollers' actions \<open>RetryDelay\<close> and \<open>WRetryDelay\<close> are such waits; what is notified during
  one is among the notifications before the next lookup.
\<close>

text \<open>When \<open>wait_for_new_event\<close>, called on the state \<open>s\<close>, returns, if it is woken at the given times with
  the given states.\<close>

fun new_event_at :: "trigger_state \<Rightarrow> (instant \<times> trigger_state) list \<Rightarrow> instant option" where
  "new_event_at s [] = None"
| "new_event_at s ((t, s') # wakeups) =
     (case wait_for_new_event s [s'] of Some s'' \<Rightarrow> Some t | None \<Rightarrow> new_event_at s wakeups)"

definition earliest :: "instant \<Rightarrow> instant option list \<Rightarrow> instant" where
  "earliest t others = fold (\<lambda>other m. case other of None \<Rightarrow> m | Some t' \<Rightarrow> min t' m) others t"

text \<open>The time the wait is over: \<open>timer\<close> is what \<open>tick\<close> sees, \<open>deadline\<close> where the poll timer stands.\<close>

definition wait_for_retry_or_trigger ::
    "instant \<Rightarrow> duration \<Rightarrow> instant \<Rightarrow> tick_input list \<Rightarrow> trigger_state
     \<Rightarrow> (instant \<times> trigger_state) list \<Rightarrow> instant" where
  "wait_for_retry_or_trigger now delay deadline timer s wakeups =
     earliest (now + delay) [map_option fst (tick deadline timer), new_event_at s wakeups]"

definition wallet_wait_for_retry_or_trigger ::
    "instant \<Rightarrow> duration \<Rightarrow> instant \<Rightarrow> tick_input list \<Rightarrow> trigger_state
     \<Rightarrow> (instant \<times> trigger_state) list \<Rightarrow> instant" where
  "wallet_wait_for_retry_or_trigger now delay deadline timer s wakeups =
     earliest (now + delay) [map_option fst (tick deadline timer), new_event_at s wakeups]"

text \<open>A wake-up with the notifications since the wait began ends it when one of them is new work.\<close>

definition new_work :: "trigger_state \<Rightarrow> notification list \<Rightarrow> bool" where
  "new_work s es \<longleftrightarrow> list_ex (\<lambda>e. case e of NewEvent t \<Rightarrow> True | ForceLookup \<Rightarrow> \<not> forced s) es"

lemma new_work_iff:
  "new_work s es \<longleftrightarrow> (\<exists>t. NewEvent t \<in> set es) \<or> ForceLookup \<in> set es \<and> \<not> forced s"
proof (induction es)
  case (Cons e es)
  then show ?case by (cases e) (auto simp: new_work_def)
qed (simp add: new_work_def)

lemma new_event_at_first:
  assumes "list_all (\<lambda>(t, es). length es < 2 ^ 64) wakeups"
  shows "new_event_at s (map (\<lambda>(t, es). (t, fold deliver es s)) wakeups) =
           map_option fst (find (\<lambda>(t, es). new_work s es) wakeups)"
  using assms
proof (induction wakeups)
  case (Cons w wakeups)
  obtain t es where w: "w = (t, es)" by (cases w)
  have "wait_for_new_event s [fold deliver es s] \<noteq> None \<longleftrightarrow> new_work s es"
    using wait_for_new_event_returns_iff [of "[es]" s] Cons.prems by (simp add: w new_work_iff)
  then show ?case
    using Cons by (auto simp: w split: option.split)
qed simp

text \<open>
  C22: A retry delay never outlasts what it is for. It is over when the delay has passed or when the poll
  timer is due, so that with Pusher down it lasts six seconds at most, whatever the number of
  failures; before that it is over at the first wake-up with new work, and no work that was known
  when it began cuts it short.
\<close>

theorem retry_wait_bounds:
  assumes timer: "now \<le> deadline" "deadline \<le> now + poll_interval connected"
    and status: "list_all (\<lambda>(t, c). c = connected) calls"
    and wakeups: "list_all (\<lambda>(t, es). length es < 2 ^ 64) wakeups"
  shows "wait_for_retry_or_trigger now delay deadline (prompt_inputs now deadline connected calls) s
           (map (\<lambda>(t, es). (t, fold deliver es s)) wakeups)
         = (case find (\<lambda>(t, es). new_work s es) wakeups of
              None \<Rightarrow> min deadline (now + delay)
            | Some (t, es) \<Rightarrow> min t (min deadline (now + delay)))
       \<and> wait_for_retry_or_trigger now delay deadline (prompt_inputs now deadline connected calls) s
           (map (\<lambda>(t, es). (t, fold deliver es s)) wakeups)
         \<le> now + min delay (if connected then from_secs 180 else from_secs 6)"
proof -
  have "tick deadline (prompt_inputs now deadline connected calls)
      = Some (deadline, deadline + poll_interval connected)"
    using timer(1) status by (intro tick_unchanged) (auto simp: list_all_iff)
  then have stop: "wait_for_retry_or_trigger now delay deadline (prompt_inputs now deadline connected calls) s
           (map (\<lambda>(t, es). (t, fold deliver es s)) wakeups)
         = (case find (\<lambda>(t, es). new_work s es) wakeups of
              None \<Rightarrow> min deadline (now + delay)
            | Some (t, es) \<Rightarrow> min t (min deadline (now + delay)))"
    using new_event_at_first [OF wakeups, of s]
    by (auto simp: wait_for_retry_or_trigger_def earliest_def split: option.split)
  then have "wait_for_retry_or_trigger now delay deadline (prompt_inputs now deadline connected calls) s
           (map (\<lambda>(t, es). (t, fold deliver es s)) wakeups) \<le> min deadline (now + delay)"
    by (auto split: option.split)
  moreover have "deadline \<le> now + (if connected then from_secs 180 else from_secs 6)"
    using timer(2) by (simp add: poll_interval_def trigger_consts split: if_splits)
  ultimately show ?thesis using stop by (auto simp: min_def split: if_splits)
qed

lemma retry_wait_bounds_witness:
  "wait_for_retry_or_trigger 0 (from_secs 60) (from_secs 6)
     (prompt_inputs 0 (from_secs 6) False [(7, False)]) new_trigger
     (map (\<lambda>(t, es). (t, fold deliver es new_trigger)) [(from_secs 2, []), (from_secs 4, [NewEvent 7])])
   = from_secs 4"
  using retry_wait_bounds [of 0 "from_secs 6" False "[(7, False)]"
      "[(from_secs 2, []), (from_secs 4, [NewEvent 7])]" "from_secs 60" new_trigger]
  by (simp add: new_work_def poll_interval_def trigger_consts)

end
