(* ===== verification/Crypto.thy ===== *)
theory Crypto
  imports Rust_Text
begin

text \<open>
  \<open>src/src/crypto.rs\<close>: the encrypted seed file. The cipher (AES-256-GCM), the password hash (Argon2),
  \<open>hex\<close> and \<open>serde_json\<close> are third-party, the record \<open>crypto_lib\<close>; the random salt and nonce are
  arguments. What the round trip needs of them are the laws of the locale \<open>seed_cipher\<close>. An
  \<open>expect\<close> that fails is \<open>Panic\<close>. Texts are their UTF-8 bytes.
\<close>

definition SALT_LEN :: nat where "SALT_LEN = 16"
definition NONCE_LEN :: nat where "NONCE_LEN = 12"
definition KEY_LEN :: nat where "KEY_LEN = 32"
definition VERSION_V1 :: u8 where "VERSION_V1 = 1"
definition VERSION_V2 :: u8 where "VERSION_V2 = 2"

record encrypted_data =
  version :: u8
  ed_salt :: "string option"
  ed_nonce :: "string option"
  ed_data :: string
  imported :: "bool option"

text \<open>\<open>argon2\<close> gives the output of the hash of a password under an encoded salt, if it has one;
  \<open>aead_decrypt\<close> panics, in \<open>Nonce::from_slice\<close>, on a nonce of the wrong length.\<close>

record crypto_lib =
  lib_hex_encode :: "bytes \<Rightarrow> string"
  lib_hex_decode :: "string \<Rightarrow> bytes result"
  salt_string :: "bytes \<Rightarrow> string result"
  argon2 :: "string \<Rightarrow> string \<Rightarrow> bytes option result"
  aead_encrypt :: "bytes \<Rightarrow> bytes \<Rightarrow> bytes \<Rightarrow> bytes result"
  aead_decrypt :: "bytes \<Rightarrow> bytes \<Rightarrow> bytes \<Rightarrow> bytes option exec"
  to_json :: "encrypted_data \<Rightarrow> string"
  from_json :: "string \<Rightarrow> encrypted_data result"
  from_utf8 :: "bytes \<Rightarrow> string result"
  show_u8 :: "u8 \<Rightarrow> string"

text \<open>\<open>map_err\<close>.\<close>

definition map_err :: "string \<Rightarrow> 'a result \<Rightarrow> 'a result" where
  "map_err label r = (case r of Inl e \<Rightarrow> Inl (label @ e) | Inr v \<Rightarrow> Inr v)"

text \<open>The first bytes of the hash over an array of zeros.\<close>

definition derive_key :: "crypto_lib \<Rightarrow> string \<Rightarrow> bytes \<Rightarrow> bytes result" where
  "derive_key lib password salt =
     (case map_err ''Invalid salt: '' (salt_string lib salt) of
        Inl e \<Rightarrow> Inl e
      | Inr salt_text \<Rightarrow>
     (case map_err ''Hash failed: '' (argon2 lib password salt_text) of
        Inl e \<Rightarrow> Inl e
      | Inr hash \<Rightarrow>
     (case ok_or hash ''No hash output'' of
        Inl e \<Rightarrow> Inl e
      | Inr hash_slice \<Rightarrow>
          (let len = min (length hash_slice) KEY_LEN
           in Inr (take len hash_slice @ replicate (KEY_LEN - len) 0)))))"

definition encrypt_with_imported ::
    "crypto_lib \<Rightarrow> bytes \<Rightarrow> bytes \<Rightarrow> string \<Rightarrow> string \<Rightarrow> bool \<Rightarrow> string exec" where
  "encrypt_with_imported lib salt nonce plaintext password was_imported =
     (case expect (derive_key lib password salt) of
        Panic \<Rightarrow> Panic
      | Return key \<Rightarrow>
     (case expect (aead_encrypt lib key nonce (string_bytes plaintext)) of
        Panic \<Rightarrow> Panic
      | Return ciphertext \<Rightarrow>
          Return (to_json lib
            \<lparr>version = VERSION_V2, ed_salt = Some (lib_hex_encode lib salt),
             ed_nonce = Some (lib_hex_encode lib nonce), ed_data = lib_hex_encode lib ciphertext,
             imported = Some was_imported\<rparr>)))"

definition encrypt :: "crypto_lib \<Rightarrow> bytes \<Rightarrow> bytes \<Rightarrow> string \<Rightarrow> string \<Rightarrow> string exec" where
  "encrypt lib salt nonce plaintext password =
     encrypt_with_imported lib salt nonce plaintext password False"

text \<open>The arm of \<open>decrypt\<close> for version 2.\<close>

definition decrypt_v2 :: "crypto_lib \<Rightarrow> encrypted_data \<Rightarrow> string \<Rightarrow> string result exec" where
  "decrypt_v2 lib encrypted password =
     (case ok_or (ed_salt encrypted) ''Missing salt'' of
        Inl e \<Rightarrow> Return (Inl e)
      | Inr salt \<Rightarrow>
     (case ok_or (ed_nonce encrypted) ''Missing nonce'' of
        Inl e \<Rightarrow> Return (Inl e)
      | Inr nonce \<Rightarrow>
     (case map_err ''Invalid hex: '' (lib_hex_decode lib (ed_data encrypted)) of
        Inl e \<Rightarrow> Return (Inl e)
      | Inr ciphertext \<Rightarrow>
     (case map_err ''Invalid salt hex: '' (lib_hex_decode lib salt) of
        Inl e \<Rightarrow> Return (Inl e)
      | Inr salt_bytes \<Rightarrow>
     (case map_err ''Invalid nonce hex: '' (lib_hex_decode lib nonce) of
        Inl e \<Rightarrow> Return (Inl e)
      | Inr nonce_bytes \<Rightarrow>
     (case derive_key lib password salt_bytes of
        Inl e \<Rightarrow> Return (Inl e)
      | Inr key \<Rightarrow>
     (case aead_decrypt lib key nonce_bytes ciphertext of
        Panic \<Rightarrow> Panic
      | Return None \<Rightarrow> Return (Inl ''Decryption failed - wrong password?'')
      | Return (Some plaintext) \<Rightarrow>
     (case map_err ''Invalid UTF-8: '' (from_utf8 lib plaintext) of
        Inl e \<Rightarrow> Return (Inl e)
      | Inr text \<Rightarrow>
          Return (Inr (if imported encrypted = Some True then text @ ''///'' @ password else text))))))))))"

definition decrypt :: "crypto_lib \<Rightarrow> string \<Rightarrow> string \<Rightarrow> string result exec" where
  "decrypt lib encrypted_json password =
     (case map_err ''Invalid JSON: '' (from_json lib encrypted_json) of
        Inl e \<Rightarrow> Return (Inl e)
      | Inr encrypted \<Rightarrow>
          if version encrypted = VERSION_V1
          then Return (Inl ''V1 format detected - plain text migration not supported'')
          else if version encrypted = VERSION_V2 then decrypt_v2 lib encrypted password
          else Return (Inl (''Unknown version: '' @ show_u8 lib (version encrypted))))"

definition is_encrypted_v2 :: "crypto_lib \<Rightarrow> string \<Rightarrow> bool" where
  "is_encrypted_v2 lib data =
     (case from_json lib data of Inr encrypted \<Rightarrow> version encrypted = VERSION_V2 | Inl e \<Rightarrow> False)"

subsection \<open>Base 64\<close>

unbundle bit_operations_syntax

definition ALPHABET :: string where
  "ALPHABET = ''ABCDEFGHIJKLMNOPQRSTUVWXYZabcdefghijklmnopqrstuvwxyz0123456789+/''"

definition alphabet_char :: "u32 \<Rightarrow> char" where
  "alphabet_char n = ALPHABET ! unat (n AND 0x3F)"

text \<open>One chunk, of one to three bytes.\<close>

fun encode_chunk :: "bytes \<Rightarrow> string" where
  "encode_chunk [a] =
     (let n = push_bit 16 (ucast a :: u32)
      in [alphabet_char (drop_bit 18 n), alphabet_char (drop_bit 12 n), CHR ''='', CHR ''=''])"
| "encode_chunk [a, b] =
     (let n = push_bit 16 (ucast a :: u32) OR push_bit 8 (ucast b)
      in [alphabet_char (drop_bit 18 n), alphabet_char (drop_bit 12 n),
          alphabet_char (drop_bit 6 n), CHR ''=''])"
| "encode_chunk [a, b, c] =
     (let n = push_bit 16 (ucast a :: u32) OR push_bit 8 (ucast b) OR ucast c
      in [alphabet_char (drop_bit 18 n), alphabet_char (drop_bit 12 n),
          alphabet_char (drop_bit 6 n), alphabet_char n])"
| "encode_chunk _ = []"

fun base64_encode :: "bytes \<Rightarrow> string" where
  "base64_encode (a # b # c # rest) = encode_chunk [a, b, c] @ base64_encode rest"
| "base64_encode [] = []"
| "base64_encode chunk = encode_chunk chunk"

subsection \<open>The round trip\<close>

text \<open>What the third-party parts document: decoding inverts encoding for hex, JSON and UTF-8 (on texts the
  program can hold, \<open>is_text\<close>), an AEAD with a nonce of its length decrypts what it encrypted with the
  same key, and refuses it with any other key.\<close>

definition lawful_crypto :: "crypto_lib \<Rightarrow> (string \<Rightarrow> bool) \<Rightarrow> bool" where
  "lawful_crypto lib is_text \<longleftrightarrow>
     (\<forall>b. lib_hex_decode lib (lib_hex_encode lib b) = Inr b)
     \<and> (\<forall>d. from_json lib (to_json lib d) = Inr d)
     \<and> (\<forall>s. is_text s \<longrightarrow> from_utf8 lib (string_bytes s) = Inr s)
     \<and> (\<forall>k k' n m c. length n = NONCE_LEN \<longrightarrow> aead_encrypt lib k n m = Inr c
          \<longrightarrow> aead_decrypt lib k' n c = Return (if k' = k then Some m else None))"

lemma lawful_cryptoD:
  assumes "lawful_crypto lib is_text"
  shows "lib_hex_decode lib (lib_hex_encode lib b) = Inr b" "from_json lib (to_json lib d) = Inr d"
    and "is_text s \<Longrightarrow> from_utf8 lib (string_bytes s) = Inr s"
    and "\<lbrakk>length n = NONCE_LEN; aead_encrypt lib k n m = Inr c\<rbrakk>
      \<Longrightarrow> aead_decrypt lib k' n c = Return (if k' = k then Some m else None)"
  using assms unfolding lawful_crypto_def by blast+

lemma encryptedE:
  assumes "encrypt_with_imported lib salt nonce plaintext password was_imported = Return text"
  obtains key ciphertext where
    "derive_key lib password salt = Inr key"
    "aead_encrypt lib key nonce (string_bytes plaintext) = Inr ciphertext"
    "text = to_json lib \<lparr>version = VERSION_V2, ed_salt = Some (lib_hex_encode lib salt),
             ed_nonce = Some (lib_hex_encode lib nonce), ed_data = lib_hex_encode lib ciphertext,
             imported = Some was_imported\<rparr>"
  using assms
  by (auto simp: encrypt_with_imported_def split: exec.splits)

lemma v2_not_v1: "VERSION_V2 \<noteq> VERSION_V1"
  by (simp add: VERSION_V1_def VERSION_V2_def)

lemma decrypt_encrypted:
  assumes "lawful_crypto lib is_text" and "is_text plaintext" and "length nonce = NONCE_LEN"
    and enc: "encrypt_with_imported lib salt nonce plaintext password was_imported = Return text"
  shows "is_encrypted_v2 lib text"
    and "decrypt lib text password' =
       (case derive_key lib password' salt of
          Inl e \<Rightarrow> Return (Inl e)
        | Inr key' \<Rightarrow>
            if derive_key lib password salt = Inr key'
            then Return (Inr (if was_imported then plaintext @ ''///'' @ password' else plaintext))
            else Return (Inl ''Decryption failed - wrong password?''))"
proof -
  note L = lawful_cryptoD [OF assms(1)]
  from enc obtain key ciphertext where e:
    "derive_key lib password salt = Inr key"
    "aead_encrypt lib key nonce (string_bytes plaintext) = Inr ciphertext"
    "text = to_json lib \<lparr>version = VERSION_V2, ed_salt = Some (lib_hex_encode lib salt),
             ed_nonce = Some (lib_hex_encode lib nonce), ed_data = lib_hex_encode lib ciphertext,
             imported = Some was_imported\<rparr>"
    by (rule encryptedE)
  show "is_encrypted_v2 lib text" by (simp add: is_encrypted_v2_def e(3) L)
  show "decrypt lib text password' =
       (case derive_key lib password' salt of
          Inl e \<Rightarrow> Return (Inl e)
        | Inr key' \<Rightarrow>
            if derive_key lib password salt = Inr key'
            then Return (Inr (if was_imported then plaintext @ ''///'' @ password' else plaintext))
            else Return (Inl ''Decryption failed - wrong password?''))"
    using v2_not_v1 L(3) [OF assms(2)] L(4) [OF assms(3) e(2)]
    by (auto simp: decrypt_def decrypt_v2_def map_err_def e(1,3) L(1,2) split: sum.splits)
qed

text \<open>A library with these laws: its keys are the passwords padded to 32 bytes, and a ciphertext is the key
  followed by the plaintext; its JSON writes a text that lists the fields.\<close>

definition sample_text :: "bytes \<Rightarrow> string" where
  "sample_text b = map (\<lambda>x. char_of (unat x)) b"

fun sample_quote :: "string \<Rightarrow> string" where
  "sample_quote [] = ''.''"
| "sample_quote (c # s) = CHR '','' # c # sample_quote s"

fun sample_unquote :: "string \<Rightarrow> (string \<times> string) option" where
  "sample_unquote (d # c # s) =
     (if d = CHR '','' then (case sample_unquote s of None \<Rightarrow> None | Some (x, rest) \<Rightarrow> Some (c # x, rest))
      else if d = CHR ''.'' then Some ([], c # s) else None)"
| "sample_unquote [d] = (if d = CHR ''.'' then Some ([], []) else None)"
| "sample_unquote [] = None"

lemma sample_unquote_quote [simp]: "sample_unquote (sample_quote s @ rest) = Some (s, rest)"
proof (induction s)
  case Nil
  then show ?case by (cases rest) simp_all
qed simp

fun sample_quote_option :: "string option \<Rightarrow> string" where
  "sample_quote_option None = ''N''"
| "sample_quote_option (Some s) = CHR ''S'' # sample_quote s"

fun sample_unquote_option :: "string \<Rightarrow> (string option \<times> string) option" where
  "sample_unquote_option (c # s) =
     (if c = CHR ''N'' then Some (None, s)
      else map_option (\<lambda>(x, rest). (Some x, rest)) (sample_unquote s))"
| "sample_unquote_option [] = None"

lemma sample_unquote_quote_option [simp]:
  "sample_unquote_option (sample_quote_option v @ rest) = Some (v, rest)"
  by (cases v) simp_all

definition sample_to_json :: "encrypted_data \<Rightarrow> string" where
  "sample_to_json d =
     char_of (unat (version d)) # sample_quote_option (ed_salt d) @ sample_quote_option (ed_nonce d)
     @ sample_quote (ed_data d)
     @ (case imported d of None \<Rightarrow> ''N'' | Some b \<Rightarrow> if b then ''T'' else ''F'')"

definition sample_from_json :: "string \<Rightarrow> encrypted_data result" where
  "sample_from_json s =
     (case s of
        [] \<Rightarrow> Inl ''EOF''
      | v # s1 \<Rightarrow>
     (case sample_unquote_option s1 of
        None \<Rightarrow> Inl ''expected value''
      | Some (salt, s2) \<Rightarrow>
     (case sample_unquote_option s2 of
        None \<Rightarrow> Inl ''expected value''
      | Some (nonce, s3) \<Rightarrow>
     (case sample_unquote s3 of
        None \<Rightarrow> Inl ''expected value''
      | Some (dat, s4) \<Rightarrow>
          Inr \<lparr>version = of_nat (of_char v), ed_salt = salt, ed_nonce = nonce, ed_data = dat,
               imported = (if s4 = ''N'' then None else Some (s4 = ''T''))\<rparr>))))"

lemma unat_less_256: "unat (v :: u8) < 256"
  using unsigned_less [of v, where 'a = nat] by simp

lemma sample_bytes [simp]:
  "sample_text (string_bytes s) = s" "string_bytes (sample_text b) = b"
  "word_of_nat (unat (v :: u8) mod 256) = v"
proof -
  have c: "char_of (unat (of_nat (of_char c) :: u8)) = c" for c
    using of_char_mod_256 [of c, where 'a = nat] by (simp add: unat_of_nat)
  show v: "word_of_nat (unat (v :: u8) mod 256) = v" for v
    using unat_less_256 [of v] by simp
  show "sample_text (string_bytes s) = s"
    by (simp add: sample_text_def string_bytes_def c comp_def)
  show "string_bytes (sample_text b) = b"
    by (simp add: sample_text_def string_bytes_def comp_def v)
qed

lemma sample_json [simp]: "sample_from_json (sample_to_json d) = Inr d"
  by (cases d) (auto simp: sample_from_json_def sample_to_json_def split: option.splits)

definition sample_seal :: "bytes \<Rightarrow> bytes \<Rightarrow> bytes" where
  "sample_seal k m = concat (map (\<lambda>b. [1, b]) k) @ 0 # m"

fun sample_open :: "bytes \<Rightarrow> bytes \<Rightarrow> bytes option" where
  "sample_open [] (z # m) = (if z = 0 then Some m else None)"
| "sample_open (b # k) (z # b' # c) = (if z = 1 \<and> b' = b then sample_open k c else None)"
| "sample_open k c = None"

lemma sample_open_seal [simp]: "sample_open k' (sample_seal k m) = (if k' = k then Some m else None)"
proof (induction k arbitrary: k')
  case Nil
  show ?case by (cases k'; cases m) (simp_all add: sample_seal_def)
next
  case (Cons b k)
  then show ?case by (cases k') (auto simp: sample_seal_def)
qed

definition sample_crypto :: crypto_lib where
  "sample_crypto =
     \<lparr>lib_hex_encode = sample_text, lib_hex_decode = (\<lambda>s. Inr (string_bytes s)),
      salt_string = (\<lambda>b. Inr (sample_text b)),
      argon2 = (\<lambda>password salt. Inr (Some (string_bytes password))),
      aead_encrypt = (\<lambda>k n m. Inr (sample_seal k m)),
      aead_decrypt = (\<lambda>k n c. if length n = NONCE_LEN then Return (sample_open k c) else Panic),
      to_json = sample_to_json, from_json = sample_from_json,
      from_utf8 = (\<lambda>b. Inr (sample_text b)), show_u8 = (\<lambda>v. ''version'')\<rparr>"

lemma sample_crypto_lawful: "lawful_crypto sample_crypto (\<lambda>s. True)"
  by (simp add: lawful_crypto_def sample_crypto_def)

subsection \<open>Properties\<close>

text \<open>
  C36: An encrypted seed opens with its password and with nothing else. What \<open>encrypt\<close> wrote is
  recognised as version 2 and decrypts to the plaintext (followed by three slashes and the password
  for a seed migrated from version 1); with a password that derives another key it is refused.
\<close>

theorem seed_encryption_roundtrip:
  assumes "lawful_crypto lib is_text" and "is_text plaintext" and "length nonce = NONCE_LEN"
    and "encrypt_with_imported lib salt nonce plaintext password was_imported = Return text"
    and "derive_key lib wrong salt = Inr other" and "derive_key lib password salt \<noteq> Inr other"
  shows "is_encrypted_v2 lib text
       \<and> decrypt lib text password
           = Return (Inr (if was_imported then plaintext @ ''///'' @ password else plaintext))
       \<and> decrypt lib text wrong = Return (Inl ''Decryption failed - wrong password?'')"
proof -
  obtain key where "derive_key lib password salt = Inr key"
    using encryptedE [OF assms(4)] by metis
  then show ?thesis
    using decrypt_encrypted [OF assms(1-4)] assms(5,6) by simp
qed

lemma seed_encryption_roundtrip_witness:
  "\<exists>encoded. encrypt_with_imported sample_crypto [] (replicate 12 0) ''seed'' ''pass'' True = Return encoded
     \<and> decrypt sample_crypto encoded ''pass'' = Return (Inr ''seed///pass'')
     \<and> decrypt sample_crypto encoded ''Pass'' = Return (Inl ''Decryption failed - wrong password?'')"
proof -
  have keys: "\<exists>key. derive_key sample_crypto password salt = Inr key" for password salt
    by (simp add: derive_key_def sample_crypto_def map_err_def Let_def)
  have differ: "derive_key sample_crypto ''pass'' [] \<noteq> derive_key sample_crypto ''Pass'' []"
    by (simp add: derive_key_def sample_crypto_def map_err_def KEY_LEN_def string_bytes_def)
  obtain other where other: "derive_key sample_crypto ''Pass'' [] = Inr other" using keys by blast
  obtain encoded where encoded:
    "encrypt_with_imported sample_crypto [] (replicate 12 0) ''seed'' ''pass'' True = Return encoded"
    using keys [of "''pass''" "[]"]
    by (auto simp: encrypt_with_imported_def expect_def sample_crypto_def split: sum.splits)
  have "is_encrypted_v2 sample_crypto encoded
       \<and> decrypt sample_crypto encoded ''pass''
           = Return (Inr (if True then ''seed'' @ ''///'' @ ''pass'' else ''seed''))
       \<and> decrypt sample_crypto encoded ''Pass'' = Return (Inl ''Decryption failed - wrong password?'')"
    by (rule seed_encryption_roundtrip [OF sample_crypto_lawful _ _ encoded other])
      (simp_all add: NONCE_LEN_def differ other [symmetric])
  then show ?thesis using encoded by simp
qed

end
