(* ===== verification/Seed_Store.thy ===== *)
theory Seed_Store
  imports Crypto "HOL-Library.Sublist"
begin

text \<open>
  \<open>src/src/wallet_loader.rs\<close> and \<open>src/src/importer.rs\<close>: where the wallet seed is kept, how it is read,
  written, imported and migrated from version 1. The state is the part of the file system the code
  sees, what was printed, and how often randomness was drawn. An operation returns a value or panics,
  and either way leaves a state: \<open>'a io\<close>. A path is the list of its components from the root.
\<close>

type_synonym path = "string list"

record world =
  files :: "path \<Rightarrow> string option"
  dirs :: "path set"
  stdout :: "string list"
  stderr :: "string list"
  drawn :: nat

type_synonym 'a io = "world \<Rightarrow> 'a exec \<times> world"

text \<open>How a write to a file goes: all of it is written, the file cannot be opened, or it is left with
  something else.\<close>

datatype write_fate = Written | NotOpened | Torn string

datatype file_op = ReadFile | CreateDir | RemoveFile

text \<open>Third-party code and the operating system: the key pair of a secret URI, SS58 addresses, the random
  values by the number of earlier draws, the names \<open>read_dir\<close> finds (if it succeeds; a name that is
  not UTF-8 has no text), and which operations fail for a reason of the system's own.\<close>

record ('uri, 'kp) wallet_lib =
  crypto :: crypto_lib
  parse_uri :: "string \<Rightarrow> 'uri result"
  keypair_from_uri :: "'uri \<Rightarrow> 'kp result"
  kp_public :: "'kp \<Rightarrow> bytes"
  kp_sign :: "'kp \<Rightarrow> bytes \<Rightarrow> bytes"
  ss58 :: "nat \<Rightarrow> bytes \<Rightarrow> string"
  generated_mnemonic :: "nat \<Rightarrow> string"
  random_salt :: "nat \<Rightarrow> bytes"
  random_nonce :: "nat \<Rightarrow> bytes"
  read_dir :: "path \<Rightarrow> string option list option"
  refused :: "file_op \<Rightarrow> path \<Rightarrow> bool"
  write_fate :: "path \<Rightarrow> write_fate"
  pkg_version :: string

subsection \<open>Operations\<close>

definition return_io :: "'a \<Rightarrow> 'a io" where
  "return_io v = (\<lambda>w. (Return v, w))"

definition panic :: "'a io" where
  "panic = (\<lambda>w. (Panic, w))"

definition and_then :: "'a io \<Rightarrow> ('a \<Rightarrow> 'b io) \<Rightarrow> 'b io" where
  "and_then m f = (\<lambda>w. case m w of (Panic, w') \<Rightarrow> (Panic, w') | (Return v, w') \<Rightarrow> f v w')"

definition lift_exec :: "'a exec \<Rightarrow> 'a io" where
  "lift_exec r = (\<lambda>w. (r, w))"

definition ask :: "(world \<Rightarrow> 'a) \<Rightarrow> 'a io" where
  "ask f = (\<lambda>w. (Return (f w), w))"

definition println :: "string \<Rightarrow> unit io" where
  "println line = (\<lambda>w. (Return (), w\<lparr>stdout := stdout w @ [line]\<rparr>))"

definition eprintln :: "string \<Rightarrow> unit io" where
  "eprintln line = (\<lambda>w. (Return (), w\<lparr>stderr := stderr w @ [line]\<rparr>))"

definition draw :: "(nat \<Rightarrow> 'a) \<Rightarrow> 'a io" where
  "draw f = (\<lambda>w. (Return (f (drawn w)), w\<lparr>drawn := drawn w + 1\<rparr>))"

definition is_file :: "path \<Rightarrow> world \<Rightarrow> bool" where
  "is_file p w \<longleftrightarrow> files w p \<noteq> None"

definition is_dir :: "path \<Rightarrow> world \<Rightarrow> bool" where
  "is_dir p w \<longleftrightarrow> p \<in> dirs w"

definition path_exists :: "path \<Rightarrow> world \<Rightarrow> bool" where
  "path_exists p w \<longleftrightarrow> is_file p w \<or> is_dir p w"

text \<open>The parent of the root is \<open>None\<close>.\<close>

definition parent :: "path \<Rightarrow> path option" where
  "parent p = (if p = [] then None else Some (butlast p))"

definition read_to_string :: "('uri, 'kp) wallet_lib \<Rightarrow> path \<Rightarrow> string io" where
  "read_to_string lib p = (\<lambda>w.
     case files w p of
       None \<Rightarrow> (Panic, w)
     | Some content \<Rightarrow> if refused lib ReadFile p then (Panic, w) else (Return content, w))"

definition create_dir_all :: "('uri, 'kp) wallet_lib \<Rightarrow> path \<Rightarrow> unit io" where
  "create_dir_all lib p = (\<lambda>w.
     if list_ex (\<lambda>q. is_file q w) (prefixes p) \<or> refused lib CreateDir p then (Panic, w)
     else (Return (), w\<lparr>dirs := dirs w \<union> set (prefixes p)\<rparr>))"

definition write_file :: "('uri, 'kp) wallet_lib \<Rightarrow> path \<Rightarrow> string \<Rightarrow> unit io" where
  "write_file lib p content = (\<lambda>w.
     if is_dir p w \<or> (case parent p of None \<Rightarrow> True | Some d \<Rightarrow> \<not> is_dir d w) then (Panic, w)
     else case write_fate lib p of
            Written \<Rightarrow> (Return (), w\<lparr>files := (files w)(p \<mapsto> content)\<rparr>)
          | NotOpened \<Rightarrow> (Panic, w)
          | Torn partial \<Rightarrow> (Panic, w\<lparr>files := (files w)(p \<mapsto> partial)\<rparr>))"

definition remove_file :: "('uri, 'kp) wallet_lib \<Rightarrow> path \<Rightarrow> unit io" where
  "remove_file lib p = (\<lambda>w.
     if \<not> is_file p w \<or> refused lib RemoveFile p then (Panic, w)
     else (Return (), w\<lparr>files := (files w)(p := None)\<rparr>))"

lemmas io_defs = return_io_def panic_def and_then_def lift_exec_def ask_def println_def eprintln_def
  draw_def read_to_string_def create_dir_all_def write_file_def remove_file_def

subsection \<open>Paths\<close>

fun split_on :: "char \<Rightarrow> string \<Rightarrow> string list" where
  "split_on d [] = [[]]"
| "split_on d (c # s) =
     (if c = d then [] # split_on d s
      else (case split_on d s of [] \<Rightarrow> [[c]] | w # ws \<Rightarrow> (c # w) # ws))"

definition path_of_text :: "string \<Rightarrow> path" where
  "path_of_text s = filter (\<lambda>c. c \<noteq> [] \<and> c \<noteq> ''.'') (split_on CHR ''/'' s)"

definition is_absolute :: "string \<Rightarrow> bool" where
  "is_absolute s = (case s of c # _ \<Rightarrow> c = CHR ''/'' | [] \<Rightarrow> False)"

definition SEED_FILE :: string where "SEED_FILE = ''wallet.seed''"

definition resolve_seed_path :: "path \<Rightarrow> string option \<Rightarrow> world \<Rightarrow> path" where
  "resolve_seed_path cwd seed_path w =
     (case seed_path of
        Some text \<Rightarrow>
          if is_absolute text then path_of_text text else cwd @ path_of_text text
      | None \<Rightarrow>
          if is_file (cwd @ [SEED_FILE]) w then cwd @ [SEED_FILE]
          else if is_dir (cwd @ [''store'']) w then cwd @ [''store''] else cwd)"

text \<open>Whether the last component has an extension: a dot after its first character.\<close>

definition has_extension :: "path \<Rightarrow> bool" where
  "has_extension p = (p \<noteq> [] \<and> last p \<noteq> ''..'' \<and> CHR ''.'' \<in> set (tl (last p)))"

subsection \<open>Reading and writing the seed\<close>

definition decrypt_mnemonic :: "('uri, 'kp) wallet_lib \<Rightarrow> string \<Rightarrow> string exec" where
  "decrypt_mnemonic lib content =
     (let stripped = trim_matches (\<lambda>c. c = CHR 0x0D)
            (trim_matches (\<lambda>c. c = CHR 0x0A) (trim_matches (\<lambda>c. c = CHR 0x22) (trim content)))
      in if is_encrypted_v2 (crypto lib) stripped then Panic else Return stripped)"

text \<open>The key pair of a secret, with both \<open>expect\<close>s.\<close>

definition keypair_of :: "('uri, 'kp) wallet_lib \<Rightarrow> string \<Rightarrow> 'kp exec" where
  "keypair_of lib secret =
     (case parse_uri lib secret of
        Inl e \<Rightarrow> Panic
      | Inr uri \<Rightarrow> (case keypair_from_uri lib uri of Inl e \<Rightarrow> Panic | Inr kp \<Rightarrow> Return kp))"

definition encrypt_seed ::
    "('uri, 'kp) wallet_lib \<Rightarrow> string \<Rightarrow> string \<Rightarrow> bool \<Rightarrow> string io" where
  "encrypt_seed lib mnemonic key_pass was_imported =
     and_then (draw (\<lambda>n. (random_salt lib n, random_nonce lib n))) (\<lambda>(salt, nonce).
     lift_exec (encrypt_with_imported (crypto lib) salt nonce mnemonic key_pass was_imported))"

definition seed_location :: "('uri, 'kp) wallet_lib \<Rightarrow> path \<Rightarrow> path io" where
  "seed_location lib path =
     and_then (ask (is_dir path)) (\<lambda>is_directory.
     and_then (ask (path_exists path)) (\<lambda>present.
       if is_directory then return_io (path @ [SEED_FILE])
       else if \<not> present \<and> \<not> has_extension path
       then and_then (create_dir_all lib path) (\<lambda>u. return_io (path @ [SEED_FILE]))
       else return_io path))"

definition write_mnemonic ::
    "('uri, 'kp) wallet_lib \<Rightarrow> path \<Rightarrow> string \<Rightarrow> string option \<Rightarrow> bool \<Rightarrow> (string \<times> 'kp) io" where
  "write_mnemonic lib path key_pass given allow_overwrite =
     and_then (case given of Some m \<Rightarrow> return_io m | None \<Rightarrow> draw (generated_mnemonic lib)) (\<lambda>mnemonic.
     and_then (encrypt_seed lib mnemonic key_pass False) (\<lambda>encrypted_mnemonic.
     and_then (lift_exec (keypair_of lib mnemonic)) (\<lambda>keypair_tx.
     and_then (seed_location lib path) (\<lambda>final_path.
     and_then (case parent final_path of
                 None \<Rightarrow> return_io () | Some d \<Rightarrow> create_dir_all lib d) (\<lambda>u.
     and_then (ask (is_file final_path)) (\<lambda>occupied.
     and_then (if \<not> allow_overwrite \<and> occupied then panic else return_io ()) (\<lambda>v.
     and_then (write_file lib final_path encrypted_mnemonic) (\<lambda>x.
     return_io (mnemonic, keypair_tx)))))))))"

definition get_keys :: "('uri, 'kp) wallet_lib \<Rightarrow> path \<Rightarrow> string \<Rightarrow> bool \<Rightarrow> 'kp io" where
  "get_keys lib path key_pass print_seed =
     and_then (ask (is_file path)) (\<lambda>present.
     if present
     then and_then (read_to_string lib path) (\<lambda>content.
          and_then (lift_exec (decrypt (crypto lib) content key_pass)) (\<lambda>opened.
          and_then (lift_exec (case opened of
                      Inr decrypted \<Rightarrow> Return decrypted
                    | Inl e \<Rightarrow> (case decrypt_mnemonic lib content of
                                 Panic \<Rightarrow> Panic
                               | Return mnemonic \<Rightarrow> Return (mnemonic @ ''///'' @ key_pass)))) (\<lambda>decrypted.
          and_then (case parse_uri lib decrypted of Inl e \<Rightarrow> panic | Inr uri \<Rightarrow> return_io uri) (\<lambda>uri.
          and_then (if print_seed then println decrypted else return_io ()) (\<lambda>u.
          case keypair_from_uri lib uri of Inl e \<Rightarrow> panic | Inr kp \<Rightarrow> return_io kp)))))
     else and_then (write_mnemonic lib path key_pass None True) (\<lambda>(mnemonic, keypair).
          and_then (if print_seed then println mnemonic else return_io ()) (\<lambda>u.
          return_io keypair)))"

datatype print_kind = Normal | Nothing | Seed

text \<open>The lines about a wallet, on standard output or, beside a seed, on standard error.\<close>

definition banner :: "('uri, 'kp) wallet_lib \<Rightarrow> bytes \<Rightarrow> string list" where
  "banner lib public_key =
     [''******************* Enjin Wallet Daemon v'' @ pkg_version lib @ '' *******************'',
      ''** Enjin Relaychain   (SS58): '' @ ss58 lib 2135 public_key,
      ''** Enjin Matrixchain  (SS58): '' @ ss58 lib 1110 public_key,
      ''** Canary Relaychain  (SS58): '' @ ss58 lib 69 public_key,
      ''** Canary Matrixchain (SS58): '' @ ss58 lib 9030 public_key,
      ''** Public Key          (Hex): 0x'' @ lib_hex_encode (crypto lib) public_key]"

definition seed_note :: "('uri, 'kp) wallet_lib \<Rightarrow> bytes \<Rightarrow> string list" where
  "seed_note lib public_key =
     [''** Enjin Matrixchain  (SS58): '' @ ss58 lib 1110 public_key,
      ''** Public Key          (Hex): 0x'' @ lib_hex_encode (crypto lib) public_key]"

fun each_line :: "(string \<Rightarrow> unit io) \<Rightarrow> string list \<Rightarrow> unit io" where
  "each_line f [] = return_io ()"
| "each_line f (l # ls) = and_then (f l) (\<lambda>u. each_line f ls)"

definition load_wallet :: "('uri, 'kp) wallet_lib \<Rightarrow> path \<Rightarrow> string \<Rightarrow> print_kind \<Rightarrow> 'kp io" where
  "load_wallet lib seed_path key_pass print_kind =
     and_then (get_keys lib seed_path key_pass (print_kind = Seed)) (\<lambda>signer.
     and_then (if print_kind = Normal then each_line println (banner lib (kp_public lib signer))
               else return_io ()) (\<lambda>u.
     and_then (if print_kind = Seed then each_line eprintln (seed_note lib (kp_public lib signer))
               else return_io ()) (\<lambda>v.
     return_io signer)))"

subsection \<open>Loading\<close>

definition is_v1_name :: "string \<Rightarrow> bool" where
  "is_v1_name name = (prefix ''73723235'' name \<and> length name = 72)"

definition find_v1 :: "('uri, 'kp) wallet_lib \<Rightarrow> path \<Rightarrow> path option" where
  "find_v1 lib seed_path =
     (case read_dir lib seed_path of
        None \<Rightarrow> None
      | Some entries \<Rightarrow>
          map_option (\<lambda>n. seed_path @ [the n])
            (List.find (\<lambda>n. case n of Some name \<Rightarrow> is_v1_name name | None \<Rightarrow> False) entries))"

text \<open>The migration of a version 1 file; the result is the path to load.\<close>

definition migrate_v1 :: "('uri, 'kp) wallet_lib \<Rightarrow> path \<Rightarrow> string \<Rightarrow> path io" where
  "migrate_v1 lib v1_path key_pass =
     and_then (read_to_string lib v1_path) (\<lambda>v1_content.
     and_then (lift_exec (decrypt_mnemonic lib v1_content)) (\<lambda>mnemonic.
     and_then (encrypt_seed lib mnemonic key_pass True) (\<lambda>v2_encrypted.
     and_then (case parent v1_path of None \<Rightarrow> panic | Some d \<Rightarrow> return_io (d @ [SEED_FILE])) (\<lambda>wallet_seed_path.
     and_then (write_file lib wallet_seed_path v2_encrypted) (\<lambda>u.
     and_then (load_wallet lib wallet_seed_path key_pass Nothing) (\<lambda>verified_keypair.
     and_then (load_wallet lib v1_path key_pass Nothing) (\<lambda>v1_keypair.
     and_then (if kp_public lib verified_keypair \<noteq> kp_public lib v1_keypair then panic
               else return_io ()) (\<lambda>v.
     and_then (remove_file lib v1_path) (\<lambda>x.
     return_io wallet_seed_path)))))))))"

definition load_seed :: "('uri, 'kp) wallet_lib \<Rightarrow> path \<Rightarrow> string \<Rightarrow> bool \<Rightarrow> 'kp io" where
  "load_seed lib seed_path key_pass print_seed =
     (let print_kind = (if print_seed then Seed else Normal)
      in and_then (ask (path_exists seed_path)) (\<lambda>present.
         if \<not> present then load_wallet lib seed_path key_pass print_kind
         else and_then (ask (is_file seed_path)) (\<lambda>plain.
         if plain then load_wallet lib seed_path key_pass print_kind
         else and_then (ask (path_exists (seed_path @ [SEED_FILE]))) (\<lambda>has_seed.
         let v1_migration_path = (if has_seed then None else find_v1 lib seed_path);
             chosen = (case v1_migration_path of Some v1 \<Rightarrow> v1 | None \<Rightarrow> seed_path @ [SEED_FILE])
         in and_then (ask (path_exists chosen)) (\<lambda>found.
            and_then (if \<not> found
                      then and_then (write_mnemonic lib chosen key_pass None True) (\<lambda>r. return_io ())
                      else return_io ()) (\<lambda>u.
            and_then (case v1_migration_path of
                        Some v1_path \<Rightarrow> migrate_v1 lib v1_path key_pass
                      | None \<Rightarrow> return_io chosen) (\<lambda>final_path.
            load_wallet lib final_path key_pass print_kind)))))))"

subsection \<open>Importing\<close>

definition import_note :: "('uri, 'kp) wallet_lib \<Rightarrow> bytes \<Rightarrow> string list" where
  "import_note lib public_key =
     [''* Enjin Matrixchain  (SS58): '' @ ss58 lib 1110 public_key,
      ''* Canary Matrixchain (SS58): '' @ ss58 lib 9030 public_key,
      ''* Public Key          (Hex): 0x'' @ lib_hex_encode (crypto lib) public_key]"

definition write_seed :: "('uri, 'kp) wallet_lib \<Rightarrow> string \<Rightarrow> path \<Rightarrow> string \<Rightarrow> unit io" where
  "write_seed lib seed seed_path key_pass =
     and_then (write_mnemonic lib seed_path key_pass (Some seed) False) (\<lambda>(m, keypair_tx).
     each_line println (import_note lib (kp_public lib keypair_tx)))"

end
