(* ===== verification/Seed_Safety.thy ===== *)
theory Seed_Safety
  imports Seed_Store
begin

text \<open>
  What happens to the seed files: an import never replaces a file, loading never replaces one either
  and removes a version 1 file only after its successor was read back and gives the same key (as long
  as no directory bears the name of the seed file), and what was imported is what is loaded.
\<close>

subsection \<open>Running operations\<close>

lemma and_thenE:
  assumes "and_then m f w = (r, w')"
  obtains (panicked) "m w = (Panic, w')" "r = Panic"
  | (went_on) v w1 where "m w = (Return v, w1)" "f v w1 = (r, w')"
  using assms by (auto simp: and_then_def split: prod.splits exec.splits)

lemma and_then_Return: "m w = (Return v, w1) \<Longrightarrow> and_then m f w = f v w1"
  by (simp add: and_then_def)

lemma and_then_return_io [simp]: "and_then (return_io v) f = f v"
  by (simp add: and_then_def return_io_def)

lemma and_then_ask [simp]: "and_then (ask g) f w = f (g w) w"
  by (simp add: and_then_def ask_def)

text \<open>An operation that leaves the files and the directories as they are.\<close>

definition quiet :: "'a io \<Rightarrow> bool" where
  "quiet m \<longleftrightarrow> (\<forall>w. files (snd (m w)) = files w \<and> dirs (snd (m w)) = dirs w)"

lemma quietD: "\<lbrakk>quiet m; m w = (r, w')\<rbrakk> \<Longrightarrow> files w' = files w \<and> dirs w' = dirs w"
  unfolding quiet_def by (metis snd_conv)

lemma quiet_thenE:
  assumes "and_then m f w = (r, w')" and "quiet m"
  obtains (panicked) "r = Panic" "files w' = files w" "dirs w' = dirs w"
  | (went_on) v w1 where "m w = (Return v, w1)" "f v w1 = (r, w')" "files w1 = files w" "dirs w1 = dirs w"
  using assms(1) quietD [OF assms(2)] by (cases rule: and_thenE) blast+

named_theorems quiet_intros \<open>operations that change no file\<close>

lemma quiet_basic [quiet_intros]:
  "quiet (return_io v)" "quiet panic" "quiet (lift_exec e)" "quiet (ask g)" "quiet (println l)"
  "quiet (eprintln l)" "quiet (draw h)" "quiet (read_to_string lib p)"
  by (auto simp: quiet_def io_defs split: option.splits)

lemma quiet_and_then [quiet_intros]: "\<lbrakk>quiet m; \<And>v. quiet (f v)\<rbrakk> \<Longrightarrow> quiet (and_then m f)"
  by (auto simp: quiet_def and_then_def split: prod.splits exec.splits) (metis snd_conv)+

lemma quiet_each_line [quiet_intros]: "(\<And>l. quiet (f l)) \<Longrightarrow> quiet (each_line f ls)"
  by (induction ls) (auto intro: quiet_intros)

lemma quiet_encrypt [quiet_intros]: "quiet (encrypt_seed lib m p b)"
  unfolding encrypt_seed_def by (intro quiet_intros) (auto intro: quiet_intros split: prod.splits)

lemma quiet_if [quiet_intros]: "\<lbrakk>c \<Longrightarrow> quiet m; \<not> c \<Longrightarrow> quiet m'\<rbrakk> \<Longrightarrow> quiet (if c then m else m')"
  by simp

subsection \<open>The seed in a file\<close>

text \<open>The key pair that the content of a seed file stands for.\<close>

definition stored_keypair :: "('uri, 'kp) wallet_lib \<Rightarrow> string \<Rightarrow> string \<Rightarrow> 'kp exec" where
  "stored_keypair lib content key_pass =
     (case decrypt (crypto lib) content key_pass of
        Panic \<Rightarrow> Panic
      | Return (Inr secret) \<Rightarrow> keypair_of lib secret
      | Return (Inl e) \<Rightarrow>
          (case decrypt_mnemonic lib content of
             Panic \<Rightarrow> Panic | Return m \<Rightarrow> keypair_of lib (m @ ''///'' @ key_pass)))"

lemma get_keys_file:
  assumes "files w path = Some content" and "get_keys lib path key_pass print_seed w = (r, w')"
  shows "files w' = files w" "dirs w' = dirs w"
    and "r = (if refused lib ReadFile path then Panic else stored_keypair lib content key_pass)"
  using assms
  by (auto simp: get_keys_def io_defs is_file_def stored_keypair_def keypair_of_def
      split: exec.splits sum.splits if_splits)

lemma load_wallet_quiet_after:
  "load_wallet lib path key_pass kind w = (r, w') \<Longrightarrow>
   \<exists>w1. get_keys lib path key_pass (kind = Seed) w = (r, w1) \<and> files w' = files w1 \<and> dirs w' = dirs w1"
proof -
  assume run: "load_wallet lib path key_pass kind w = (r, w')"
  have rest: "quiet (and_then (if kind = Normal then each_line println (banner lib (kp_public lib signer))
               else return_io ()) (\<lambda>u.
     and_then (if kind = Seed then each_line eprintln (seed_note lib (kp_public lib signer))
               else return_io ()) (\<lambda>v. return_io signer)))" for signer
    by (intro quiet_intros)
  have lines: "(\<And>l w. fst (f l w) = Return ()) \<Longrightarrow> fst (each_line f ls w) = Return ()" for f ls w
    by (induction ls arbitrary: w)
      (auto simp: io_defs split: prod.splits exec.splits, metis fst_conv exec.distinct(1))
  have returns: "fst (and_then (if kind = Normal then each_line println (banner lib (kp_public lib signer))
               else return_io ()) (\<lambda>u.
     and_then (if kind = Seed then each_line eprintln (seed_note lib (kp_public lib signer))
               else return_io ()) (\<lambda>v. return_io signer)) w1) = Return signer" for signer w1
  proof -
    have "fst (each_line println ls w1) = Return ()" "fst (each_line eprintln ls w1) = Return ()" for ls w1
      by (intro lines; simp add: println_def eprintln_def)+
    then show ?thesis
      by (auto simp: and_then_def return_io_def split: prod.splits exec.splits)
        (metis exec.distinct(1) fst_conv)+
  qed
  from run show ?thesis
    unfolding load_wallet_def
  proof (cases rule: and_thenE)
    case panicked
    then show ?thesis by simp
  next
    case (went_on signer w1)
    then show ?thesis using quietD [OF rest went_on(2)] returns [of signer w1] by auto
  qed
qed

lemma load_wallet_file:
  assumes "files w path = Some content" and "load_wallet lib path key_pass kind w = (r, w')"
  shows "files w' = files w" "dirs w' = dirs w"
    and "r = (if refused lib ReadFile path then Panic else stored_keypair lib content key_pass)"
  using load_wallet_quiet_after [OF assms(2)] get_keys_file [OF assms(1)] by metis+

subsection \<open>Writing a seed\<close>

text \<open>How the files differ after an operation that writes at most one, the seed's.\<close>

definition writes_only :: "path set \<Rightarrow> bool \<Rightarrow> world \<Rightarrow> world \<Rightarrow> bool" where
  "writes_only targets replace w w' \<longleftrightarrow>
     files w' = files w
     \<or> (\<exists>p content. p \<in> targets \<and> files w' = (files w)(p \<mapsto> content) \<and> (replace \<or> files w p = None))"

lemma seed_location_facts:
  assumes "seed_location lib path w = (r, w')"
  shows "files w' = files w" "dirs w \<subseteq> dirs w'"
    and "r = Return final \<Longrightarrow> final = (if is_dir path w \<or> \<not> path_exists path w \<and> \<not> has_extension path
           then path @ [SEED_FILE] else path)"
    and "\<lbrakk>r = Return final; final \<noteq> path\<rbrakk> \<Longrightarrow> path \<in> dirs w'"
  using assms
  by (auto simp: seed_location_def io_defs is_dir_def split: if_splits)

lemma create_parent_facts:
  assumes "(case parent final of None \<Rightarrow> return_io () | Some d \<Rightarrow> create_dir_all lib d) w = (r, w')"
  shows "files w' = files w" "dirs w \<subseteq> dirs w'"
  using assms by (auto simp: io_defs split: option.splits if_splits)

lemma write_file_facts:
  assumes "write_file lib p content w = (r, w')"
  shows "dirs w' = dirs w" "files w' = files w \<or> (\<exists>c. files w' = (files w)(p \<mapsto> c))"
    and "r = Return u \<Longrightarrow> files w' = (files w)(p \<mapsto> content) \<and> \<not> is_dir p w"
  using assms by (auto simp: write_file_def split: if_splits option.splits write_fate.splits)

text \<open>Where a seed is written, and under which condition: from the choice of the file on.\<close>

lemma place_seedE:
  assumes "and_then (seed_location lib path) (\<lambda>final_path.
     and_then (case parent final_path of
                 None \<Rightarrow> return_io () | Some d \<Rightarrow> create_dir_all lib d) (\<lambda>u.
     and_then (ask (is_file final_path)) (\<lambda>occupied.
     and_then (if \<not> allow_overwrite \<and> occupied then panic else return_io ()) (\<lambda>v.
     and_then (write_file lib final_path content) (\<lambda>x. return_io result))))) w = (r, w')"
  obtains
    (stopped) "r = Panic" "files w' = files w"
  | (wrote) final w1 r1 where
      "final = (if is_dir path w \<or> \<not> path_exists path w \<and> \<not> has_extension path
         then path @ [SEED_FILE] else path)"
      "final \<noteq> path \<longrightarrow> path \<in> dirs w1"
      "files w1 = files w" "dirs w \<subseteq> dirs w1" "allow_overwrite \<or> files w final = None"
      "write_file lib final content w1 = (r1, w')"
      "r = (case r1 of Panic \<Rightarrow> Panic | Return u \<Rightarrow> Return result)"
  using assms
proof (cases rule: and_thenE)
  case panicked
  then show thesis using stopped seed_location_facts(1) by metis
next
  case located: (went_on final wd)
  note wd = seed_location_facts [OF located(1)]
  from located(2) show thesis
  proof (cases rule: and_thenE)
    case panicked
    then show thesis using stopped wd(1) create_parent_facts(1) by metis
  next
    case made: (went_on u w1)
    note w1 = create_parent_facts [OF made(1)]
    have same: "files w1 = files w" using wd(1) w1(1) by simp
    from made(2) have last: "(if \<not> allow_overwrite \<and> is_file final w1 then r = Panic \<and> w' = w1
        else \<exists>r1. write_file lib final content w1 = (r1, w')
          \<and> r = (case r1 of Panic \<Rightarrow> Panic | Return u \<Rightarrow> Return result))"
      by (auto simp: and_then_def ask_def panic_def return_io_def split: if_splits prod.splits exec.splits)
    have dirs: "final \<noteq> path \<longrightarrow> path \<in> dirs w1" "dirs w \<subseteq> dirs w1" using wd w1(2) by blast+
    show thesis
    proof (cases "\<not> allow_overwrite \<and> is_file final w1")
      case True
      then show thesis using last stopped same by simp
    next
      case False
      then have free: "allow_overwrite \<or> files w final = None"
        using same by (simp add: is_file_def)
      show thesis using wrote [OF wd(3) dirs(1) same dirs(2) free] last False by auto
    qed
  qed
qed

text \<open>The steps of \<open>write_mnemonic\<close>: it stops before its last step with no file changed, or it reaches
  the write.\<close>

lemma write_mnemonicE:
  assumes "write_mnemonic lib path key_pass given allow_overwrite w = (r, w')"
  obtains
    (stopped) "r = Panic" "files w' = files w"
  | (wrote) mnemonic encrypted kp final w1 r1 salt nonce where
      "case given of Some m \<Rightarrow> mnemonic = m | None \<Rightarrow> mnemonic \<in> range (generated_mnemonic lib)"
      "encrypt_with_imported (crypto lib) salt nonce mnemonic key_pass False = Return encrypted"
      "(salt, nonce) \<in> range (\<lambda>n. (random_salt lib n, random_nonce lib n))"
      "keypair_of lib mnemonic = Return kp"
      "final = (if is_dir path w \<or> \<not> path_exists path w \<and> \<not> has_extension path
         then path @ [SEED_FILE] else path)"
      "final \<noteq> path \<longrightarrow> path \<in> dirs w1"
      "files w1 = files w" "dirs w \<subseteq> dirs w1" "allow_overwrite \<or> files w final = None"
      "write_file lib final encrypted w1 = (r1, w')"
      "r = (case r1 of Panic \<Rightarrow> Panic | Return u \<Rightarrow> Return (mnemonic, kp))"
proof -
  have given: "quiet (case given of Some m \<Rightarrow> return_io m | None \<Rightarrow> draw (generated_mnemonic lib))"
    by (auto intro: quiet_intros split: option.splits)
  from assms [unfolded write_mnemonic_def] given show thesis
  proof (cases rule: quiet_thenE)
    case a: (went_on mnemonic wa)
    have m: "case given of Some m \<Rightarrow> mnemonic = m | None \<Rightarrow> mnemonic \<in> range (generated_mnemonic lib)"
      using a(1) by (auto simp: io_defs split: option.splits)
    from a(2) quiet_encrypt show thesis
    proof (cases rule: quiet_thenE)
      case b: (went_on encrypted wb)
      then obtain salt nonce where enc:
        "encrypt_with_imported (crypto lib) salt nonce mnemonic key_pass False = Return encrypted"
        "(salt, nonce) \<in> range (\<lambda>n. (random_salt lib n, random_nonce lib n))"
        by (auto simp: encrypt_seed_def io_defs)
      have w: "is_dir path wb = is_dir path w" "path_exists path wb = path_exists path w"
        "files wb = files w" "dirs wb = dirs w"
        using a(3,4) b(3,4) by (simp_all add: is_dir_def path_exists_def is_file_def)
      from b(2) show thesis
      proof (cases rule: and_thenE)
        case panicked
        then show thesis using stopped w by (simp add: lift_exec_def)
      next
        case c: (went_on kp wc)
        then have kp: "keypair_of lib mnemonic = Return kp" "wc = wb" by (auto simp: lift_exec_def)
        from c(2) show thesis
          by (cases rule: place_seedE) (use stopped wrote [OF m enc kp(1)] w kp(2) in auto)
      qed
    qed (use stopped a(3) in auto)
  qed (use stopped in auto)
qed

lemma write_mnemonic_writes_only:
  assumes "write_mnemonic lib path key_pass given allow_overwrite w = (r, w')"
  shows "writes_only {if is_dir path w \<or> \<not> path_exists path w \<and> \<not> has_extension path
           then path @ [SEED_FILE] else path} allow_overwrite w w'"
  using assms
proof (cases rule: write_mnemonicE)
  case stopped
  then show ?thesis by (simp add: writes_only_def)
next
  case (wrote mnemonic encrypted kp final w1 r1)
  then show ?thesis using write_file_facts(2) [OF wrote(10)] by (auto simp: writes_only_def)
qed

subsection \<open>The migration\<close>

text \<open>A version 1 file was superseded: the new file holds a seed that gives the same public key.\<close>

definition superseded :: "('uri, 'kp) wallet_lib \<Rightarrow> string \<Rightarrow> string \<Rightarrow> string option \<Rightarrow> bool" where
  "superseded lib key_pass old successor \<longleftrightarrow>
     (\<exists>content kp kp'. successor = Some content \<and> stored_keypair lib content key_pass = Return kp
        \<and> stored_keypair lib old key_pass = Return kp' \<and> kp_public lib kp = kp_public lib kp')"

lemma load_wallet_at:
  "\<lbrakk>load_wallet lib p key_pass kind w = (Return kp, w'); files w p = Some content\<rbrakk>
     \<Longrightarrow> files w' = files w \<and> stored_keypair lib content key_pass = Return kp"
  using load_wallet_file [of w p content lib key_pass kind "Return kp" w'] by (auto split: if_splits)

text \<open>From the write of the new file on.\<close>

lemma migration_tail:
  assumes "and_then (write_file lib new encrypted) (\<lambda>u.
     and_then (load_wallet lib new key_pass Nothing) (\<lambda>verified_keypair.
     and_then (load_wallet lib v1 key_pass Nothing) (\<lambda>v1_keypair.
     and_then (if kp_public lib verified_keypair \<noteq> kp_public lib v1_keypair then panic
               else return_io ()) (\<lambda>v.
     and_then (remove_file lib v1) (\<lambda>x. return_io new))))) w = (r, w')"
    and "files w v1 = Some old" and "v1 \<noteq> new"
  shows "(files w' = files w \<and> r = Panic) \<or> (\<exists>c. files w' = (files w)(new \<mapsto> c) \<and> r = Panic)
       \<or> (files w' = (files w)(new \<mapsto> encrypted, v1 := None) \<and> r = Return new
          \<and> superseded lib key_pass old (Some encrypted))"
  using assms(1)
proof (cases rule: and_thenE)
  case panicked
  then show ?thesis using write_file_facts(2) by blast
next
  case a: (went_on u w1)
  have w1: "files w1 = (files w)(new \<mapsto> encrypted)" using write_file_facts(3) [OF a(1)] by simp
  then have at: "files w1 new = Some encrypted" "files w1 v1 = Some old" using assms(2,3) by simp_all
  from a(2) show ?thesis
  proof (cases rule: and_thenE)
    case panicked
    then show ?thesis using load_wallet_file(1) [OF at(1)] w1 by metis
  next
    case b: (went_on verified w2)
    note w2 = load_wallet_at [OF b(1) at(1)]
    from b(2) show ?thesis
    proof (cases rule: and_thenE)
      case panicked
      then show ?thesis using load_wallet_file(1) [of w2 v1 old] at(2) w1 w2 by metis
    next
      case c: (went_on old_keypair w3)
      have w3: "files w3 = files w2 \<and> stored_keypair lib old key_pass = Return old_keypair"
        using load_wallet_at [OF c(1)] at(2) w2 by simp
      from c(2) show ?thesis
        using w1 w2 w3
        by (auto simp: and_then_def panic_def return_io_def remove_file_def superseded_def
            split: if_splits)
    qed
  qed
qed

lemma migrate_facts:
  assumes "migrate_v1 lib (dir @ [name]) key_pass w = (r, w')" and "name \<noteq> SEED_FILE"
  defines "new \<equiv> dir @ [SEED_FILE]"
  shows "files w' = files w \<and> r = Panic \<or> (\<exists>c. files w' = (files w)(new \<mapsto> c) \<and> r = Panic)
       \<or> (\<exists>encrypted old. files w (dir @ [name]) = Some old
            \<and> files w' = (files w)(new \<mapsto> encrypted, dir @ [name] := None) \<and> r = Return new
            \<and> superseded lib key_pass old (Some encrypted))"
proof -
  have parent: "parent (dir @ [name]) = Some dir" by (simp add: parent_def)
  from assms(1) [unfolded migrate_v1_def] show ?thesis
  proof (cases rule: and_thenE)
    case panicked
    then show ?thesis using quietD [OF quiet_basic(8)] by blast
  next
    case a: (went_on old wa)
    have wa: "files w (dir @ [name]) = Some old" "wa = w"
      using a(1) by (auto simp: read_to_string_def split: option.splits if_splits)
    from a(2) show ?thesis
    proof (cases rule: and_thenE)
      case panicked
      then show ?thesis using wa by (simp add: lift_exec_def)
    next
      case b: (went_on mnemonic wb)
      from b(1) have wb: "wb = w" using wa by (simp add: lift_exec_def)
      from b(2) show ?thesis
      proof (cases rule: and_thenE)
        case panicked
        then show ?thesis using quietD [OF quiet_encrypt] wb by metis
      next
        case c: (went_on encrypted wc)
        have wc: "files wc = files w" using quietD [OF quiet_encrypt c(1)] wb by simp
        have tail: "and_then (write_file lib new encrypted) (\<lambda>u.
           and_then (load_wallet lib new key_pass Nothing) (\<lambda>verified_keypair.
           and_then (load_wallet lib (dir @ [name]) key_pass Nothing) (\<lambda>v1_keypair.
           and_then (if kp_public lib verified_keypair \<noteq> kp_public lib v1_keypair then panic
                     else return_io ()) (\<lambda>v.
           and_then (remove_file lib (dir @ [name])) (\<lambda>x. return_io new))))) wc = (r, w')"
          using c(2) by (simp add: parent new_def)
        have "dir @ [name] \<noteq> new" using assms(2) by (simp add: new_def)
        from migration_tail [OF tail _ this, of old] show ?thesis
          using wc wa(1) by auto
      qed
    qed
  qed
qed

subsection \<open>Loading\<close>

text \<open>Directories contain what the file system has: nothing is both a file and a directory, and a file is
  in a directory.\<close>

definition wf_world :: "world \<Rightarrow> bool" where
  "wf_world w \<longleftrightarrow> (\<forall>p c. files w p = Some c \<longrightarrow> p \<notin> dirs w \<and> p \<noteq> [] \<and> butlast p \<in> dirs w)"

lemma wf_worldD:
  assumes "wf_world w" and "files w p = Some c"
  shows "p \<notin> dirs w" "p \<noteq> []" "butlast p \<in> dirs w"
  using assms unfolding wf_world_def by blast+

lemma absent_seed_targets:
  assumes "wf_world w" and "\<not> path_exists path w"
  shows "files w path = None" "files w (path @ [SEED_FILE]) = None"
proof -
  show "files w path = None" using assms(2) by (simp add: path_exists_def is_file_def)
  show "files w (path @ [SEED_FILE]) = None"
    using assms wf_worldD(3) [OF assms(1), of "path @ [SEED_FILE]"]
    by (cases "files w (path @ [SEED_FILE])") (auto simp: path_exists_def is_dir_def)
qed

lemma load_absent_keeps:
  assumes "wf_world w" and "\<not> path_exists path w"
    and "get_keys lib path key_pass print w = (r, w') \<or> write_mnemonic lib path key_pass None True w = (r1, w')"
    and "files w p = Some c"
  shows "files w' p = Some c"
proof -
  have "\<exists>r1 w1. write_mnemonic lib path key_pass None True w = (r1, w1) \<and> files w' = files w1"
    using assms(3)
  proof
    assume "get_keys lib path key_pass print w = (r, w')"
    then show ?thesis
      using assms(2)
      by (auto simp: get_keys_def path_exists_def and_then_def [of "write_mnemonic lib path key_pass None True"]
          io_defs split: prod.splits exec.splits if_splits)
  qed auto
  then obtain r1 w1 where "write_mnemonic lib path key_pass None True w = (r1, w1)" "files w' = files w1"
    by blast
  with write_mnemonic_writes_only [OF this(1)] absent_seed_targets [OF assms(1,2)] assms(4)
  show ?thesis by (auto simp: writes_only_def split: if_splits)
qed

lemma find_v1_name:
  assumes "find_v1 lib path = Some v1"
  obtains name where "v1 = path @ [name]" "name \<noteq> SEED_FILE"
proof -
  from assms obtain name where "v1 = path @ [name]" "is_v1_name name"
    by (auto simp: find_v1_def find_Some_iff split: option.splits)
  moreover from this have "length name \<noteq> length SEED_FILE"
    by (simp add: is_v1_name_def SEED_FILE_def)
  ultimately show thesis using that [of name] by auto
qed

lemma seed_file_has_extension: "has_extension (path @ [SEED_FILE])"
  by (simp add: has_extension_def SEED_FILE_def)

text \<open>After a new seed was generated in a directory, it is there to be read.\<close>

lemma generated_seed:
  assumes "write_mnemonic lib (path @ [SEED_FILE]) key_pass None True w = (Return x, w1)"
    and "\<not> is_dir (path @ [SEED_FILE]) w"
  shows "\<exists>content. files w1 (path @ [SEED_FILE]) = Some content"
  using assms(1)
proof (cases rule: write_mnemonicE)
  case (wrote mnemonic encrypted kp final wm r1)
  then have "final = path @ [SEED_FILE]" "r1 = Return ()"
    using assms(2) seed_file_has_extension by (auto split: exec.splits)
  then show ?thesis using write_file_facts(3) [OF wrote(10)] by simp
qed simp

lemma first_seed_written:
  assumes "(if \<not> path_exists chosen w
        then and_then (write_mnemonic lib chosen key_pass None True) (\<lambda>r. return_io ()) else return_io ()) w
      = (r1, w1)"
    and "wf_world w"
  shows "files w p = Some c \<Longrightarrow> files w1 p = Some c"
    and "\<lbrakk>r1 = Return (); chosen = path @ [SEED_FILE]; \<not> path_exists chosen w\<rbrakk>
       \<Longrightarrow> \<exists>content. files w1 chosen = Some content"
proof -
  show "files w1 p = Some c" if "files w p = Some c"
  proof (cases "path_exists chosen w")
    case True
    then show ?thesis using that assms(1) by (simp add: return_io_def)
  next
    case False
    then obtain r2 where "write_mnemonic lib chosen key_pass None True w = (r2, w1)"
      using assms(1) by (auto simp: and_then_def return_io_def split: prod.splits exec.splits)
    then show ?thesis using load_absent_keeps [OF assms(2) False _ that] by blast
  qed
  show "\<exists>content. files w1 chosen = Some content"
    if "r1 = Return ()" "chosen = path @ [SEED_FILE]" "\<not> path_exists chosen w"
    using assms(1) that generated_seed [of lib path key_pass w _ w1]
    by (auto simp: and_then_def return_io_def path_exists_def split: prod.splits exec.splits)
qed

lemma migrated_seed_kept:
  assumes "and_then (migrate_v1 lib v1 key_pass)
      (\<lambda>final_path. load_wallet lib final_path key_pass kind) w = (r, w')"
    and v1: "find_v1 lib path = Some v1"
    and c: "files w p = Some c" "p \<noteq> path @ [SEED_FILE]"
  shows "files w' p = Some c
       \<or> (find_v1 lib path = Some p \<and> files w' p = None
          \<and> superseded lib key_pass c (files w' (path @ [SEED_FILE])))"
proof -
  let ?new = "path @ [SEED_FILE]"
  obtain name where name: "v1 = path @ [name]" "name \<noteq> SEED_FILE"
    by (rule find_v1_name [OF v1])
  from assms(1) show ?thesis
  proof (cases rule: and_thenE)
    case panicked
    from migrate_facts [OF panicked(1) [unfolded name(1)] name(2)] show ?thesis using c by auto
  next
    case (went_on final_path w2)
    from migrate_facts [OF went_on(1) [unfolded name(1)] name(2)] obtain encrypted old where
      m: "files w v1 = Some old" "files w2 = (files w)(?new \<mapsto> encrypted, v1 := None)"
        "final_path = ?new" "superseded lib key_pass old (Some encrypted)"
      using name(1) by auto
    have at: "files w2 ?new = Some encrypted" using m(2) name by simp
    have "files w' = files w2" using load_wallet_file(1) [OF at] went_on(2) m(3) by simp
    then show ?thesis using m c v1 at by (cases "p = v1") auto
  qed
qed

lemma seed_dir_keeps:
  assumes run: "load_seed lib path key_pass print_seed w = (r, w')"
    and c: "files w p = Some c" and wf: "wf_world w"
    and folder: "is_dir path w" "files w path = None"
    and no_seed: "\<not> path_exists (path @ [SEED_FILE]) w"
  shows "files w' p = Some c
       \<or> (find_v1 lib path = Some p \<and> files w' p = None
          \<and> superseded lib key_pass c (files w' (path @ [SEED_FILE])))"
proof -
  let ?kind = "if print_seed then Seed else Normal"
  let ?new = "path @ [SEED_FILE]"
  define chosen where "chosen = (case find_v1 lib path of Some v1 \<Rightarrow> v1 | None \<Rightarrow> ?new)"
  have p_new: "p \<noteq> ?new" using no_seed c by (auto simp: path_exists_def is_file_def)
  have here: "path_exists path w = True" "is_file path w = False" "path_exists ?new w = False"
    using folder no_seed by (simp_all add: path_exists_def is_file_def)
  from run [unfolded load_seed_def Let_def and_then_ask here not_True_eq_False if_True if_False]
  have "and_then (if \<not> path_exists chosen w
        then and_then (write_mnemonic lib chosen key_pass None True) (\<lambda>r. return_io ()) else return_io ())
      (\<lambda>u. and_then (case find_v1 lib path of Some v1_path \<Rightarrow> migrate_v1 lib v1_path key_pass
                     | None \<Rightarrow> return_io chosen) (\<lambda>final_path. load_wallet lib final_path key_pass ?kind)) w
      = (r, w')"
    unfolding chosen_def .
  then show ?thesis
  proof (cases rule: and_thenE)
    case panicked
    then show ?thesis using first_seed_written(1) [OF _ wf c] by blast
  next
    case first: (went_on u w1)
    note w1 = first_seed_written [OF first(1) wf]
    show ?thesis
    proof (cases "find_v1 lib path")
      case None
      then obtain content where "files w1 ?new = Some content"
        using w1(2) [of path] no_seed by (auto simp: chosen_def)
      moreover have "load_wallet lib ?new key_pass ?kind w1 = (r, w')"
        using first(2) None by (simp add: chosen_def)
      ultimately show ?thesis using load_wallet_file(1) w1(1) [OF c] by metis
    next
      case (Some v1)
      with first(2) have "and_then (migrate_v1 lib v1 key_pass)
          (\<lambda>final_path. load_wallet lib final_path key_pass ?kind) w1 = (r, w')" by simp
      from migrated_seed_kept [OF this Some w1(1) [OF c] p_new] show ?thesis .
    qed
  qed
qed

text \<open>
  C18: Loading never replaces a seed. Whatever \<open>load_seed\<close> does (it may panic at any point, and a write
  may fail half way), every file is afterwards as it was, except a version 1 file after a successful
  migration; and then the new seed file in its directory holds a seed that opens with the password
  and has the same public key. This holds unless a directory bears the name of the seed file.
\<close>

theorem loading_never_loses_a_seed:
  assumes "load_seed lib path key_pass print_seed w = (r, w')"
    and "files w p = Some c" and "wf_world w" and "\<not> is_dir (path @ [SEED_FILE]) w"
  shows "files w' p = Some c
       \<or> (find_v1 lib path = Some p \<and> files w' p = None
          \<and> superseded lib key_pass c (files w' (path @ [SEED_FILE])))"
proof -
  let ?kind = "if print_seed then Seed else Normal"
  consider (absent) "\<not> path_exists path w" | (plain) content where "files w path = Some content"
    | (folder) "is_dir path w" "files w path = None"
    by (cases "files w path") (auto simp: path_exists_def is_file_def is_dir_def)
  then show ?thesis
  proof cases
    case absent
    then have "load_wallet lib path key_pass ?kind w = (r, w')"
      using assms(1) by (simp add: load_seed_def Let_def)
    from load_wallet_quiet_after [OF this] show ?thesis
      using load_absent_keeps [OF assms(3) absent _ assms(2)] by metis
  next
    case (plain content)
    then have "load_wallet lib path key_pass ?kind w = (r, w')"
      using assms(1) by (simp add: load_seed_def Let_def path_exists_def is_file_def)
    from load_wallet_file(1) [OF plain this] show ?thesis using assms(2) by simp
  next
    case folder
    show ?thesis
    proof (cases "files w (path @ [SEED_FILE])")
      case (Some content)
      then have "load_wallet lib (path @ [SEED_FILE]) key_pass ?kind w = (r, w')"
        using assms(1) folder by (simp add: load_seed_def Let_def path_exists_def is_file_def)
      from load_wallet_file(1) [OF Some this] show ?thesis using assms(2) by simp
    next
      case None
      then have no_seed: "\<not> path_exists (path @ [SEED_FILE]) w"
        using assms(4) by (simp add: path_exists_def is_file_def)
      show ?thesis
        using seed_dir_keeps [OF assms(1-3) folder no_seed] .
    qed
  qed
qed

text \<open>
  C38: Importing never replaces a file: whatever \<open>write_seed\<close> does, every file is afterwards as it was.
\<close>

theorem import_never_overwrites:
  assumes "write_seed lib seed path key_pass w = (r, w')" and "files w p = Some c"
  shows "files w' p = Some c"
proof -
  have lines: "quiet (each_line println ls)" for ls by (intro quiet_intros)
  have "\<exists>r1 w1. write_mnemonic lib path key_pass (Some seed) False w = (r1, w1) \<and> files w' = files w1"
    using assms(1) [unfolded write_seed_def]
  proof (cases rule: and_thenE)
    case panicked
    then show ?thesis by blast
  next
    case (went_on x w1)
    then show ?thesis using quietD [OF lines] by (cases x) auto
  qed
  then obtain r1 w1 where "write_mnemonic lib path key_pass (Some seed) False w = (r1, w1)"
    "files w' = files w1" by blast
  with write_mnemonic_writes_only [OF this(1)] assms(2) show ?thesis
    by (auto simp: writes_only_def)
qed

subsection \<open>Imported and generated seeds\<close>

lemma stored_after_encryption:
  assumes "lawful_crypto (crypto lib) is_text" and "is_text seed"
    and "\<forall>n. length (random_nonce lib n) = NONCE_LEN"
    and "encrypt_with_imported (crypto lib) salt nonce seed key_pass False = Return content"
    and "(salt, nonce) \<in> range (\<lambda>n. (random_salt lib n, random_nonce lib n))"
  shows "stored_keypair lib content key_pass = keypair_of lib seed"
proof -
  have "length nonce = NONCE_LEN" using assms(3,5) by auto
  moreover obtain key where "derive_key (crypto lib) key_pass salt = Inr key"
    using encryptedE [OF assms(4)] by metis
  ultimately show ?thesis
    using decrypt_encrypted(2) [OF assms(1,2) _ assms(4), of key_pass] by (simp add: stored_keypair_def)
qed

lemma load_readable:
  assumes "files w path = Some content" and "stored_keypair lib content key_pass = Return kp"
    and "\<forall>p. \<not> refused lib ReadFile p"
  shows "\<exists>w'. load_wallet lib path key_pass kind w = (Return kp, w') \<and> files w' = files w"
proof -
  obtain r w' where run: "load_wallet lib path key_pass kind w = (r, w')"
    by (cases "load_wallet lib path key_pass kind w")
  from load_wallet_file [OF assms(1) run] assms(2,3) run show ?thesis by auto
qed

lemma import_load:
  assumes "write_seed lib seed path key_pass w = (Return (), w1)" and "wf_world w"
    and "lawful_crypto (crypto lib) is_text" and "is_text seed"
    and "\<forall>n. length (random_nonce lib n) = NONCE_LEN" and "\<forall>p. \<not> refused lib ReadFile p"
  shows "\<exists>kp w2. keypair_of lib seed = Return kp
       \<and> load_seed lib path key_pass print_seed w1 = (Return kp, w2) \<and> files w2 = files w1"
proof -
  let ?kind = "if print_seed then Seed else Normal"
  have lines: "quiet (each_line println ls)" for ls by (intro quiet_intros)
  from assms(1) [unfolded write_seed_def] obtain m kp wm where
    wm: "write_mnemonic lib path key_pass (Some seed) False w = (Return (m, kp), wm)"
    "files w1 = files wm" "dirs w1 = dirs wm"
    by (cases rule: and_thenE) (auto dest: quietD [OF lines])
  from wm(1) show ?thesis
  proof (cases rule: write_mnemonicE)
    case (wrote mnemonic encrypted kp' final wa r1 salt nonce)
    then have seed: "keypair_of lib seed = Return kp" "r1 = Return ()"
      by (auto split: exec.splits)
    then have stored: "stored_keypair lib encrypted key_pass = Return kp"
      using stored_after_encryption [OF assms(3-5)] wrote(1-3) by simp
    have w1: "files w1 = (files w)(final \<mapsto> encrypted)" "dirs w1 = dirs wa"
      using write_file_facts [OF wrote(10)] seed(2) wrote(7) wm(2,3) by auto
    obtain w2 where w2: "load_wallet lib final key_pass ?kind w1 = (Return kp, w2)" "files w2 = files w1"
      using load_readable [OF _ stored assms(6), of w1 final ?kind] w1(1) by auto
    have "load_seed lib path key_pass print_seed w1 = load_wallet lib final key_pass ?kind w1"
    proof (cases "final = path")
      case True
      then show ?thesis
        using w1(1) by (simp add: load_seed_def Let_def path_exists_def is_file_def)
    next
      case False
      then have final: "final = path @ [SEED_FILE]" "path \<in> dirs w1"
        using wrote(5,6) w1(2) by (auto split: if_splits)
      have "files w path = None"
        using wrote(5) False wf_worldD(1) [OF assms(2)]
        by (cases "files w path") (auto simp: is_dir_def path_exists_def is_file_def split: if_splits)
      then have "path_exists path w1 = True" "is_file path w1 = False" "path_exists (path @ [SEED_FILE]) w1 = True"
        using final w1(1) by (simp_all add: path_exists_def is_file_def is_dir_def)
      then show ?thesis by (simp add: load_seed_def Let_def final(1))
    qed
    then show ?thesis using seed(1) w2 by simp
  qed simp
qed

text \<open>
  C19: What was imported is what runs. After a successful import, loading from the same path with the
  same password gives the key pair of the imported secret and changes no file, wherever the path
  made the import put the seed: a file, an existing directory, or one it created.
\<close>

theorem imported_seed_is_loaded:
  assumes "write_seed lib seed path key_pass w = (Return (), w1)" and "wf_world w"
    and "lawful_crypto (crypto lib) is_text" and "is_text seed"
    and "\<forall>n. length (random_nonce lib n) = NONCE_LEN" and "\<forall>p. \<not> refused lib ReadFile p"
  shows "\<exists>kp w2. keypair_of lib seed = Return kp
       \<and> load_seed lib path key_pass print_seed w1 = (Return kp, w2) \<and> files w2 = files w1"
  using assms by (rule import_load)

text \<open>
  C37: The one way to lose an identity. When a directory bears the name of the seed file, every successful start
  puts a newly generated seed into it, in place of the one that an earlier start left there, and runs
  with the new identity.
\<close>

theorem seed_directory_gets_new_identity:
  assumes "load_seed lib path key_pass print_seed w = (Return kp, w')"
    and "is_dir path w" and "is_dir (path @ [SEED_FILE]) w" and "wf_world w"
  shows "\<exists>mnemonic salt nonce content. mnemonic \<in> range (generated_mnemonic lib)
       \<and> encrypt_with_imported (crypto lib) salt nonce mnemonic key_pass False = Return content
       \<and> files w' = (files w)(path @ [SEED_FILE, SEED_FILE] \<mapsto> content)
       \<and> keypair_of lib mnemonic = Return kp"
proof -
  let ?kind = "if print_seed then Seed else Normal"
  let ?new = "path @ [SEED_FILE]"
  have none: "files w path = None" "files w ?new = None"
    using assms(2-4) wf_worldD(1) [OF assms(4)] by (force simp: is_dir_def)+
  have "load_wallet lib ?new key_pass ?kind w = (Return kp, w')"
    using assms(1-3) none by (simp add: load_seed_def Let_def path_exists_def is_file_def)
  from load_wallet_quiet_after [OF this] obtain w1 where
    w1: "get_keys lib ?new key_pass (?kind = Seed) w = (Return kp, w1)" "files w' = files w1" by blast
  have "and_then (write_mnemonic lib ?new key_pass None True) (\<lambda>(mnemonic, keypair).
      and_then (if ?kind = Seed then println mnemonic else return_io ()) (\<lambda>u. return_io keypair)) w
      = (Return kp, w1)"
    using w1(1) none(2) by (simp add: get_keys_def is_file_def)
  then obtain m kp2 w2 where
    wm: "write_mnemonic lib ?new key_pass None True w = (Return (m, kp2), w2)"
    and rest: "and_then (if ?kind = Seed then println m else return_io ()) (\<lambda>u. return_io kp2) w2
      = (Return kp, w1)"
    by (cases rule: and_thenE) auto
  from rest have "kp2 = kp" "files w1 = files w2"
    by (auto simp: and_then_def println_def return_io_def split: if_splits)
  with wm have "write_mnemonic lib ?new key_pass None True w = (Return (m, kp), w2)" by simp
  then show ?thesis
  proof (cases rule: write_mnemonicE)
    case (wrote mnemonic encrypted kp' final wa r1 salt nonce)
    then have "r1 = Return ()" "kp' = kp" "final = path @ [SEED_FILE, SEED_FILE]"
      using assms(3) by (auto split: exec.splits)
    then have "files w' = (files w)(path @ [SEED_FILE, SEED_FILE] \<mapsto> encrypted)"
      using write_file_facts(3) [OF wrote(10)] wrote(7) w1(2) \<open>files w1 = files w2\<close> by auto
    then show ?thesis using wrote(1,2,4) \<open>kp' = kp\<close> by auto
  qed simp
qed

subsection \<open>Concrete stores\<close>

text \<open>A library in which a secret's key pair is its bytes, and three file systems: an empty one, one with a
  seed from version 1 times in \<open>/d/wallet.seed\<close>, one where that is a directory.\<close>

definition sample_wallet_lib :: "(string, bytes) wallet_lib" where
  "sample_wallet_lib =
     \<lparr>crypto = sample_crypto, parse_uri = Inr, keypair_from_uri = (\<lambda>s. Inr (string_bytes s)),
      kp_public = (\<lambda>kp. kp), kp_sign = (\<lambda>kp m. kp @ m), ss58 = (\<lambda>format key. ''address''),
      generated_mnemonic = (\<lambda>n. replicate n CHR ''m''), random_salt = (\<lambda>n. [of_nat n]),
      random_nonce = (\<lambda>n. replicate 12 0), read_dir = (\<lambda>p. Some []), refused = (\<lambda>operation p. False),
      write_fate = (\<lambda>p. Written), pkg_version = ''1''\<rparr>"

definition empty_store :: world where
  "empty_store = \<lparr>files = Map.empty, dirs = {[]}, stdout = [], stderr = [], drawn = 0\<rparr>"

definition old_store :: world where
  "old_store = \<lparr>files = [[''d'', SEED_FILE] \<mapsto> ''old''], dirs = {[], [''d'']},
                stdout = [], stderr = [], drawn = 0\<rparr>"

definition odd_store :: world where
  "odd_store = \<lparr>files = [[''d'', SEED_FILE, SEED_FILE] \<mapsto> ''old''],
                dirs = {[], [''d''], [''d'', SEED_FILE]}, stdout = [], stderr = [], drawn = 0\<rparr>"

lemma sample_stores_wf: "wf_world empty_store" "wf_world old_store" "wf_world odd_store"
  by (auto simp: wf_world_def empty_store_def old_store_def odd_store_def)

lemma sample_encrypts:
  "\<exists>content. encrypt_with_imported sample_crypto salt nonce m pw b = Return content"
  by (simp add: encrypt_with_imported_def expect_def derive_key_def map_err_def sample_crypto_def Let_def)

lemma sample_wallet_lib_simps [simp]:
  "crypto sample_wallet_lib = sample_crypto" "keypair_of sample_wallet_lib m = Return (string_bytes m)"
  "write_fate sample_wallet_lib p = Written" "refused sample_wallet_lib operation p = False"
  "length (random_nonce sample_wallet_lib n) = NONCE_LEN"
  by (simp_all add: sample_wallet_lib_def keypair_of_def NONCE_LEN_def)

lemma each_line_returns:
  "\<exists>w'. each_line println ls w = (Return (), w')"
  by (induction ls arbitrary: w) (auto simp: return_io_def and_then_def println_def)

lemma sample_import: "\<exists>w1. write_seed sample_wallet_lib ''seed'' [''d''] ''pw'' empty_store = (Return (), w1)"
proof -
  obtain content where "encrypt_with_imported sample_crypto (random_salt sample_wallet_lib 0)
      (random_nonce sample_wallet_lib 0) ''seed'' ''pw'' False = Return content"
    using sample_encrypts by blast
  then have "\<exists>kp wm. write_mnemonic sample_wallet_lib [''d''] ''pw'' (Some ''seed'') False empty_store
      = (Return (''seed'', kp), wm)"
    by (simp add: write_mnemonic_def seed_location_def encrypt_seed_def io_defs empty_store_def
        path_exists_def is_file_def is_dir_def has_extension_def SEED_FILE_def parent_def)
  then show ?thesis
    using each_line_returns by (auto simp: write_seed_def and_then_def)
qed

lemma sample_load:
  assumes "write_seed sample_wallet_lib ''seed'' [''d''] ''pw'' empty_store = (Return (), w1)"
  shows "\<exists>w2. load_seed sample_wallet_lib [''d''] ''pw'' print_seed w1 = (Return (string_bytes ''seed''), w2)"
  using import_load [OF assms sample_stores_wf(1), of "\<lambda>s. True" print_seed] sample_crypto_lawful by auto

lemma import_never_overwrites_witness:
  "\<exists>r w'. write_seed sample_wallet_lib ''seed'' [''d''] ''pw'' old_store = (r, w')
     \<and> files w' [''d'', SEED_FILE] = Some ''old''"
proof -
  obtain r w' where run: "write_seed sample_wallet_lib ''seed'' [''d''] ''pw'' old_store = (r, w')"
    by (cases "write_seed sample_wallet_lib ''seed'' [''d''] ''pw'' old_store")
  have "files old_store [''d'', SEED_FILE] = Some ''old''" by (simp add: old_store_def)
  from import_never_overwrites [OF run this] run show ?thesis by blast
qed

lemma loading_never_loses_a_seed_witness:
  "\<exists>r w'. load_seed sample_wallet_lib [''d''] ''pw'' False old_store = (r, w')
     \<and> files w' [''d'', SEED_FILE] = Some ''old''"
proof -
  obtain r w' where run: "load_seed sample_wallet_lib [''d''] ''pw'' False old_store = (r, w')"
    by (cases "load_seed sample_wallet_lib [''d''] ''pw'' False old_store")
  have old: "files old_store [''d'', SEED_FILE] = Some ''old''" by (simp add: old_store_def)
  have "\<not> is_dir ([''d''] @ [SEED_FILE]) old_store" by (simp add: is_dir_def old_store_def)
  moreover have "find_v1 sample_wallet_lib [''d''] = None"
    by (simp add: find_v1_def sample_wallet_lib_def)
  ultimately show ?thesis
    using loading_never_loses_a_seed [OF run old sample_stores_wf(2)] run by simp
qed

lemma imported_seed_is_loaded_witness:
  "\<exists>w1 w2. write_seed sample_wallet_lib ''seed'' [''d''] ''pw'' empty_store = (Return (), w1)
     \<and> load_seed sample_wallet_lib [''d''] ''pw'' True w1 = (Return (string_bytes ''seed''), w2)"
proof -
  obtain w1 where run: "write_seed sample_wallet_lib ''seed'' [''d''] ''pw'' empty_store = (Return (), w1)"
    using sample_import by blast
  from imported_seed_is_loaded [OF run sample_stores_wf(1), of "\<lambda>s. True" True] run show ?thesis
    using sample_crypto_lawful by auto
qed

lemma seed_directory_gets_new_identity_witness:
  "\<exists>kp w' content. load_seed sample_wallet_lib [''d''] ''pw'' False odd_store = (Return kp, w')
     \<and> files w' [''d'', SEED_FILE, SEED_FILE] = Some content"
proof -
  obtain content where enc: "encrypt_with_imported sample_crypto (random_salt sample_wallet_lib (Suc 0))
      (random_nonce sample_wallet_lib (Suc 0)) [] ''pw'' False = Return content"
    using sample_encrypts by blast
  have dirs: "is_dir [''d''] odd_store" "is_dir ([''d''] @ [SEED_FILE]) odd_store"
    by (simp_all add: is_dir_def odd_store_def)
  have "\<exists>kp wm. write_mnemonic sample_wallet_lib [''d'', SEED_FILE] ''pw'' None True odd_store
      = (Return ([], kp), wm)"
    using enc
    by (simp add: write_mnemonic_def seed_location_def encrypt_seed_def io_defs odd_store_def
        path_exists_def is_file_def is_dir_def SEED_FILE_def parent_def sample_wallet_lib_def [THEN arg_cong, of generated_mnemonic])
  then obtain kp wm where
    wm: "write_mnemonic sample_wallet_lib [''d'', SEED_FILE] ''pw'' None True odd_store = (Return ([], kp), wm)"
    by blast
  have "is_file [''d'', SEED_FILE] odd_store = False" by (simp add: is_file_def odd_store_def)
  then have "get_keys sample_wallet_lib [''d'', SEED_FILE] ''pw'' False odd_store = return_io kp wm"
    by (simp add: get_keys_def and_then_Return
        [of "write_mnemonic sample_wallet_lib [''d'', SEED_FILE] ''pw'' None True" odd_store, OF wm])
  moreover obtain w' where lines:
    "each_line println (banner sample_wallet_lib (kp_public sample_wallet_lib kp)) wm = (Return (), w')"
    using each_line_returns by blast
  ultimately have "load_wallet sample_wallet_lib [''d'', SEED_FILE] ''pw'' Normal odd_store = return_io kp w'"
    by (simp add: load_wallet_def and_then_def [of "get_keys _ _ _ _"] return_io_def [of kp, THEN fun_cong, of wm]
        and_then_Return [of "each_line println (banner sample_wallet_lib (kp_public sample_wallet_lib kp))" wm, OF lines])
  then have "load_wallet sample_wallet_lib [''d'', SEED_FILE] ''pw'' Normal odd_store = (Return kp, w')"
    by (simp add: return_io_def)
  then have run: "load_seed sample_wallet_lib [''d''] ''pw'' False odd_store = (Return kp, w')"
    using dirs by (simp add: load_seed_def Let_def path_exists_def is_file_def odd_store_def)
  from seed_directory_gets_new_identity [OF run dirs sample_stores_wf(3)] run show ?thesis by auto
qed

end
