(* ===== verification/Http_Config.thy ===== *)
theory Http_Config
  imports Prelude
begin

text \<open>
  The HTTP client and its configuration in \<open>src/src/global.rs\<close>: the URL and the headers of the platform
  are set once, by \<open>main\<close>, and read for every request; setting one again or reading one that is not
  set is a panic. A request is what \<open>execute_query_inner\<close> of \<open>src/src/utils.rs\<close> posts.
\<close>

definition PLATFORM_HTTP_TIMEOUT :: duration where
  "PLATFORM_HTTP_TIMEOUT = from_secs 30"

type_synonym header_map = "(string \<times> string) list"

text \<open>The two \<open>OnceLock\<close>s.\<close>

record http_config =
  hc_platform_url :: "string option"
  hc_headers :: "header_map option"

definition unconfigured :: http_config where
  "unconfigured = \<lparr>hc_platform_url = None, hc_headers = None\<rparr>"

definition set_platform_url :: "string \<Rightarrow> http_config \<Rightarrow> http_config exec" where
  "set_platform_url url c =
     (case hc_platform_url c of None \<Rightarrow> Return (c\<lparr>hc_platform_url := Some url\<rparr>) | Some u \<Rightarrow> Panic)"

definition set_headers :: "header_map \<Rightarrow> http_config \<Rightarrow> http_config exec" where
  "set_headers hs c =
     (case hc_headers c of None \<Rightarrow> Return (c\<lparr>hc_headers := Some hs\<rparr>) | Some h \<Rightarrow> Panic)"

definition headers :: "http_config \<Rightarrow> header_map exec" where
  "headers c = (case hc_headers c of Some hs \<Rightarrow> Return hs | None \<Rightarrow> Panic)"

definition platform_url :: "http_config \<Rightarrow> string exec" where
  "platform_url c = (case hc_platform_url c of Some url \<Rightarrow> Return url | None \<Rightarrow> Panic)"

text \<open>The shared client gives every request its timeout.\<close>

definition graphql_client :: duration where
  "graphql_client = PLATFORM_HTTP_TIMEOUT"

record http_request =
  rq_url :: string
  rq_headers :: header_map
  rq_timeout :: duration

definition post_request :: "http_config \<Rightarrow> http_request exec" where
  "post_request c =
     (case platform_url c of
        Panic \<Rightarrow> Panic
      | Return url \<Rightarrow>
          (case headers c of
             Panic \<Rightarrow> Panic
           | Return hs \<Rightarrow> Return \<lparr>rq_url = url, rq_headers = hs, rq_timeout = graphql_client\<rparr>))"

lemmas http_config_defs = set_platform_url_def set_headers_def headers_def platform_url_def
  post_request_def graphql_client_def unconfigured_def

text \<open>Once both are set no request panics, and all have the same URL and headers.\<close>

lemma post_request_Return_iff:
  "post_request c = Return r \<longleftrightarrow>
     (\<exists>url hs. hc_platform_url c = Some url \<and> hc_headers c = Some hs
        \<and> r = \<lparr>rq_url = url, rq_headers = hs, rq_timeout = PLATFORM_HTTP_TIMEOUT\<rparr>)"
  by (auto simp: http_config_defs split: option.splits)

lemma configured_once:
  assumes "set_platform_url url unconfigured = Return c1" and "set_headers hs c1 = Return c2"
  shows "post_request c2 = Return \<lparr>rq_url = url, rq_headers = hs, rq_timeout = PLATFORM_HTTP_TIMEOUT\<rparr>"
    and "set_platform_url url' c2 = Panic" and "set_headers hs' c2 = Panic"
  using assms by (auto simp: http_config_defs)

end
