(* ===== verification/Startup.thy ===== *)
theory Startup
  imports Seed_Safety Websocket Http_Config
begin

text \<open>
  \<open>src/src/main.rs\<close> with the command line of \<open>src/src/types.rs\<close> and \<open>src/src/multitenant.rs\<close>: the
  steps from the start of the process to the five tasks, and the exit status. What the process is
  started with and what it meets is the record \<open>startup\<close>. The printing operations are those of
  \<open>Seed_Store\<close>; log lines and the report of an error or a panic, which go to standard error, are left
  out. The command line is parsed by \<open>clap\<close>: what \<open>Cli::parse\<close> does with it is a parameter, either it
  gives the subcommand, or it prints a text and ends the process with a status of its own.
\<close>

definition DEFAULT_PLATFORM_URL :: string where
  "DEFAULT_PLATFORM_URL = ''https://platform.enjin.io/graphql/daemon''"

subsection \<open>The daemon's account\<close>

record daemon_account_input =
  da_public_key :: string
  da_signed_message :: string

definition daemon_account_input :: "('uri, 'kp) wallet_lib \<Rightarrow> 'kp \<Rightarrow> daemon_account_input" where
  "daemon_account_input lib keypair =
     \<lparr>da_public_key = ''0x'' @ lib_hex_encode (crypto lib) (kp_public lib keypair),
      da_signed_message = ''0x'' @ lib_hex_encode (crypto lib)
        (kp_sign lib keypair (string_bytes ''EnjinPlatform.VerifyDaemonWallet''))\<rparr>"

text \<open>\<open>answer\<close> is what a request with a given input is answered with.\<close>

type_synonym account_server = "http_request \<Rightarrow> daemon_account_input \<Rightarrow> bool http_outcome"

definition set_daemon_wallet_account ::
    "text_lib \<Rightarrow> ('uri, 'kp) wallet_lib \<Rightarrow> http_config \<Rightarrow> account_server \<Rightarrow> 'kp \<Rightarrow> bool result exec" where
  "set_daemon_wallet_account L lib config answer keypair =
     (case post_request config of
        Panic \<Rightarrow> Panic
      | Return request \<Rightarrow> Return (execute_query L (answer request (daemon_account_input lib keypair))))"

definition set_multitenant ::
    "text_lib \<Rightarrow> ('uri, 'kp) wallet_lib \<Rightarrow> http_config \<Rightarrow> account_server \<Rightarrow> 'kp \<Rightarrow> unit io" where
  "set_multitenant L lib config answer keypair =
     (case set_daemon_wallet_account L lib config answer keypair of
        Panic \<Rightarrow> panic
      | Return (Inl e) \<Rightarrow> panic
      | Return (Inr updated) \<Rightarrow> if \<not> updated then panic else return_io ())"

subsection \<open>The process\<close>

datatype command = ImportCommand | PrintSeedCommand

datatype task = PusherWebsocket | TransactionPollerTask | TransactionProcessorTask
  | WalletPollerTask | WalletProcessorTask

text \<open>\<open>Cli::parse\<close> gives the parsed command line, or prints lines on the standard output (the help that
  was asked for) or the standard error (a usage error) and exits.\<close>

datatype cli_outcome = Parsed "command option" | ClapExit nat "string list" "string list"

text \<open>How a run of \<open>main\<close> ends, unless it panics: by a call of \<open>exit\<close>, or by returning its \<open>Result\<close>. The
  runtime turns that into the exit status: a returned error is status 1, as is \<open>exit(1)\<close>, and a panic of
  the main thread is status 101.\<close>

datatype process_end = Exited nat | MainReturned "unit result"

fun exit_status :: "process_end exec \<Rightarrow> nat" where
  "exit_status (Return (Exited status)) = status"
| "exit_status (Return (MainReturned (Inr ok))) = 0"
| "exit_status (Return (MainReturned (Inl e))) = 1"
| "exit_status Panic = 101"

text \<open>The environment after \<open>load_env\<close>, whether logging starts, the working directory (\<open>None\<close> when it cannot
  be told), the command line, the mnemonic typed, which texts are header values, the platform's answer
  about the account, and the task that ends first, with its panic if it has one.\<close>

record startup =
  st_var :: "string \<Rightarrow> string option"
  st_logging :: "unit result"
  st_cwd :: "path option"
  st_cli :: cli_outcome
  st_typed :: "string result"
  st_header_ok :: "string \<Rightarrow> bool"
  st_account :: account_server
  st_first :: "task \<times> string option"

definition expect_io :: "'a option \<Rightarrow> 'a io" where
  "expect_io v = (case v of Some x \<Rightarrow> return_io x | None \<Rightarrow> panic)"

text \<open>The headers, in the order their values are parsed.\<close>

definition header_values :: "('uri, 'kp) wallet_lib \<Rightarrow> string \<Rightarrow> header_map" where
  "header_values lib platform_key =
     [(''authorization'', ''Bearer '' @ platform_key),
      (''user-agent'', ''Enjin-Wallet-Daemon/'' @ pkg_version lib),
      (''accept'', ''application/json''), (''content-type'', ''application/json'')]"

definition run_import :: "('uri, 'kp) wallet_lib \<Rightarrow> startup \<Rightarrow> path \<Rightarrow> process_end io" where
  "run_import lib s seed_path =
     and_then (println ''Enjin Platform - Import Wallet'') (\<lambda>u.
     and_then (ask (is_file seed_path)) (\<lambda>occupied.
     if occupied then panic
     else and_then (expect_io (st_var s ''KEY_PASS'')) (\<lambda>key_pass.
          and_then (case st_typed s of Inl e \<Rightarrow> panic | Inr seed \<Rightarrow> return_io seed) (\<lambda>seed.
          and_then (write_seed lib seed seed_path key_pass) (\<lambda>v.
          return_io (Exited 0))))))"

definition run_print_seed :: "('uri, 'kp) wallet_lib \<Rightarrow> startup \<Rightarrow> path \<Rightarrow> process_end io" where
  "run_print_seed lib s seed_path =
     and_then (expect_io (st_var s ''KEY_PASS'')) (\<lambda>key_pass.
     and_then (load_seed lib seed_path key_pass True) (\<lambda>keypair.
     return_io (Exited 0)))"

definition run_daemon ::
    "text_lib \<Rightarrow> ('uri, 'kp) wallet_lib \<Rightarrow> startup \<Rightarrow> path \<Rightarrow> process_end io" where
  "run_daemon L lib s seed_path =
     and_then (expect_io (st_var s ''KEY_PASS'')) (\<lambda>key_pass.
     and_then (load_seed lib seed_path key_pass False) (\<lambda>keypair.
     (let url = (case st_var s ''PLATFORM_URL'' of Some url \<Rightarrow> url | None \<Rightarrow> DEFAULT_PLATFORM_URL)
      in and_then (lift_exec (set_platform_url url unconfigured)) (\<lambda>with_url.
         and_then (println (''** Platform URL: '' @ url)) (\<lambda>u.
         and_then (println (replicate 65 CHR ''*'')) (\<lambda>v.
         and_then (expect_io (st_var s ''PLATFORM_KEY'')) (\<lambda>platform_key.
         if \<not> list_all (st_header_ok s \<circ> snd) (header_values lib platform_key) then panic
         else and_then (lift_exec (set_headers (header_values lib platform_key) with_url)) (\<lambda>config.
              and_then (set_multitenant L lib config (st_account s) keypair) (\<lambda>x.
              case from_env (st_var s) of
                Inl e \<Rightarrow> return_io (MainReturned (Inl e))
              | Inr websocket \<Rightarrow> (case st_first s of (task, failure) \<Rightarrow> return_io (Exited 1)))))))))))"

definition main :: "text_lib \<Rightarrow> ('uri, 'kp) wallet_lib \<Rightarrow> startup \<Rightarrow> process_end io" where
  "main L lib s =
     (case st_logging s of
        Inl e \<Rightarrow> return_io (MainReturned (Inl e))
      | Inr u \<Rightarrow>
          and_then (expect_io (st_cwd s)) (\<lambda>cwd.
          and_then (ask (resolve_seed_path cwd (st_var s ''SEED_PATH''))) (\<lambda>seed_path.
          case st_cli s of
            ClapExit status out err \<Rightarrow>
              and_then (each_line println out) (\<lambda>u.
              and_then (each_line eprintln err) (\<lambda>v. return_io (Exited status)))
          | Parsed (Some ImportCommand) \<Rightarrow> run_import lib s seed_path
          | Parsed (Some PrintSeedCommand) \<Rightarrow> run_print_seed lib s seed_path
          | Parsed None \<Rightarrow> run_daemon L lib s seed_path)))"

subsection \<open>What is printed\<close>

text \<open>An operation that prints nothing on standard output.\<close>

definition silent :: "'a io \<Rightarrow> bool" where
  "silent m \<longleftrightarrow> (\<forall>w. stdout (snd (m w)) = stdout w)"

lemma silentD: "\<lbrakk>silent m; m w = (r, w')\<rbrakk> \<Longrightarrow> stdout w' = stdout w"
  unfolding silent_def by (metis snd_conv)

named_theorems silent_intros \<open>operations that print nothing on standard output\<close>

lemma silent_basic [silent_intros]:
  "silent (return_io v)" "silent panic" "silent (lift_exec e)" "silent (ask g)" "silent (eprintln l)"
  "silent (draw h)" "silent (read_to_string lib p)" "silent (create_dir_all lib p)"
  "silent (write_file lib p c)" "silent (remove_file lib p)"
  by (auto simp: silent_def io_defs split: option.splits write_fate.splits)

lemma silent_and_then [silent_intros]: "\<lbrakk>silent m; \<And>v. silent (f v)\<rbrakk> \<Longrightarrow> silent (and_then m f)"
  by (auto simp: silent_def and_then_def split: prod.splits exec.splits) (metis snd_conv)+

lemma silent_if [silent_intros]: "\<lbrakk>c \<Longrightarrow> silent m; \<not> c \<Longrightarrow> silent m'\<rbrakk> \<Longrightarrow> silent (if c then m else m')"
  by simp

lemma silent_each_line [silent_intros]: "(\<And>l. silent (f l)) \<Longrightarrow> silent (each_line f ls)"
  by (induction ls) (auto intro: silent_intros)

lemma silent_option [silent_intros]:
  "\<lbrakk>silent m; \<And>x. silent (f x)\<rbrakk> \<Longrightarrow> silent (case v of None \<Rightarrow> m | Some x \<Rightarrow> f x)"
  by (cases v) simp_all

lemma silent_sum [silent_intros]:
  "\<lbrakk>\<And>e. silent (f e); \<And>x. silent (g x)\<rbrakk> \<Longrightarrow> silent (case v of Inl e \<Rightarrow> f e | Inr x \<Rightarrow> g x)"
  by (cases v) simp_all

lemma silent_prod [silent_intros]: "(\<And>a b. silent (f a b)) \<Longrightarrow> silent (case v of (a, b) \<Rightarrow> f a b)"
  by (cases v) simp

lemma silent_encrypt [silent_intros]: "silent (encrypt_seed lib m p b)"
  unfolding encrypt_seed_def by (intro silent_intros)

lemma silent_location [silent_intros]: "silent (seed_location lib path)"
  unfolding seed_location_def by (intro silent_intros)

lemma silent_write_mnemonic [silent_intros]: "silent (write_mnemonic lib path key_pass given ow)"
  unfolding write_mnemonic_def by (intro silent_intros)

lemma silent_get_keys [silent_intros]: "silent (get_keys lib path key_pass False)"
  unfolding get_keys_def if_False by (intro silent_intros)

lemma silent_load_wallet [silent_intros]: "silent (load_wallet lib path key_pass Nothing)"
  unfolding load_wallet_def by (simp add: silent_intros)

lemma silent_migrate [silent_intros]: "silent (migrate_v1 lib v1 key_pass)"
  unfolding migrate_v1_def by (intro silent_intros)

text \<open>What loading a wallet prints, by kind.\<close>

lemma each_line_prints: "each_line println ls w = (Return (), w\<lparr>stdout := stdout w @ ls\<rparr>)"
  by (induction ls arbitrary: w) (simp_all add: return_io_def and_then_def println_def)

lemma each_line_eprints: "each_line eprintln ls w = (Return (), w\<lparr>stderr := stderr w @ ls\<rparr>)"
  by (induction ls arbitrary: w) (simp_all add: return_io_def and_then_def eprintln_def)

lemma get_keys_prints:
  assumes "get_keys lib path key_pass True w = (Return kp, w')"
  shows "\<exists>secret. keypair_of lib secret = Return kp \<and> stdout w' = stdout w @ [secret]"
proof (cases "is_file path w")
  case True
  then have "and_then (read_to_string lib path) (\<lambda>content.
          and_then (lift_exec (decrypt (crypto lib) content key_pass)) (\<lambda>opened.
          and_then (lift_exec (case opened of
                      Inr decrypted \<Rightarrow> Return decrypted
                    | Inl e \<Rightarrow> (case decrypt_mnemonic lib content of
                                 Panic \<Rightarrow> Panic
                               | Return mnemonic \<Rightarrow> Return (mnemonic @ ''///'' @ key_pass)))) (\<lambda>decrypted.
          and_then (case parse_uri lib decrypted of Inl e \<Rightarrow> panic | Inr uri \<Rightarrow> return_io uri) (\<lambda>uri.
          and_then (println decrypted) (\<lambda>u.
          case keypair_from_uri lib uri of Inl e \<Rightarrow> panic | Inr kp \<Rightarrow> return_io kp))))) w = (Return kp, w')"
    using assms by (simp add: get_keys_def)
  then obtain content w1 r w2 decrypted w3 uri w4 u w5 where steps:
    "read_to_string lib path w = (Return content, w1)" "lift_exec r w1 = (Return decrypted, w2)"
    "(case parse_uri lib decrypted of Inl e \<Rightarrow> panic | Inr uri \<Rightarrow> return_io uri) w2 = (Return uri, w3)"
    "println decrypted w3 = (Return u, w4)"
    "(case keypair_from_uri lib uri of Inl e \<Rightarrow> panic | Inr kp \<Rightarrow> return_io kp) w4 = (Return kp, w')"
    by (elim and_thenE) (auto simp: lift_exec_def)
  then have "keypair_of lib decrypted = Return kp" "stdout w' = stdout w3 @ [decrypted]" "stdout w3 = stdout w2"
    by (auto simp: keypair_of_def panic_def return_io_def println_def split: sum.splits)
  moreover have "stdout w2 = stdout w"
    using steps(1,2) by (auto simp: lift_exec_def read_to_string_def split: option.splits if_splits)
  ultimately show ?thesis by auto
next
  case False
  then have "and_then (write_mnemonic lib path key_pass None True) (\<lambda>(mnemonic, keypair).
      and_then (println mnemonic) (\<lambda>u. return_io keypair)) w = (Return kp, w')"
    using assms by (simp add: get_keys_def)
  then obtain m kp2 w2 where wm: "write_mnemonic lib path key_pass None True w = (Return (m, kp2), w2)"
    and rest: "and_then (println m) (\<lambda>u. return_io kp2) w2 = (Return kp, w')"
    by (cases rule: and_thenE) auto
  from rest have "kp2 = kp" "stdout w' = stdout w2 @ [m]"
    by (auto simp: and_then_def println_def return_io_def)
  moreover have "keypair_of lib m = Return kp2"
    using wm by (cases rule: write_mnemonicE) (auto split: exec.splits)
  ultimately show ?thesis using silentD [OF silent_write_mnemonic wm] by auto
qed

lemma load_wallet_prints:
  assumes "load_wallet lib path key_pass (if print_seed then Seed else Normal) w = (Return kp, w')"
  shows "if print_seed then \<exists>secret. keypair_of lib secret = Return kp \<and> stdout w' = stdout w @ [secret]
       else stdout w' = stdout w @ banner lib (kp_public lib kp)"
proof (cases print_seed)
  case True
  then have run: "and_then (get_keys lib path key_pass True) (\<lambda>signer.
      and_then (each_line eprintln (seed_note lib (kp_public lib signer))) (\<lambda>v. return_io signer)) w
      = (Return kp, w')"
    using assms by (simp add: load_wallet_def)
  have rest: "silent (and_then (each_line eprintln (seed_note lib (kp_public lib signer)))
      (\<lambda>v. return_io signer))" for signer
    by (intro silent_intros)
  from run obtain signer w1 where g: "get_keys lib path key_pass True w = (Return signer, w1)"
    "and_then (each_line eprintln (seed_note lib (kp_public lib signer))) (\<lambda>v. return_io signer) w1
      = (Return kp, w')"
    by (cases rule: and_thenE) auto
  have "signer = kp"
    using g(2) by (cases rule: and_thenE) (auto simp: return_io_def)
  then show ?thesis using True get_keys_prints [OF g(1)] silentD [OF rest g(2)] by simp
next
  case False
  then have run: "and_then (get_keys lib path key_pass False) (\<lambda>signer.
      and_then (each_line println (banner lib (kp_public lib signer))) (\<lambda>u. return_io signer)) w
      = (Return kp, w')"
    using assms by (simp add: load_wallet_def)
  then obtain signer w1 where g: "get_keys lib path key_pass False w = (Return signer, w1)"
    "and_then (each_line println (banner lib (kp_public lib signer))) (\<lambda>u. return_io signer) w1
      = (Return kp, w')"
    by (cases rule: and_thenE) auto
  then show ?thesis
    using False silentD [OF silent_get_keys g(1)]
    by (auto simp: and_then_def each_line_prints return_io_def)
qed

lemma load_seed_ends:
  assumes "load_seed lib path key_pass print_seed w = (Return kp, w')"
  shows "\<exists>final w1. stdout w1 = stdout w
     \<and> load_wallet lib final key_pass (if print_seed then Seed else Normal) w1 = (Return kp, w')"
proof -
  have silent: "silent (if \<not> path_exists chosen w0
      then and_then (write_mnemonic lib chosen key_pass None True) (\<lambda>r. return_io ()) else return_io ())"
    "silent (case v1 of Some v1_path \<Rightarrow> migrate_v1 lib v1_path key_pass | None \<Rightarrow> return_io chosen)"
    for chosen v1 w0
    by (intro silent_intros; simp)+
  show ?thesis
  proof (cases "path_exists path w \<and> \<not> is_file path w")
    case False
    then have "load_wallet lib path key_pass (if print_seed then Seed else Normal) w = (Return kp, w')"
      using assms by (auto simp: load_seed_def Let_def split: if_splits)
    then show ?thesis by blast
  next
    case True
    then have here: "path_exists path w = True" "is_file path w = False" by simp_all
    note run = assms [unfolded load_seed_def Let_def and_then_ask here not_True_eq_False if_True if_False]
    from run obtain u w1 where w1:
      "(if \<not> path_exists (case if path_exists (path @ [SEED_FILE]) w then None else find_v1 lib path of
             None \<Rightarrow> path @ [SEED_FILE] | Some v1 \<Rightarrow> v1) w
        then and_then (write_mnemonic lib (case if path_exists (path @ [SEED_FILE]) w then None
             else find_v1 lib path of None \<Rightarrow> path @ [SEED_FILE] | Some v1 \<Rightarrow> v1) key_pass None True)
             (\<lambda>r. return_io ()) else return_io ()) w = (Return u, w1)"
      and "and_then (case if path_exists (path @ [SEED_FILE]) w then None else find_v1 lib path of
             Some v1_path \<Rightarrow> migrate_v1 lib v1_path key_pass
           | None \<Rightarrow> return_io (case if path_exists (path @ [SEED_FILE]) w then None else find_v1 lib path of
                 None \<Rightarrow> path @ [SEED_FILE] | Some v1 \<Rightarrow> v1))
         (\<lambda>final_path. load_wallet lib final_path key_pass (if print_seed then Seed else Normal)) w1
         = (Return kp, w')"
      by (cases rule: and_thenE) auto
    from this(2) obtain final w2 where w2:
      "(case if path_exists (path @ [SEED_FILE]) w then None else find_v1 lib path of
             Some v1_path \<Rightarrow> migrate_v1 lib v1_path key_pass
           | None \<Rightarrow> return_io (case if path_exists (path @ [SEED_FILE]) w then None else find_v1 lib path of
                 None \<Rightarrow> path @ [SEED_FILE] | Some v1 \<Rightarrow> v1)) w1 = (Return final, w2)"
      "load_wallet lib final key_pass (if print_seed then Seed else Normal) w2 = (Return kp, w')"
      by (cases rule: and_thenE) auto
    show ?thesis
      using silentD [OF silent(1) w1] silentD [OF silent(2) w2(1)] w2(2) by metis
  qed
qed

subsection \<open>Properties\<close>

text \<open>
  C34: \<open>print-seed\<close> prints the seed and nothing else on standard output, whether it was read,
  generated or migrated on the way: the one line printed is a secret of the very key pair that was
  loaded. Loading for the daemon prints the addresses and the public key, never the secret.
\<close>

theorem printed_on_stdout:
  assumes "load_seed lib path key_pass print_seed w = (Return kp, w')"
  shows "if print_seed then \<exists>secret. keypair_of lib secret = Return kp \<and> stdout w' = stdout w @ [secret]
       else stdout w' = stdout w @ banner lib (kp_public lib kp)"
proof -
  from load_seed_ends [OF assms] obtain final w1 where "stdout w1 = stdout w"
    "load_wallet lib final key_pass (if print_seed then Seed else Normal) w1 = (Return kp, w')" by blast
  with load_wallet_prints [OF this(2)] show ?thesis by (cases print_seed) auto
qed

lemma printed_on_stdout_witness:
  "\<exists>w1 w2 secret. write_seed sample_wallet_lib ''seed'' [''d''] ''pw'' empty_store = (Return (), w1)
     \<and> load_seed sample_wallet_lib [''d''] ''pw'' True w1 = (Return (string_bytes ''seed''), w2)
     \<and> stdout w2 = stdout w1 @ [secret] \<and> string_bytes secret = string_bytes ''seed''"
proof -
  obtain w1 where run: "write_seed sample_wallet_lib ''seed'' [''d''] ''pw'' empty_store = (Return (), w1)"
    using sample_import by blast
  obtain w2 where loaded: "load_seed sample_wallet_lib [''d''] ''pw'' True w1 = (Return (string_bytes ''seed''), w2)"
    using sample_load [OF run] by blast
  from printed_on_stdout [OF loaded] loaded run show ?thesis by auto
qed

subsection \<open>The exit status\<close>

text \<open>What each way through \<open>main\<close> needs to come to its end without a panic, from the world \<open>w\<close> it is
  started in. For \<open>import\<close>: no file at the seed path, the password, a mnemonic, and a seed file written.\<close>

definition import_completes :: "('uri, 'kp) wallet_lib \<Rightarrow> startup \<Rightarrow> path \<Rightarrow> world \<Rightarrow> bool" where
  "import_completes lib s path w \<longleftrightarrow>
     \<not> is_file path w
     \<and> (\<exists>key_pass seed w'. st_var s ''KEY_PASS'' = Some key_pass \<and> st_typed s = Inr seed
          \<and> write_seed lib seed path key_pass
              (w\<lparr>stdout := stdout w @ [''Enjin Platform - Import Wallet'']\<rparr>) = (Return (), w'))"

text \<open>For \<open>print-seed\<close>: the password, and a seed loaded.\<close>

definition print_seed_completes :: "('uri, 'kp) wallet_lib \<Rightarrow> startup \<Rightarrow> path \<Rightarrow> world \<Rightarrow> bool" where
  "print_seed_completes lib s path w \<longleftrightarrow>
     (\<exists>key_pass keypair w'. st_var s ''KEY_PASS'' = Some key_pass
        \<and> load_seed lib path key_pass True w = (Return keypair, w'))"

text \<open>For the daemon: the password and the token, a seed loaded, headers that can be sent, and the answer
  \<open>true\<close> to the registration of the loaded key, in a request to the configured URL with the configured
  token and a timeout of 30 seconds.\<close>

definition account_accepted ::
    "('uri, 'kp) wallet_lib \<Rightarrow> startup \<Rightarrow> path \<Rightarrow> world \<Rightarrow> bool" where
  "account_accepted lib s path w \<longleftrightarrow>
     (\<exists>key_pass platform_key keypair w' reply.
        st_var s ''KEY_PASS'' = Some key_pass \<and> st_var s ''PLATFORM_KEY'' = Some platform_key
        \<and> load_seed lib path key_pass False w = (Return keypair, w')
        \<and> list_all (st_header_ok s \<circ> snd) (header_values lib platform_key)
        \<and> st_account s
            \<lparr>rq_url = (case st_var s ''PLATFORM_URL'' of Some url \<Rightarrow> url | None \<Rightarrow> DEFAULT_PLATFORM_URL),
             rq_headers = header_values lib platform_key, rq_timeout = from_secs 30\<rparr>
            (daemon_account_input lib keypair) = Responded 200 (Inr reply)
        \<and> resp_data reply = Some True)"

lemma run_import_status:
  "exit_status (fst (run_import lib s path w)) = (if import_completes lib s path w then 0 else 101)"
proof (cases "is_file path w")
  case False
  moreover have "is_file path (w\<lparr>stdout := out\<rparr>) = is_file path w" for out by (simp add: is_file_def)
  ultimately show ?thesis
    by (cases "st_var s ''KEY_PASS''"; cases "st_typed s")
      (auto simp: run_import_def import_completes_def io_defs expect_io_def
        split: prod.split exec.split)
qed (simp add: run_import_def import_completes_def io_defs is_file_def)

lemma run_print_seed_status:
  "exit_status (fst (run_print_seed lib s path w)) = (if print_seed_completes lib s path w then 0 else 101)"
  by (cases "st_var s ''KEY_PASS''")
    (auto simp: run_print_seed_def print_seed_completes_def io_defs expect_io_def
      split: prod.split exec.split)

lemma set_multitenant_ends:
  assumes "post_request config = Return request"
  shows "set_multitenant L lib config answer keypair w =
    (if execute_query L (answer request (daemon_account_input lib keypair)) = Inr True
     then Return () else Panic, w)"
  using assms
  by (auto simp: set_multitenant_def set_daemon_wallet_account_def panic_def return_io_def split: sum.split)

lemma run_daemon_status:
  "exit_status (fst (run_daemon L lib s path w)) = (if account_accepted lib s path w then 1 else 101)"
proof (cases "\<exists>key_pass keypair w'. st_var s ''KEY_PASS'' = Some key_pass
    \<and> load_seed lib path key_pass False w = (Return keypair, w')")
  case False
  then have "fst (run_daemon L lib s path w) = Panic"
    by (cases "st_var s ''KEY_PASS''")
      (auto simp: run_daemon_def io_defs expect_io_def split: prod.split exec.split)
  then show ?thesis using False by (auto simp: account_accepted_def)
next
  case True
  then obtain key_pass keypair w' where loaded: "st_var s ''KEY_PASS'' = Some key_pass"
    "load_seed lib path key_pass False w = (Return keypair, w')" by blast
  define url where "url = (case st_var s ''PLATFORM_URL'' of Some u \<Rightarrow> u | None \<Rightarrow> DEFAULT_PLATFORM_URL)"
  show ?thesis
  proof (cases "st_var s ''PLATFORM_KEY''")
    case None
    then show ?thesis
      using loaded by (auto simp: run_daemon_def account_accepted_def io_defs expect_io_def Let_def http_config_defs)
  next
    case (Some platform_key)
    let ?hs = "header_values lib platform_key"
    define config where "config = \<lparr>hc_platform_url = Some url, hc_headers = Some ?hs\<rparr>"
    define request where "request = \<lparr>rq_url = url, rq_headers = ?hs, rq_timeout = from_secs 30\<rparr>"
    have request: "post_request config = Return request"
      by (simp add: config_def request_def http_config_defs PLATFORM_HTTP_TIMEOUT_def)
    have accepted: "account_accepted lib s path w \<longleftrightarrow> list_all (st_header_ok s \<circ> snd) ?hs
        \<and> execute_query L (st_account s request (daemon_account_input lib keypair)) = Inr True"
      using loaded Some by (auto simp: account_accepted_def execute_query_Ok_iff request_def url_def)
    show ?thesis
    proof (cases "list_all (st_header_ok s \<circ> snd) ?hs")
      case headers: True
      have "set_platform_url url unconfigured = Return \<lparr>hc_platform_url = Some url, hc_headers = None\<rparr>"
        "set_headers ?hs \<lparr>hc_platform_url = Some url, hc_headers = None\<rparr> = Return config"
        by (simp_all add: http_config_defs config_def)
      then have "exit_status (fst (run_daemon L lib s path w)) =
          exit_status (fst (and_then (set_multitenant L lib config (st_account s) keypair) (\<lambda>x.
            case from_env (st_var s) of
              Inl e \<Rightarrow> return_io (MainReturned (Inl e))
            | Inr websocket \<Rightarrow> (case st_first s of (task, failure) \<Rightarrow> return_io (Exited 1)))
            (w'\<lparr>stdout := (stdout w' @ [''** Platform URL: '' @ url]) @ [replicate 65 CHR ''*'']\<rparr>)))"
        using loaded Some headers
        by (simp add: run_daemon_def and_then_def return_io_def println_def lift_exec_def expect_io_def
            Let_def flip: url_def)
      then show ?thesis
        unfolding accepted using headers
        by (auto simp: and_then_def set_multitenant_ends [OF request] return_io_def split: sum.split prod.split)
    next
      case False
      then show ?thesis
        unfolding accepted using loaded Some
        by (simp add: run_daemon_def io_defs expect_io_def Let_def http_config_defs)
    qed
  qed
qed

text \<open>
  C35: The exit status of the process, for every way it can be started and end. A failure to set up
  logging is status 1, before anything else is done. Where \<open>clap\<close> ends the process, with help or a usage
  error, the status is the one \<open>clap\<close> gives. A subcommand ends with status 0 exactly when it was
  completed: \<open>import\<close> wrote the seed file and there was none, \<open>print-seed\<close> loaded a seed. The daemon never
  ends with status 0, whichever task ends first and however: its status is 1 exactly when the account
  was accepted, that is, the platform answered \<open>true\<close> to the registration of the loaded key in a request
  to the configured URL with the configured token and a timeout of 30 seconds. Everything else is the
  status 101 of a panic.
\<close>

theorem exit_status_of_main:
  "let status = exit_status (fst (main L lib s w))
   in case st_logging s of
        Inl e \<Rightarrow> status = 1
      | Inr ok \<Rightarrow> (case st_cwd s of
          None \<Rightarrow> status = 101
        | Some cwd \<Rightarrow>
            (let path = resolve_seed_path cwd (st_var s ''SEED_PATH'') w
             in case st_cli s of
                  ClapExit n out err \<Rightarrow> status = n
                | Parsed (Some ImportCommand) \<Rightarrow> status = (if import_completes lib s path w then 0 else 101)
                | Parsed (Some PrintSeedCommand) \<Rightarrow>
                    status = (if print_seed_completes lib s path w then 0 else 101)
                | Parsed None \<Rightarrow> status = (if account_accepted lib s path w then 1 else 101)))"
proof -
  have printed: "and_then (each_line println out) (\<lambda>u. and_then (each_line eprintln err) (\<lambda>v. return_io x)) w
      = (Return x, w\<lparr>stdout := stdout w @ out, stderr := stderr w @ err\<rparr>)" for out err and x :: process_end
    by (simp add: and_then_def each_line_prints each_line_eprints return_io_def)
  note status = run_import_status [of lib s _ w] run_print_seed_status [of lib s _ w]
    run_daemon_status [of L lib s _ w]
  show ?thesis
    by (cases "st_logging s"; cases "st_cwd s"; simp add: main_def Let_def return_io_def expect_io_def panic_def
        split: cli_outcome.split option.split command.split)
      (auto simp: and_then_def ask_def printed [unfolded and_then_def return_io_def] status)
qed

definition sample_startup :: startup where
  "sample_startup =
     \<lparr>st_var = [''KEY_PASS'' \<mapsto> ''pw'', ''PLATFORM_KEY'' \<mapsto> ''key'', ''SEED_PATH'' \<mapsto> ''/d''],
      st_logging = Inr (), st_cwd = Some [], st_cli = Parsed None, st_typed = Inl ''no terminal'',
      st_header_ok = (\<lambda>s. True),
      st_account = (\<lambda>r i. Responded 200 (Inr \<lparr>resp_data = Some True, resp_errors = None\<rparr>)),
      st_first = (PusherWebsocket, None)\<rparr>"

lemma exit_status_of_main_witness:
  "\<exists>w1. write_seed sample_wallet_lib ''seed'' [''d''] ''pw'' empty_store = (Return (), w1)
     \<and> exit_status (fst (main sample_text_lib sample_wallet_lib sample_startup w1)) = 1
     \<and> exit_status (fst (main sample_text_lib sample_wallet_lib
         (sample_startup\<lparr>st_cli := Parsed (Some PrintSeedCommand)\<rparr>) w1)) = 0
     \<and> exit_status (fst (main sample_text_lib sample_wallet_lib
         (sample_startup\<lparr>st_account := (\<lambda>r i. SendFailed ''timeout'')\<rparr>) w1)) = 101
     \<and> exit_status (fst (main sample_text_lib sample_wallet_lib
         (sample_startup\<lparr>st_logging := Inl ''already set''\<rparr>) w1)) = 1"
proof -
  obtain w1 where run: "write_seed sample_wallet_lib ''seed'' [''d''] ''pw'' empty_store = (Return (), w1)"
    using sample_import by blast
  have loaded: "\<exists>w2. load_seed sample_wallet_lib [''d''] ''pw'' print_seed w1 = (Return (string_bytes ''seed''), w2)"
    for print_seed using sample_load [OF run] by blast
  have path: "resolve_seed_path [] (Some ''/d'') w1 = [''d'']"
    by (simp add: resolve_seed_path_def is_absolute_def path_of_text_def)
  have accepted: "account_accepted sample_wallet_lib sample_startup [''d''] w1"
    "\<not> account_accepted sample_wallet_lib (sample_startup\<lparr>st_account := (\<lambda>r i. SendFailed ''timeout'')\<rparr>) [''d''] w1"
    using loaded [of False] by (auto simp: account_accepted_def sample_startup_def list_all_iff)
  have printed: "print_seed_completes sample_wallet_lib
      (sample_startup\<lparr>st_cli := Parsed (Some PrintSeedCommand)\<rparr>) [''d''] w1"
    using loaded [of True] by (auto simp: print_seed_completes_def sample_startup_def)
  note status = exit_status_of_main [of sample_text_lib sample_wallet_lib _ w1, unfolded Let_def]
  show ?thesis
    using run accepted printed status [of sample_startup]
      status [of "sample_startup\<lparr>st_cli := Parsed (Some PrintSeedCommand)\<rparr>"]
      status [of "sample_startup\<lparr>st_account := (\<lambda>r i. SendFailed ''timeout'')\<rparr>"]
      status [of "sample_startup\<lparr>st_logging := Inl ''already set''\<rparr>"]
    by (simp add: sample_startup_def path)
qed

end
