(* ===== verification/Env_Loader.thy ===== *)
theory Env_Loader
  imports Rust_Text "HOL-Library.Sublist"
begin

text \<open>
  \<open>src/src/env_loader.rs\<close>: finding the \<open>.env\<close> file and reading it when it is UTF-16. The parsing of
  the variables is \<open>dotenvy\<close>'s: \<open>load_env\<close> here is what \<open>dotenvy\<close> is given. A path is the list of its
  components from the root. Decoding is proved inverse to encoding once, for either byte order, in
  the locale \<open>byte_order\<close>.
\<close>

subsection \<open>UTF-8 and UTF-16\<close>

text \<open>The UTF-8 bytes of a Unicode scalar value.\<close>

definition utf8_char :: "nat \<Rightarrow> string" where
  "utf8_char n =
     (if n < 0x80 then [char_of n]
      else if n < 0x800 then [char_of (0xC0 + n div 0x40), char_of (0x80 + n mod 0x40)]
      else if n < 0x10000
      then [char_of (0xE0 + n div 0x1000), char_of (0x80 + n div 0x40 mod 0x40),
            char_of (0x80 + n mod 0x40)]
      else [char_of (0xF0 + n div 0x40000), char_of (0x80 + n div 0x1000 mod 0x40),
            char_of (0x80 + n div 0x40 mod 0x40), char_of (0x80 + n mod 0x40)])"

definition is_high :: "u16 \<Rightarrow> bool" where
  "is_high u \<longleftrightarrow> 0xD800 \<le> unat u \<and> unat u < 0xDC00"

definition is_low :: "u16 \<Rightarrow> bool" where
  "is_low u \<longleftrightarrow> 0xDC00 \<le> unat u \<and> unat u < 0xE000"

text \<open>\<open>String::from_utf16_lossy\<close>: a surrogate without its partner becomes U+FFFD.\<close>

fun decode_units :: "u16 list \<Rightarrow> nat list" where
  "decode_units [] = []"
| "decode_units [u] = (if is_high u \<or> is_low u then [0xFFFD] else [unat u])"
| "decode_units (u # v # us) =
     (if is_high u \<and> is_low v
      then (0x10000 + (unat u - 0xD800) * 0x400 + (unat v - 0xDC00)) # decode_units us
      else if is_high u \<or> is_low u then 0xFFFD # decode_units (v # us)
      else unat u # decode_units (v # us))"

definition from_utf16_lossy :: "u16 list \<Rightarrow> string" where
  "from_utf16_lossy units = concat (map utf8_char (decode_units units))"

definition from_le_bytes :: "u8 \<Rightarrow> u8 \<Rightarrow> u16" where
  "from_le_bytes a b = of_nat (unat a + 256 * unat b)"

definition from_be_bytes :: "u8 \<Rightarrow> u8 \<Rightarrow> u16" where
  "from_be_bytes a b = of_nat (256 * unat a + unat b)"

fun chunk_units :: "(u8 \<Rightarrow> u8 \<Rightarrow> u16) \<Rightarrow> bytes \<Rightarrow> u16 list" where
  "chunk_units to_u16 (a # b # rest) = to_u16 a b # chunk_units to_u16 rest"
| "chunk_units to_u16 _ = []"

definition decode_utf16 :: "bytes \<Rightarrow> (u8 \<Rightarrow> u8 \<Rightarrow> u16) \<Rightarrow> string" where
  "decode_utf16 body to_u16 =
     (let units = chunk_units to_u16 body
      in from_utf16_lossy (if \<not> even (length body) then units @ [0xFFFD] else units))"

subsection \<open>The file\<close>

text \<open>\<open>is_file\<close> is the file system's; the walk ends at the root.\<close>

function find_dotenv_from :: "(string list \<Rightarrow> bool) \<Rightarrow> string list \<Rightarrow> string list option" where
  "find_dotenv_from is_file dir =
     (if is_file (dir @ [''.env'']) then Some (dir @ [''.env''])
      else if dir = [] then None else find_dotenv_from is_file (butlast dir))"
  by pat_completeness auto
termination by (relation "measure (\<lambda>(f, dir). length dir)") auto

declare find_dotenv_from.simps [simp del]

text \<open>The current directory may be unknown, and the file unreadable.\<close>

definition find_dotenv :: "(string list \<Rightarrow> bool) \<Rightarrow> string list option \<Rightarrow> string list option" where
  "find_dotenv is_file cwd = (case cwd of None \<Rightarrow> None | Some dir \<Rightarrow> find_dotenv_from is_file dir)"

datatype env_source = NoEnvFile | FromPath "string list" | FromText string

definition load_env ::
    "(string list \<Rightarrow> bool) \<Rightarrow> (string list \<Rightarrow> bytes option) \<Rightarrow> string list option \<Rightarrow> env_source" where
  "load_env is_file read cwd =
     (case find_dotenv is_file cwd of
        None \<Rightarrow> NoEnvFile
      | Some path \<Rightarrow>
          (case read path of
             None \<Rightarrow> NoEnvFile
           | Some bytes \<Rightarrow>
               if take 2 bytes = [0xFF, 0xFE] then FromText (decode_utf16 (drop 2 bytes) from_le_bytes)
               else if take 2 bytes = [0xFE, 0xFF]
               then FromText (decode_utf16 (drop 2 bytes) from_be_bytes)
               else FromPath path))"

subsection \<open>Decoding inverts encoding\<close>

text \<open>A Unicode scalar value and its UTF-16 units.\<close>

definition is_scalar :: "nat \<Rightarrow> bool" where
  "is_scalar c \<longleftrightarrow> c < 0xD800 \<or> (0xE000 \<le> c \<and> c < 0x110000)"

definition utf16_units :: "nat \<Rightarrow> u16 list" where
  "utf16_units c =
     (if c < 0x10000 then [of_nat c]
      else [of_nat (0xD800 + (c - 0x10000) div 0x400), of_nat (0xDC00 + (c - 0x10000) mod 0x400)])"

lemma decode_units_bmp:
  "\<not> is_high u \<Longrightarrow> \<not> is_low u \<Longrightarrow> decode_units (u # us) = unat u # decode_units us"
  by (cases us) auto

lemma unat_u16: "n < 0x10000 \<Longrightarrow> unat (of_nat n :: u16) = n"
  by (rule unat_of_nat_fits) simp

lemma decode_encoded_char:
  assumes "is_scalar c"
  shows "decode_units (utf16_units c @ us) = c # decode_units us"
proof (cases "c < 0x10000")
  case True
  then have c: "unat (of_nat c :: u16) = c" by (rule unat_u16)
  then have "\<not> is_high (of_nat c)" "\<not> is_low (of_nat c)"
    using True assms by (auto simp: is_high_def is_low_def is_scalar_def)
  from decode_units_bmp [OF this] show ?thesis using True c by (simp add: utf16_units_def)
next
  case False
  define d where "d = c - 0x10000"
  have d: "d < 0x100000" "c = 0x10000 + d" using assms False by (auto simp: is_scalar_def d_def)
  have "unat (of_nat (0xD800 + d div 0x400) :: u16) = 0xD800 + d div 0x400"
    "unat (of_nat (0xDC00 + d mod 0x400) :: u16) = 0xDC00 + d mod 0x400"
    using d(1) by (intro unat_u16; linarith)+
  moreover have "d div 0x400 * 0x400 + d mod 0x400 = d" by simp
  ultimately show ?thesis
    using d False by (simp add: utf16_units_def is_high_def is_low_def d_def [symmetric])
qed

lemma decode_encoded:
  "list_all is_scalar cs \<Longrightarrow> decode_units (concat (map utf16_units cs)) = cs"
  by (induction cs) (simp_all add: decode_encoded_char)

text \<open>A text as bytes, in the order of a given encoder.\<close>

definition unit_bytes :: "(u16 \<Rightarrow> u8 \<times> u8) \<Rightarrow> u16 list \<Rightarrow> bytes" where
  "unit_bytes of_u16 us = concat (map (\<lambda>u. [fst (of_u16 u), snd (of_u16 u)]) us)"

definition encode_utf16 :: "(u16 \<Rightarrow> u8 \<times> u8) \<Rightarrow> nat list \<Rightarrow> bytes" where
  "encode_utf16 of_u16 cs = unit_bytes of_u16 (concat (map utf16_units cs))"

locale byte_order =
  fixes to_u16 :: "u8 \<Rightarrow> u8 \<Rightarrow> u16" and of_u16 :: "u16 \<Rightarrow> u8 \<times> u8"
  assumes to_of: "to_u16 (fst (of_u16 u)) (snd (of_u16 u)) = u"
begin

lemma chunk_units_inverse: "chunk_units to_u16 (unit_bytes of_u16 us) = us"
  by (induction us) (simp_all add: unit_bytes_def to_of)

lemma even_units: "even (length (unit_bytes of_u16 us))"
  by (induction us) (simp_all add: unit_bytes_def)

lemma decode_inverse:
  "list_all is_scalar cs \<Longrightarrow> decode_utf16 (encode_utf16 of_u16 cs) to_u16 = concat (map utf8_char cs)"
  by (simp add: decode_utf16_def encode_utf16_def from_utf16_lossy_def chunk_units_inverse even_units
      decode_encoded)

text \<open>Bytes after the last character: whole units \<open>us\<close> and at most one byte more.\<close>

lemma decode_cut:
  assumes "list_all is_scalar cs" and "length stray \<le> 1"
  shows "decode_utf16 (encode_utf16 of_u16 cs @ unit_bytes of_u16 us @ stray) to_u16
    = concat (map utf8_char cs) @ from_utf16_lossy (us @ (if stray = [] then [] else [0xFFFD]))"
proof -
  let ?units = "concat (map utf16_units cs) @ us"
  have bytes: "encode_utf16 of_u16 cs @ unit_bytes of_u16 us = unit_bytes of_u16 ?units"
    by (simp add: encode_utf16_def unit_bytes_def)
  have chunk: "chunk_units to_u16 (xs @ [b]) = chunk_units to_u16 xs" if "even (length xs)" for xs b
    using that by (induction xs rule: induct_list012) auto
  have after: "decode_units (concat (map utf16_units cs) @ vs) = cs @ decode_units vs" for vs
    using assms(1) by (induction cs) (simp_all add: decode_encoded_char)
  have "decode_utf16 (unit_bytes of_u16 ?units @ stray) to_u16
      = from_utf16_lossy (?units @ (if stray = [] then [] else [0xFFFD]))"
    using assms(2) even_units [of ?units] chunk [OF even_units [of ?units]]
    by (cases stray) (simp_all add: decode_utf16_def chunk_units_inverse)
  then show ?thesis
    unfolding append_assoc [symmetric] bytes
    by (simp add: from_utf16_lossy_def after)
qed

lemma decode_truncated:
  "list_all is_scalar cs \<Longrightarrow>
   decode_utf16 (encode_utf16 of_u16 cs @ [b]) to_u16 = concat (map utf8_char cs) @ utf8_char 0xFFFD"
  using decode_cut [of cs "[b]" "[]"]
  by (simp add: unit_bytes_def from_utf16_lossy_def is_high_def is_low_def)

text \<open>A character cut off: less than a unit is left of it, or the first unit of a pair and perhaps a
  byte of the second.\<close>

lemma cut_character:
  assumes "is_scalar c" and "strict_prefix rest (encode_utf16 of_u16 [c])"
  shows "length rest \<le> 1
    \<or> (\<exists>u stray. is_high u \<and> rest = unit_bytes of_u16 [u] @ stray \<and> length stray \<le> 1)"
proof (cases "c < 0x10000")
  case True
  then show ?thesis
    using prefix_length_less [OF assms(2)] by (simp add: encode_utf16_def utf16_units_def unit_bytes_def)
next
  case False
  define u :: u16 where "u = of_nat (0xD800 + (c - 0x10000) div 0x400)"
  have "unat u = 0xD800 + (c - 0x10000) div 0x400"
    unfolding u_def using assms(1) by (intro unat_u16) (auto simp: is_scalar_def)
  then have "is_high u" using assms(1) False by (auto simp: is_scalar_def is_high_def)
  moreover obtain v where "encode_utf16 of_u16 [c] = unit_bytes of_u16 [u] @ [fst (of_u16 v), snd (of_u16 v)]"
    using False by (simp add: encode_utf16_def utf16_units_def unit_bytes_def u_def)
  ultimately show ?thesis
    using assms(2) by (auto simp: unit_bytes_def strict_prefix_def prefix_Cons)
qed

lemma decode_cut_off:
  assumes cs: "list_all is_scalar cs"
    and cut: "length rest \<le> 1 \<or> (\<exists>c. is_scalar c \<and> strict_prefix rest (encode_utf16 of_u16 [c]))"
  shows "decode_utf16 (encode_utf16 of_u16 cs @ rest) to_u16
    = concat (map utf8_char cs) @ concat (replicate ((length rest + 1) div 2) (utf8_char 0xFFFD))"
proof -
  from cut cut_character consider "rest = []" | b where "rest = [b]"
    | u stray where "is_high u" "rest = unit_bytes of_u16 [u] @ stray" "length stray \<le> 1"
    by (cases rest; cases "tl rest") fastforce+
  then show ?thesis
  proof cases
    case (3 u stray)
    have "decode_units [u] = [0xFFFD]" "decode_units [u, 0xFFFD] = [0xFFFD, 0xFFFD]"
      using 3(1) by (simp_all add: is_low_def is_high_def)
    moreover have "length (unit_bytes of_u16 [u]) = 2" by (simp add: unit_bytes_def)
    moreover have "concat (replicate 2 x) = x @ x" for x :: string by (simp add: numeral_2_eq_2)
    ultimately show ?thesis
      using decode_cut [OF cs 3(3), of "[u]"] 3(2,3)
      by (cases stray) (simp_all add: from_utf16_lossy_def)
  qed (simp_all add: decode_inverse decode_truncated cs)
qed

end

definition to_le_bytes :: "u16 \<Rightarrow> u8 \<times> u8" where
  "to_le_bytes u = (of_nat (unat u mod 256), of_nat (unat u div 256))"

definition to_be_bytes :: "u16 \<Rightarrow> u8 \<times> u8" where
  "to_be_bytes u = (of_nat (unat u div 256), of_nat (unat u mod 256))"

lemma unat_halves:
  "unat (of_nat (unat (u :: u16) mod 256) :: u8) = unat u mod 256"
  "unat (of_nat (unat (u :: u16) div 256) :: u8) = unat u div 256"
proof -
  have "unat u < 2 ^ 16" using unsigned_less [of u, where 'a = nat] by simp
  then show "unat (of_nat (unat u mod 256) :: u8) = unat u mod 256"
    "unat (of_nat (unat u div 256) :: u8) = unat u div 256"
    by (intro unat_of_nat_fits; simp)+
qed

lemma halves_inverse:
  "from_le_bytes (fst (to_le_bytes u)) (snd (to_le_bytes u)) = u"
  "from_be_bytes (fst (to_be_bytes u)) (snd (to_be_bytes u)) = u"
proof -
  have "of_nat (unat u mod 256 + 256 * (unat u div 256)) = u"
    "of_nat (256 * (unat u div 256) + unat u mod 256) = u"
    by (simp_all only: mod_mult_div_eq mult_div_mod_eq) simp_all
  then show "from_le_bytes (fst (to_le_bytes u)) (snd (to_le_bytes u)) = u"
    "from_be_bytes (fst (to_be_bytes u)) (snd (to_be_bytes u)) = u"
    unfolding from_le_bytes_def to_le_bytes_def from_be_bytes_def to_be_bytes_def fst_conv snd_conv
      unat_halves by simp_all
qed

interpretation little: byte_order from_le_bytes to_le_bytes
  by unfold_locales (rule halves_inverse)

interpretation big: byte_order from_be_bytes to_be_bytes
  by unfold_locales (rule halves_inverse)

subsection \<open>Properties\<close>

text \<open>
  C39: A UTF-16 \<open>.env\<close> file is read as what it says. Whatever Unicode text was written to it, in either
  byte order with its mark, \<open>dotenvy\<close> is given that text in UTF-8. When the file is cut off inside a
  character (or one stray byte follows the text), it is given the characters before the cut, each
  unharmed, and one replacement character for every unit of the cut character that the file holds
  or begins: one for a cut inside the first unit, one for a cut between the units of a surrogate pair,
  two for a cut inside the second unit.
\<close>

theorem utf16_env_file_is_transcoded:
  assumes "find_dotenv is_file cwd = Some path" and "list_all is_scalar cs"
    and "read path = Some (mark @ encode_utf16 order cs @ rest)"
    and "(mark, order) \<in> {([0xFF, 0xFE], to_le_bytes), ([0xFE, 0xFF], to_be_bytes)}"
    and "length rest \<le> 1 \<or> (\<exists>c. is_scalar c \<and> strict_prefix rest (encode_utf16 order [c]))"
  shows "load_env is_file read cwd
       = FromText (concat (map utf8_char cs)
           @ concat (replicate ((length rest + 1) div 2) (utf8_char 0xFFFD)))"
proof -
  from assms(4) consider "mark = [0xFF, 0xFE]" "order = to_le_bytes" | "mark = [0xFE, 0xFF]" "order = to_be_bytes"
    by blast
  then show ?thesis
  proof cases
    case 1
    then show ?thesis
      using assms(1,3) little.decode_cut_off [OF assms(2) assms(5) [unfolded 1]] by (simp add: load_env_def)
  next
    case 2
    then show ?thesis
      using assms(1,3) big.decode_cut_off [OF assms(2) assms(5) [unfolded 2]] by (simp add: load_env_def)
  qed
qed

text \<open>The file \<open>FF FE 41 00 3D D8 00\<close>: the letter A and three of the four bytes of U+1F600.\<close>

lemma utf16_env_file_is_transcoded_witness:
  "load_env (\<lambda>p. p = [''.env'']) (\<lambda>p. Some [0xFF, 0xFE, 0x41, 0, 0x3D, 0xD8, 0x00]) (Some [''home''])
     = FromText (utf8_char 0x41 @ utf8_char 0xFFFD @ utf8_char 0xFFFD)"
proof -
  have units: "utf16_units 0x41 = [0x41]" "utf16_units 0x1F600 = [0xD83D, 0xDE00]"
    by (simp_all add: utf16_units_def)
  have "[0xFF, 0xFE, 0x41, 0, 0x3D, 0xD8, 0x00]
      = [0xFF, 0xFE] @ encode_utf16 to_le_bytes [0x41] @ [0x3D, 0xD8, 0x00]"
    by (simp add: encode_utf16_def unit_bytes_def units to_le_bytes_def)
  moreover have "is_scalar 0x1F600 \<and> strict_prefix [0x3D, 0xD8, 0x00] (encode_utf16 to_le_bytes [0x1F600])"
    by (simp add: encode_utf16_def unit_bytes_def units to_le_bytes_def is_scalar_def)
  then have "\<exists>c. is_scalar c \<and> strict_prefix [0x3D, 0xD8, 0x00] (encode_utf16 to_le_bytes [c])" by blast
  moreover have "find_dotenv (\<lambda>p. p = [''.env'']) (Some [''home'']) = Some [''.env'']"
    by (simp add: find_dotenv_def find_dotenv_from.simps)
  ultimately show ?thesis
    using utf16_env_file_is_transcoded [of "\<lambda>p. p = [''.env'']" "Some [''home'']" "[''.env'']"
        "[0x41]" "\<lambda>p. Some [0xFF, 0xFE, 0x41, 0, 0x3D, 0xD8, 0x00]"
        "[0xFF, 0xFE]" to_le_bytes "[0x3D, 0xD8, 0x00]"]
    by (simp add: is_scalar_def)
qed

text \<open>The file found is the one nearest to the directory, on the way up to the root.\<close>

lemma find_dotenv_nearest:
  "find_dotenv_from is_file dir =
     map_option (\<lambda>up. up @ [''.env'']) (find (\<lambda>up. is_file (up @ [''.env''])) (rev (prefixes dir)))"
  by (induction dir rule: rev_induct) (simp_all add: find_dotenv_from.simps prefixes_snoc)

end
