(* ===== verification/Mortal_Era.thy ===== *)
theory Mortal_Era
  imports Prelude
begin

text \<open>
  How long a signed transaction lives, and which block hash its signature commits to: the era
  arithmetic of the Substrate runtime, as \<open>src/src/substrate_client.rs\<close> states it (\<open>era_period_from_raw\<close>,
  \<open>era_phase\<close>, \<open>era_birth\<close>). The runtime derives the birth block of a transaction from the era in it
  and the head of the chain, and checks the signature against the hash of that block.
\<close>

text \<open>\<open>u64::checked_next_power_of_two\<close> of the standard library: the smallest power of two that is not
  smaller, unless it is too large for a \<open>u64\<close>.\<close>

definition checked_next_power_of_two :: "u64 \<Rightarrow> u64 option" where
  "checked_next_power_of_two n = map_option (\<lambda>k. 2 ^ k) (find (\<lambda>k. n \<le> 2 ^ k) [0..<64])"

definition era_period_from_raw :: "u64 \<Rightarrow> u64" where
  "era_period_from_raw raw =
     clamp (case checked_next_power_of_two raw of Some p \<Rightarrow> p | None \<Rightarrow> push_bit 16 1)
       4 (push_bit 16 1)"

definition era_phase :: "u64 \<Rightarrow> u64 \<Rightarrow> u64" where
  "era_phase period current =
     (let quantize_factor = max (drop_bit 12 period) 1
      in (current mod period) div quantize_factor * quantize_factor)"

definition era_birth :: "u64 \<Rightarrow> u64 \<Rightarrow> u64 \<Rightarrow> u64" where
  "era_birth period phase current = (max current phase - phase) div period * period + phase"

subsection \<open>The periods\<close>

text \<open>A period is a power of two from 4 to 65536.\<close>

lemma next_power:
  assumes "checked_next_power_of_two n = Some p"
  obtains k where "p = 2 ^ k" "k < 64" "n \<le> p"
  using assms by (auto simp: checked_next_power_of_two_def find_Some_iff)

lemma unat_two_power: "k < 64 \<Longrightarrow> unat (2 ^ k :: u64) = 2 ^ k"
  using unat_of_nat_fits [of "2 ^ k", where 'a = 64] power_strict_increasing [of k 64 "2 :: nat"]
  by simp

lemma era_period_power:
  obtains k where "2 \<le> k" "k \<le> 16" "unat (era_period_from_raw raw) = 2 ^ k"
proof (cases "checked_next_power_of_two raw")
  case None
  then show thesis
    using that [of 16] by (simp add: era_period_from_raw_def clamp_def push_bit_eq_mult)
next
  case (Some p)
  then obtain k where k: "p = 2 ^ k" "k < 64" by (rule next_power)
  then have p: "unat p = 2 ^ k" by (simp add: unat_two_power)
  consider "k < 2" | "2 \<le> k" "k \<le> 16" | "16 < k" by linarith
  then show thesis
  proof cases
    case 1
    then have "k = 0 \<or> k = 1" by auto
    then have "p < 4" using k(1) by auto
    then show thesis using that [of 2] Some by (simp add: era_period_from_raw_def clamp_def)
  next
    case 2
    then have "(2 :: nat) ^ 2 \<le> 2 ^ k" "(2 :: nat) ^ k \<le> 2 ^ 16"
      by (intro power_increasing; simp)+
    then have "\<not> p < 4" "\<not> push_bit 16 1 < p"
      using p by (simp_all add: word_less_nat_alt push_bit_eq_mult)
    then show thesis using that [of k] 2 Some p by (simp add: era_period_from_raw_def clamp_def)
  next
    case 3
    then have "(2 :: nat) ^ 16 < 2 ^ k" by (intro power_strict_increasing) auto
    then have "\<not> p < 4" "push_bit 16 1 < p"
      using p by (simp_all add: word_less_nat_alt push_bit_eq_mult)
    then show thesis
      using that [of 16] Some by (simp add: era_period_from_raw_def clamp_def push_bit_eq_mult)
  qed
qed

subsection \<open>The birth block\<close>

text \<open>The granularity of the phase: with a period of more than 4096 blocks, only every second, fourth,
  eighth or sixteenth block can be a birth block.\<close>

definition quantum :: "u64 \<Rightarrow> nat" where
  "quantum period = max (unat period div 4096) 1"

lemma unat_era_phase:
  "unat (era_phase period n) =
     unat n mod unat period div quantum period * quantum period"
proof -
  have q: "unat (max (drop_bit 12 period) 1) = quantum period"
    by (simp add: quantum_def max_def word_le_nat_alt unat_drop_bit_eq drop_bit_eq_div unat_div_distrib)
  have "unat n mod unat period div quantum period * quantum period \<le> unat n"
    by (meson div_times_less_eq_dividend le_trans mod_less_eq_dividend)
  also have "unat n < 2 ^ 64" using unsigned_less [of n] by simp
  finally have "unat (n mod period div max (drop_bit 12 period) 1) * quantum period < 2 ^ LENGTH(64)"
    by (simp add: unat_div_distrib unat_mod_distrib q)
  then show ?thesis
    unfolding era_phase_def Let_def
    by (subst unat_mult_fits) (simp_all add: q unat_div_distrib unat_mod_distrib)
qed

lemma unat_era_birth:
  "unat (era_birth period f m) =
     (max (unat m) (unat f) - unat f) div unat period * unat period + unat f"
proof -
  let ?d = "max (unat m) (unat f) - unat f"
  have sub: "unat (max m f - f) = ?d"
    by (simp add: max_def word_le_nat_alt unat_sub)
  have "?d div unat period * unat period \<le> ?d" by simp
  moreover have "?d + unat f < 2 ^ 64"
    using unsigned_less [of m] unsigned_less [of f] by (auto simp: max_def)
  ultimately have fits: "?d div unat period * unat period + unat f < 2 ^ 64"
    by linarith
  then have mult: "unat ((max m f - f) div period * period) = ?d div unat period * unat period"
    by (subst unat_mult_fits) (simp_all add: unat_div_distrib sub)
  show ?thesis
    unfolding era_birth_def using fits mult by (subst unat_add_fits) simp_all
qed

text \<open>For a head at or after the block the era was made for, the birth block is that block exactly when
  the period has not passed and the block is one the phase can name.\<close>

lemma anchor_arith:
  fixes n m P q :: nat
  assumes "0 < P" "q dvd P" "n \<le> m"
  defines "f \<equiv> n mod P div q * q"
  shows "(max m f - f) div P * P + f = n \<longleftrightarrow> q dvd n \<and> m < n + P"
    and "m < n - n mod q + P \<Longrightarrow> (max m f - f) div P * P + f = n - n mod q"
proof -
  define a where "a = n div P"
  have q: "0 < q" using assms(1,2) by (auto intro: Nat.gr0I)
  have f: "f = n mod P - n mod q"
    using mod_mod_cancel [OF assms(2), of n] by (simp add: f_def minus_mod_eq_div_mult [symmetric])
  have le: "n mod q \<le> n mod P"
    using mod_mod_cancel [OF assms(2), of n] mod_less_eq_dividend [of "n mod P" q] by simp
  have n: "n = a * P + n mod P" by (simp add: a_def)
  have fP: "f < P" using assms(1) f by (simp add: less_imp_diff_less)
  have base: "n - n mod q = a * P + f" using n le f by linarith
  have mf: "f \<le> m" using base assms(3) by linarith
  have at: "(m - f) div P * P + f = a * P + f \<longleftrightarrow> m < a * P + f + P"
  proof -
    have "a * P \<le> m - f" using base assms(3) by linarith
    then have "(m - f) div P = a \<longleftrightarrow> m - f < (a + 1) * P"
      using assms(1) by (metis Suc_eq_plus1 div_nat_eqI dividend_less_times_div mult.commute mult_Suc_right add.commute)
    then show ?thesis using assms(1) mf by auto
  qed
  show "(max m f - f) div P * P + f = n \<longleftrightarrow> q dvd n \<and> m < n + P"
  proof (cases "q dvd n")
    case True
    then have "a * P + f = n" using base by simp
    then show ?thesis using at mf True by (simp add: max_def)
  next
    case False
    then have "f \<noteq> n mod P" using f le by (auto simp: dvd_eq_mod_eq_0)
    moreover have "(x * P + f) mod P = f" for x using fP by simp
    ultimately show ?thesis using False by metis
  qed
  show "(max m f - f) div P * P + f = n - n mod q" if "m < n - n mod q + P"
    using that base mf at by (simp add: max_def)
qed

lemma quantum_divides:
  "0 < quantum (era_period_from_raw raw)" "quantum (era_period_from_raw raw) dvd unat (era_period_from_raw raw)"
proof -
  obtain k where k: "2 \<le> k" "k \<le> 16" "unat (era_period_from_raw raw) = 2 ^ k"
    by (rule era_period_power)
  have "quantum (era_period_from_raw raw) dvd 2 ^ k"
  proof (cases "k \<le> 12")
    case True
    then have "(2 :: nat) ^ k \<le> 2 ^ 12" by (intro power_increasing; simp)
    then have "(2 :: nat) ^ k div 4096 \<le> 1" by simp
    then show ?thesis using k(3) by (simp add: quantum_def max_def)
  next
    case False
    then have "(2 :: nat) ^ k = 2 ^ (k - 12) * 4096"
      using power_add [of "2 :: nat" "k - 12" 12] by simp
    then have "(2 :: nat) ^ k div 4096 = 2 ^ (k - 12)" by simp
    then show ?thesis
      using k(3) by (simp add: quantum_def max_def le_imp_power_dvd)
  qed
  then show "quantum (era_period_from_raw raw) dvd unat (era_period_from_raw raw)" using k(3) by simp
  show "0 < quantum (era_period_from_raw raw)" by (simp add: quantum_def)
qed

text \<open>The block the runtime derives, for the era of a raw period \<open>raw\<close> made at block \<open>n\<close> and a head
  \<open>m\<close>. The second fact says which block it is when the phase cannot name \<open>n\<close>.\<close>

definition runtime_birth :: "u64 \<Rightarrow> u64 \<Rightarrow> u64 \<Rightarrow> u64" where
  "runtime_birth raw n head =
     (let period = era_period_from_raw raw in era_birth period (era_phase period n) head)"

lemma runtime_birth_anchor:
  assumes "n \<le> head"
  shows "runtime_birth raw n head = n \<longleftrightarrow>
       quantum (era_period_from_raw raw) dvd unat n
       \<and> unat head < unat n + unat (era_period_from_raw raw)"
    and "unat head < unat n - unat n mod quantum (era_period_from_raw raw) + unat (era_period_from_raw raw)
       \<Longrightarrow> unat (runtime_birth raw n head) = unat n - unat n mod quantum (era_period_from_raw raw)"
proof -
  have P: "0 < unat (era_period_from_raw raw)" using era_period_power [of raw] by (metis zero_less_numeral zero_less_power)
  have le: "unat n \<le> unat head" using assms by (simp add: word_le_nat_alt)
  have birth: "unat (runtime_birth raw n head) =
      (max (unat head) (unat n mod unat (era_period_from_raw raw) div quantum (era_period_from_raw raw)
                          * quantum (era_period_from_raw raw))
        - unat n mod unat (era_period_from_raw raw) div quantum (era_period_from_raw raw)
            * quantum (era_period_from_raw raw)) div unat (era_period_from_raw raw)
        * unat (era_period_from_raw raw)
      + unat n mod unat (era_period_from_raw raw) div quantum (era_period_from_raw raw)
          * quantum (era_period_from_raw raw)"
    by (simp add: runtime_birth_def unat_era_birth unat_era_phase Let_def)
  note A = anchor_arith [OF P quantum_divides(2) le]
  show "runtime_birth raw n head = n \<longleftrightarrow>
       quantum (era_period_from_raw raw) dvd unat n
       \<and> unat head < unat n + unat (era_period_from_raw raw)"
    unfolding word_unat_eq_iff birth by (rule A(1))
  show "unat (runtime_birth raw n head) = unat n - unat n mod quantum (era_period_from_raw raw)"
    if "unat head < unat n - unat n mod quantum (era_period_from_raw raw) + unat (era_period_from_raw raw)"
    unfolding birth using that by (rule A(2))
qed

end
