(* ===== verification/Extrinsic_Check.thy ===== *)
theory Extrinsic_Check
  imports Signed_Extrinsics Mortal_Era
begin

text \<open>
  How a chain checks a signed extrinsic: the reference verifier of the tests in
  \<open>src/src/substrate_client.rs\<close>. It takes the bytes apart (\<open>decode_v4_envelope\<close>, \<open>split_extra\<close>), derives
  the birth block of the era, builds the payload again and checks the signature over it. A panic of
  the tests (an assertion, an index out of range) is \<open>Panic\<close>. The crates (SCALE encoding, Blake2,
  sr25519) are the record \<open>scale_lib\<close>; \<open>documented_scale\<close> and \<open>signs_extrinsics\<close> state what is documented
  of them and of the signing of \<open>subxt\<close>. What the daemon signs is accepted for 64 blocks; what it
  signs to abandon a transaction is anchored to a block the chain does not look at, unless the
  number of the block is a multiple of four.
\<close>

record scale_lib =
  compact_u64_decode :: "bytes \<Rightarrow> (nat \<times> bytes) result"
  compact_u128_decode :: "bytes \<Rightarrow> (nat \<times> bytes) result"
  compact_encode :: "nat \<Rightarrow> bytes"
  mortal_era :: "u64 \<Rightarrow> u64 \<Rightarrow> bytes"
  blake2_256 :: "bytes \<Rightarrow> bytes"
  sr25519_verify :: "bytes \<Rightarrow> bytes \<Rightarrow> public_key \<Rightarrow> bool"

subsection \<open>Slices\<close>

definition split_at_exec :: "nat \<Rightarrow> bytes \<Rightarrow> (bytes \<times> bytes) exec" where
  "split_at_exec n s = (if length s < n then Panic else Return (take n s, drop n s))"

lemma split_at_append [simp]: "length xs = n \<Longrightarrow> split_at_exec n (xs @ ys) = Return (xs, ys)"
  by (simp add: split_at_exec_def)

lemma split_at_Cons [simp]:
  "split_at_exec 1 (x # ys) = Return ([x], ys)" "split_at_exec 2 (x # y # ys) = Return ([x, y], ys)"
  "split_at_exec (Suc 0) (x # ys) = Return ([x], ys)"
  by (simp_all add: split_at_exec_def numeral_2_eq_2)

subsection \<open>The verifier\<close>

record test_mortality =
  for_n_blocks :: u64
  from_block_n :: u64
  from_block_hash :: h256

record test_params =
  tp_nonce :: u64
  tp_tip :: u128
  tp_mortality :: test_mortality

definition decode_v4_envelope :: "scale_lib \<Rightarrow> bytes \<Rightarrow> (bytes \<times> bytes \<times> public_key) exec" where
  "decode_v4_envelope S extrinsic =
     exec_bind (expect (compact_u64_decode S extrinsic)) (\<lambda>(len, s).
     exec_bind (ensure (len = length s)) (\<lambda>_.
     exec_bind (split_at_exec 1 s) (\<lambda>(version, s).
     exec_bind (ensure (version = [0x84])) (\<lambda>_.
     exec_bind (split_at_exec 1 s) (\<lambda>(address, s).
     exec_bind (ensure (address = [0x00])) (\<lambda>_.
     exec_bind (split_at_exec 32 s) (\<lambda>(pubkey, s).
     exec_bind (split_at_exec 1 s) (\<lambda>(scheme, s).
     exec_bind (ensure (scheme = [0x01])) (\<lambda>_.
     exec_bind (split_at_exec 64 s) (\<lambda>(signature, s).
     Return (s, signature, pubkey)))))))))))"

definition split_extra :: "scale_lib \<Rightarrow> bytes \<Rightarrow> (bytes \<times> bytes) exec" where
  "split_extra S tail =
     exec_bind (split_at_exec 1 tail) (\<lambda>(first, _).
     exec_bind (split_at_exec (if first = [0] then 1 else 2) tail) (\<lambda>(era, p).
     exec_bind (split_at_exec 1 p) (\<lambda>(mode, p).
     exec_bind (expect (compact_u64_decode S p)) (\<lambda>(nonce, p).
     exec_bind (expect (compact_u128_decode S p)) (\<lambda>(tip, p).
     (let consumed = length tail - length p in Return (take consumed tail, p)))))))"

definition expected_extra :: "scale_lib \<Rightarrow> test_params \<Rightarrow> bytes" where
  "expected_extra S params =
     mortal_era S (for_n_blocks (tp_mortality params)) (from_block_n (tp_mortality params))
       @ [0] @ compact_encode S (unat (tp_nonce params)) @ compact_encode S (unat (tp_tip params))"

definition implicit_data :: "u32 \<times> u32 \<Rightarrow> h256 \<Rightarrow> h256 \<Rightarrow> bytes" where
  "implicit_data = (\<lambda>(spec_version, tx_version) genesis era_block_hash.
     u32_to_le_bytes spec_version @ u32_to_le_bytes tx_version @ genesis @ era_block_hash @ [0])"

definition signing_message :: "scale_lib \<Rightarrow> bytes \<Rightarrow> bytes" where
  "signing_message S to_sign = (if 256 < length to_sign then blake2_256 S to_sign else to_sign)"

text \<open>The check of a runtime of these versions, on the chain with this genesis hash and these block
  hashes, when \<open>head\<close> is its best block.\<close>

definition verify_at ::
    "scale_lib \<Rightarrow> u32 \<times> u32 \<Rightarrow> h256 \<Rightarrow> (u64 \<Rightarrow> h256) \<Rightarrow> u64 \<Rightarrow> bytes \<Rightarrow> public_key \<Rightarrow> test_params
     \<Rightarrow> bool exec" where
  "verify_at S versions genesis block_hash head extrinsic public_key params =
     exec_bind (decode_v4_envelope S extrinsic) (\<lambda>(tail, signature, address_pk).
     exec_bind (ensure (address_pk = public_key)) (\<lambda>_.
     exec_bind (split_extra S tail) (\<lambda>(extra, call).
     exec_bind (ensure (extra = expected_extra S params)) (\<lambda>_.
     (let birth = runtime_birth (for_n_blocks (tp_mortality params))
                    (from_block_n (tp_mortality params)) head;
          implicit = implicit_data versions genesis (block_hash birth);
          to_sign = call @ extra @ implicit
      in Return (sr25519_verify S signature (signing_message S to_sign) public_key))))))"

subsection \<open>What the crates document\<close>

definition documented_scale :: "scale_lib \<Rightarrow> bool" where
  "documented_scale S \<longleftrightarrow>
     (\<forall>n rest. n < 2 ^ 64 \<longrightarrow> compact_u64_decode S (compact_encode S n @ rest) = Inr (n, rest))
     \<and> (\<forall>n rest. n < 2 ^ 128 \<longrightarrow> compact_u128_decode S (compact_encode S n @ rest) = Inr (n, rest))
     \<and> (\<forall>raw n. \<exists>a b. mortal_era S raw n = [a, b] \<and> a \<noteq> 0)"

text \<open>What a client of \<open>subxt\<close> at a block knows: the versions and the genesis hash of its chain, and how
  the chain encodes a call.\<close>

record 'cab client_view =
  cv_versions :: "'cab \<Rightarrow> u32 \<times> u32"
  cv_genesis :: "'cab \<Rightarrow> h256"
  cv_call :: "'cab \<Rightarrow> raw_payload \<Rightarrow> bytes"

definition extra_of :: "scale_lib \<Rightarrow> tx_params \<Rightarrow> bytes" where
  "extra_of S params =
     mortal_era S (tx_mortality params) (tx_from_block params) @ [0]
       @ compact_encode S (unat (tx_nonce params)) @ compact_encode S (unat (tx_tip params))"

definition payload_with ::
    "scale_lib \<Rightarrow> 'cab client_view \<Rightarrow> 'cab \<Rightarrow> raw_payload \<Rightarrow> tx_params \<Rightarrow> h256 \<Rightarrow> bytes" where
  "payload_with S V cab raw params era_hash =
     cv_call V cab raw @ extra_of S params @ implicit_data (cv_versions V cab) (cv_genesis V cab) era_hash"

definition envelope :: "scale_lib \<Rightarrow> public_key \<Rightarrow> bytes \<Rightarrow> bytes \<Rightarrow> bytes" where
  "envelope S public_key signature tail =
     (let body = [0x84, 0x00] @ public_key @ [0x01] @ signature @ tail
      in compact_encode S (length body) @ body)"

text \<open>A signed extrinsic holds a signature over the call, the extra data and the implicit data, with the
  block hash of the parameters in it; a client at a block is one of the chain it was configured for.\<close>

definition signs_extrinsics ::
    "scale_lib \<Rightarrow> 'cab client_view \<Rightarrow> ('meta, 'cab, 'tx, 'kp) chain_lib \<Rightarrow> bool" where
  "signs_extrinsics S V lib \<longleftrightarrow>
     (\<forall>cab signer raw params extrinsic. sign_payload lib cab signer raw params = Some extrinsic \<longrightarrow>
        (\<exists>signature. length signature = 64 \<and> length (public_key_of lib signer) = 32
           \<and> extrinsic = envelope S (public_key_of lib signer) signature
                        (extra_of S params @ cv_call V cab raw)
           \<and> length extrinsic < 2 ^ 64
           \<and> sr25519_verify S signature
               (signing_message S (payload_with S V cab raw params (tx_from_block_hash params)))
               (public_key_of lib signer)))
     \<and> (\<forall>client n cab. at_block lib client n = Inr cab \<longrightarrow>
          genesis_hash client = Some (cv_genesis V cab))"

subsection \<open>Checking what was signed\<close>

definition subxt_params :: "test_params \<Rightarrow> tx_params" where
  "subxt_params params =
     \<lparr>tx_nonce = tp_nonce params, tx_tip = tp_tip params,
      tx_mortality = for_n_blocks (tp_mortality params),
      tx_from_block = from_block_n (tp_mortality params),
      tx_from_block_hash = from_block_hash (tp_mortality params)\<rparr>"

lemma extra_of_subxt: "extra_of S (subxt_params params) = expected_extra S params"
  by (simp add: extra_of_def subxt_params_def expected_extra_def)

lemma documented_scaleD:
  assumes "documented_scale S"
  shows "n < 2 ^ 64 \<Longrightarrow> compact_u64_decode S (compact_encode S n @ rest) = Inr (n, rest)"
    and "n < 2 ^ 128 \<Longrightarrow> compact_u128_decode S (compact_encode S n @ rest) = Inr (n, rest)"
    and "\<exists>a b. mortal_era S raw k = [a, b] \<and> a \<noteq> 0"
  using assms unfolding documented_scale_def by blast+

lemma split_expected_extra:
  assumes "documented_scale S"
  shows "split_extra S (expected_extra S params @ call) = Return (expected_extra S params, call)"
proof -
  let ?m = "tp_mortality params"
  obtain a b where era: "mortal_era S (for_n_blocks ?m) (from_block_n ?m) = [a, b]" "a \<noteq> 0"
    using documented_scaleD(3) [OF assms] by blast
  have "unat (tp_nonce params) < 2 ^ 64" "unat (tp_tip params) < 2 ^ 128"
    using unsigned_less [of "tp_nonce params"] unsigned_less [of "tp_tip params"] by simp_all
  note compact = documented_scaleD(1) [OF assms this(1)] documented_scaleD(2) [OF assms this(2)]
  show ?thesis
    using era(2) by (simp add: split_extra_def expected_extra_def era(1) compact Let_def numeral_3_eq_3)
qed

lemma decode_envelope:
  assumes "documented_scale S" and "length public_key = 32" "length signature = 64"
    and "length (envelope S public_key signature tail) < 2 ^ 64"
  shows "decode_v4_envelope S (envelope S public_key signature tail) = Return (tail, signature, public_key)"
proof -
  let ?body = "[0x84, 0x00] @ public_key @ [0x01] @ signature @ tail"
  have "length ?body < 2 ^ 64" using assms(4) by (simp add: envelope_def Let_def)
  from documented_scaleD(1) [OF assms(1) this, of ?body] show ?thesis
    using assms(2,3) by (simp add: decode_v4_envelope_def envelope_def Let_def)
qed

text \<open>The verdict on an extrinsic is that on its signature, for the payload built with the hash of the
  birth block.\<close>

lemma verify_envelope:
  assumes "documented_scale S" and "length public_key = 32" "length signature = 64"
    and "length (envelope S public_key signature (expected_extra S params @ call)) < 2 ^ 64"
  shows "verify_at S versions genesis block_hash head
           (envelope S public_key signature (expected_extra S params @ call)) public_key params
       = Return (sr25519_verify S signature
           (signing_message S (call @ expected_extra S params
              @ implicit_data versions genesis (block_hash (runtime_birth
                  (for_n_blocks (tp_mortality params)) (from_block_n (tp_mortality params)) head))))
           public_key)"
  by (simp add: verify_at_def decode_envelope [OF assms] split_expected_extra [OF assms(1)] Let_def)

lemma verify_signed_payload:
  assumes "documented_scale S" and "signs_extrinsics S V lib"
    and "sign_payload lib cab signer raw (subxt_params params) = Some extrinsic"
  obtains signature where
    "sr25519_verify S signature (signing_message S
       (payload_with S V cab raw (subxt_params params) (from_block_hash (tp_mortality params))))
       (public_key_of lib signer)"
    "\<And>versions genesis block_hash head.
       verify_at S versions genesis block_hash head extrinsic (public_key_of lib signer) params
       = Return (sr25519_verify S signature (signing_message S
           (cv_call V cab raw @ expected_extra S params
              @ implicit_data versions genesis (block_hash (runtime_birth
                  (for_n_blocks (tp_mortality params)) (from_block_n (tp_mortality params)) head))))
           (public_key_of lib signer))"
proof -
  from assms(2,3) obtain signature where sig:
    "length signature = 64" "length (public_key_of lib signer) = 32"
    "extrinsic = envelope S (public_key_of lib signer) signature
       (expected_extra S params @ cv_call V cab raw)" "length extrinsic < 2 ^ 64"
    "sr25519_verify S signature (signing_message S
       (payload_with S V cab raw (subxt_params params) (from_block_hash (tp_mortality params))))
       (public_key_of lib signer)"
    unfolding signs_extrinsics_def
    by (metis (no_types, lifting) extra_of_subxt subxt_params_def tx_params.select_convs(5))
  show thesis
    by (rule that [OF sig(5)]) (simp only: sig(3) verify_envelope [OF assms(1) sig(2,1) sig(4) [unfolded sig(3)]])
qed

text \<open>The parameters of the daemon's extrinsics.\<close>

definition daemon_params :: "u64 \<Rightarrow> u64 \<Rightarrow> u32 \<Rightarrow> h256 \<Rightarrow> test_params" where
  "daemon_params nonce mortality block_number block_hash =
     \<lparr>tp_nonce = nonce, tp_tip = 0,
      tp_mortality = \<lparr>for_n_blocks = mortality, from_block_n = ucast block_number,
                      from_block_hash = block_hash\<rparr>\<rparr>"

lemma subxt_daemon_params: "subxt_params (daemon_params n m b h) = mortal_params n m b h"
  by (simp add: subxt_params_def daemon_params_def mortal_params_def)

lemma daemon_params_simps [simp]:
  "for_n_blocks (tp_mortality (daemon_params n m b h)) = m"
  "from_block_n (tp_mortality (daemon_params n m b h)) = ucast b"
  "from_block_hash (tp_mortality (daemon_params n m b h)) = h"
  by (simp_all add: daemon_params_def)

lemma unat_ucast_block: "unat (ucast (b :: u32) :: u64) = unat b"
proof -
  have "unat b < 2 ^ 32" using unsigned_less [of b] by simp
  then show ?thesis by (simp add: unsigned_ucast_eq take_bit_nat_eq_self)
qed

text \<open>The two mortalities: 64 blocks from any block, and 16384 blocks with a quantum of four.\<close>

lemma transaction_period: "unat (era_period_from_raw TX_MORTALITY) = 64" "quantum (era_period_from_raw TX_MORTALITY) = 1"
proof -
  have "era_period_from_raw TX_MORTALITY = 64" by code_simp
  then show "unat (era_period_from_raw TX_MORTALITY) = 64" "quantum (era_period_from_raw TX_MORTALITY) = 1"
    by (simp_all add: quantum_def)
qed

lemma abandon_period:
  "unat (era_period_from_raw DUMMY_TX_MORTALITY) = 16384" "quantum (era_period_from_raw DUMMY_TX_MORTALITY) = 4"
proof -
  have "era_period_from_raw DUMMY_TX_MORTALITY = 16384" by code_simp
  then show "unat (era_period_from_raw DUMMY_TX_MORTALITY) = 16384"
    "quantum (era_period_from_raw DUMMY_TX_MORTALITY) = 4"
    by (simp_all add: quantum_def)
qed

lemma transaction_birth:
  assumes "ucast b \<le> head" and "unat head < unat (b :: u32) + 64"
  shows "runtime_birth TX_MORTALITY (ucast b) head = ucast b"
  using runtime_birth_anchor(1) [OF assms(1), of TX_MORTALITY] assms(2)
  by (simp add: transaction_period unat_ucast_block)

lemma abandon_birth:
  assumes "ucast b \<le> head" and "unat head < unat (b :: u32) - unat b mod 4 + 16384"
  shows "runtime_birth DUMMY_TX_MORTALITY (ucast b) head = ucast (b - b mod 4)"
proof -
  have "unat (b - b mod 4) = unat b - unat b mod 4"
    by (simp add: unat_sub unat_mod_distrib word_le_nat_alt)
  then show ?thesis
    using runtime_birth_anchor(2) [OF assms(1), of DUMMY_TX_MORTALITY] assms(2)
    by (simp add: word_unat_eq_iff abandon_period unat_ucast_block)
qed

lemma built_extrinsics:
  assumes scale: "documented_scale S" and signs: "signs_extrinsics S V lib"
    and client: "genesis_hash client = Some genesis" "at_block lib client k = Inr cab"
    and built: "build_input lib keypair cab block_number block_hash signer nonce request
      = Return (Some input)"
  obtains extrinsic abandon where
    "signed_extrinsic input = ''0x'' @ hex_encode lib extrinsic"
    "signed_abandon_extrinsic input = ''0x'' @ hex_encode lib abandon"
    "\<exists>raw. sign_payload lib cab signer raw
       (subxt_params (daemon_params nonce TX_MORTALITY block_number block_hash)) = Some extrinsic"
    "sign_payload lib cab signer dummy_payload
       (subxt_params (daemon_params nonce DUMMY_TX_MORTALITY block_number block_hash)) = Some abandon"
    "cv_genesis V cab = genesis"
proof -
  have "cv_genesis V cab = genesis"
    using signs client by (auto simp: signs_extrinsics_def)
  moreover obtain final raw extrinsic abandon where
    "sign_payload lib cab signer raw (mortal_params nonce TX_MORTALITY block_number block_hash) = Some extrinsic"
    "sign_payload lib cab signer dummy_payload (mortal_params nonce DUMMY_TX_MORTALITY block_number block_hash)
       = Some abandon"
    "input = \<lparr>uuid = request_id request, signed_extrinsic = ''0x'' @ hex_encode lib extrinsic,
              signed_abandon_extrinsic = ''0x'' @ hex_encode lib abandon\<rparr>"
    by (rule build_inputE [OF built])
  ultimately show thesis
    by (intro that [of extrinsic abandon]) (auto simp: subxt_daemon_params)
qed

text \<open>
  C5: What the daemon signs for a transaction, the chain accepts: the extrinsic built at a block of a
  client's chain passes the check of a runtime of that chain, of the versions the client knows, whatever
  its best block is, from the block it was built at for 64 blocks, if the block hash the platform
  reported is the one the chain has for that block.
\<close>

theorem signed_transaction_verifies:
  assumes scale: "documented_scale S" and signs: "signs_extrinsics S V lib"
    and client: "genesis_hash client = Some genesis" "at_block lib client (ucast block_number) = Inr cab"
    and built: "build_input lib keypair cab block_number (chain_hash (ucast block_number)) signer nonce
      request = Return (Some input)"
    and head: "ucast block_number \<le> head" "unat head < unat block_number + 64"
  shows "\<exists>extrinsic. signed_extrinsic input = ''0x'' @ hex_encode lib extrinsic
       \<and> verify_at S (cv_versions V cab) genesis chain_hash head extrinsic (public_key_of lib signer)
           (daemon_params nonce TX_MORTALITY block_number (chain_hash (ucast block_number)))
         = Return True"
proof -
  let ?params = "daemon_params nonce TX_MORTALITY block_number (chain_hash (ucast block_number))"
  obtain extrinsic raw where ext: "signed_extrinsic input = ''0x'' @ hex_encode lib extrinsic"
    "sign_payload lib cab signer raw (subxt_params ?params) = Some extrinsic" "cv_genesis V cab = genesis"
    by (rule built_extrinsics [OF scale signs client built]) blast
  obtain signature where
    "sr25519_verify S signature (signing_message S
       (payload_with S V cab raw (subxt_params ?params) (chain_hash (ucast block_number))))
       (public_key_of lib signer)"
    "\<And>versions genesis block_hash head.
       verify_at S versions genesis block_hash head extrinsic (public_key_of lib signer) ?params
       = Return (sr25519_verify S signature (signing_message S
           (cv_call V cab raw @ expected_extra S ?params
              @ implicit_data versions genesis (block_hash (runtime_birth TX_MORTALITY (ucast block_number) head))))
           (public_key_of lib signer))"
    using verify_signed_payload [OF scale signs ext(2)] by auto
  then show ?thesis
    using ext(1,3) transaction_birth [OF head]
    by (intro exI [of _ extrinsic]) (simp add: payload_with_def extra_of_subxt)
qed

text \<open>
  C6: The extrinsic that abandons a transaction is anchored to a block the chain does not look at. Its
  era spans 16384 blocks, and such an era can only name every fourth block as the birth block: the
  signature is over the hash of the block it was built at, and the runtime checks it for the hash of
  that block rounded down to a multiple of four. The two payloads agree only if the number of the
  block is a multiple of four.
\<close>

theorem abandon_extrinsic_anchor:
  assumes scale: "documented_scale S" and signs: "signs_extrinsics S V lib"
    and client: "genesis_hash client = Some genesis" "at_block lib client (ucast block_number) = Inr cab"
    and built: "build_input lib keypair cab block_number (chain_hash (ucast block_number)) signer nonce
      request = Return (Some input)"
    and hashes: "\<And>n. chain_hash n = chain_hash (ucast block_number) \<Longrightarrow> n = ucast block_number"
    and head: "ucast block_number \<le> head" "unat head < unat block_number - unat block_number mod 4 + 16384"
  shows "\<exists>extrinsic signature.
       let params = daemon_params nonce DUMMY_TX_MORTALITY block_number (chain_hash (ucast block_number));
           payload = payload_with S V cab dummy_payload (subxt_params params);
           birth = ucast (block_number - block_number mod 4)
       in signed_abandon_extrinsic input = ''0x'' @ hex_encode lib extrinsic
        \<and> sr25519_verify S signature (signing_message S (payload (chain_hash (ucast block_number))))
            (public_key_of lib signer)
        \<and> verify_at S (cv_versions V cab) genesis chain_hash head extrinsic (public_key_of lib signer) params
          = Return (sr25519_verify S signature (signing_message S (payload (chain_hash birth)))
              (public_key_of lib signer))
        \<and> (payload (chain_hash birth) = payload (chain_hash (ucast block_number)) \<longleftrightarrow> block_number mod 4 = 0)"
proof -
  let ?params = "daemon_params nonce DUMMY_TX_MORTALITY block_number (chain_hash (ucast block_number))"
  let ?birth = "ucast (block_number - block_number mod 4) :: u64"
  obtain extrinsic where ext: "signed_abandon_extrinsic input = ''0x'' @ hex_encode lib extrinsic"
    "sign_payload lib cab signer dummy_payload (subxt_params ?params) = Some extrinsic"
    "cv_genesis V cab = genesis"
    by (rule built_extrinsics [OF scale signs client built]) blast
  obtain signature where sig:
    "sr25519_verify S signature (signing_message S
       (payload_with S V cab dummy_payload (subxt_params ?params) (chain_hash (ucast block_number))))
       (public_key_of lib signer)"
    "\<And>versions genesis block_hash head.
       verify_at S versions genesis block_hash head extrinsic (public_key_of lib signer) ?params
       = Return (sr25519_verify S signature (signing_message S
           (cv_call V cab dummy_payload @ expected_extra S ?params
              @ implicit_data versions genesis
                  (block_hash (runtime_birth DUMMY_TX_MORTALITY (ucast block_number) head))))
           (public_key_of lib signer))"
    using verify_signed_payload [OF scale signs ext(2)] by auto
  have "?birth = ucast block_number \<longleftrightarrow> block_number mod 4 = 0"
  proof -
    have "unat (block_number - block_number mod 4) = unat block_number - unat block_number mod 4"
      "unat block_number mod 4 \<le> unat block_number"
      by (simp_all add: unat_sub unat_mod_distrib word_le_nat_alt)
    then show ?thesis
      by (auto simp: word_unat_eq_iff unat_ucast_block unat_mod_distrib)
  qed
  then have "chain_hash ?birth = chain_hash (ucast block_number) \<longleftrightarrow> block_number mod 4 = 0"
    using hashes by metis
  then have "payload_with S V cab dummy_payload (subxt_params ?params) (chain_hash ?birth)
      = payload_with S V cab dummy_payload (subxt_params ?params) (chain_hash (ucast block_number))
      \<longleftrightarrow> block_number mod 4 = 0"
    by (simp add: payload_with_def implicit_data_def split: prod.splits)
  with ext sig abandon_birth [OF head] show ?thesis
    unfolding Let_def by (intro exI [of _ extrinsic] exI [of _ signature])
      (simp add: payload_with_def extra_of_subxt)
qed

subsection \<open>One concrete choice\<close>

text \<open>A number is written in unary, a hash is the first 32 bytes, and the signature of a message by the
  sample's one-byte key is its 63 copies of the key and a sum over the message.\<close>

definition unary_decode :: "bytes \<Rightarrow> (nat \<times> bytes) result" where
  "unary_decode s =
     (case dropWhile (\<lambda>b. b = 1) s of
        [] \<Rightarrow> Inl ''no end'' | _ # rest \<Rightarrow> Inr (length (takeWhile (\<lambda>b. b = 1) s), rest))"

definition check_lib :: scale_lib where
  "check_lib =
     \<lparr>compact_u64_decode = unary_decode, compact_u128_decode = unary_decode,
      compact_encode = (\<lambda>n. replicate n 1 @ [0]),
      mortal_era = (\<lambda>raw n. [1, ucast raw]),
      blake2_256 = take 32,
      sr25519_verify = (\<lambda>signature m pk. signature = replicate 63 (hd pk) @ [sum_list m])\<rparr>"

definition check_view :: "h256 client_view" where
  "check_view = \<lparr>cv_versions = (\<lambda>_. (1031, 12)), cv_genesis = (\<lambda>g. g),
                 cv_call = (\<lambda>_ raw. [0, 0] @ field_bytes raw)\<rparr>"

definition check_chain_lib :: "(bytes, h256, h256 \<times> raw_payload \<times> tx_params, u8) chain_lib" where
  "check_chain_lib =
     \<lparr>hex_encode = hex_encode sample_lib, hex_decode = hex_decode sample_lib,
      h256_from_slice = h256_from_slice sample_lib, decode_option_bytes = decode_option_bytes sample_lib,
      decode_metadata = decode_metadata sample_lib,
      at_block = (\<lambda>c n. Inr (enjin_genesis c)), metadata_ref = (\<lambda>_. []),
      call_info_by_index = call_info_by_index sample_lib,
      create_signable_offline = (\<lambda>g raw params. Inr (g, raw, params)),
      sign_extrinsic = (\<lambda>(g, raw, params) kp.
        (let extra = extra_of check_lib params;
             payload = payload_with check_lib check_view g raw params (tx_from_block_hash params);
             extrinsic = envelope check_lib (replicate 32 kp)
               (replicate 63 kp @ [sum_list (signing_message check_lib payload)])
               (extra @ cv_call check_view g raw)
         in if length extrinsic < 512 then Inr extrinsic else Inl ''too long'')),
      public_key_of = (\<lambda>kp. replicate 32 kp), sign_message = sign_message sample_lib,
      derive_soft = derive_soft sample_lib, walk_value = walk_value sample_lib,
      decode_value = decode_value sample_lib, encode_value = encode_value sample_lib,
      value_from_bytes = value_from_bytes sample_lib\<rparr>"

lemma unary_roundtrip: "unary_decode (replicate n 1 @ 0 # rest) = Inr (n, rest)"
proof -
  have "dropWhile (\<lambda>b. b = 1) (replicate n (1 :: u8) @ 0 # rest) = 0 # rest"
    "takeWhile (\<lambda>b. b = 1) (replicate n (1 :: u8) @ 0 # rest) = replicate n 1"
    by (induction n) simp_all
  then show ?thesis by (simp add: unary_decode_def)
qed

lemma check_lib_documented: "documented_scale check_lib"
  by (simp add: documented_scale_def check_lib_def unary_roundtrip)

lemma check_chain_lib_signs: "signs_extrinsics check_lib check_view check_chain_lib"
proof -
  have hd: "hd (replicate 32 kp) = kp" for kp :: u8 by (simp add: numeral_eq_Suc)
  have verify: "sr25519_verify check_lib (replicate 63 kp @ [sum_list m]) m (replicate 32 kp)" for kp m
    by (simp add: check_lib_def hd)
  show ?thesis
    unfolding signs_extrinsics_def
    by (auto simp: sign_payload_def check_chain_lib_def Let_def genesis_hash_def
        check_view_def verify intro!: exI [of _ "replicate 63 _ @ [_]"] split: if_splits)
qed

text \<open>An empty remark, built at block 1001 of Canary Matrix; only that block has the hash of ones.\<close>

definition sample_hash :: "u64 \<Rightarrow> h256" where
  "sample_hash n = replicate 32 (if n = 1001 then 1 else 0)"

lemma sample_hash_distinct: "sample_hash n = sample_hash (ucast (1001 :: u32)) \<Longrightarrow> n = ucast (1001 :: u32)"
  by (simp add: sample_hash_def split: if_splits)

lemma sample_built:
  obtains input where
    "build_input check_chain_lib 3 (get_genesis_hash Canary Matrix) 1001 (sample_hash (ucast (1001 :: u32))) 3 7
       (sample_request ''a'' None [0, 0, 4] None) = Return (Some input)"
proof -
  have "case build_input check_chain_lib 3 (get_genesis_hash Canary Matrix) 1001
      (sample_hash (ucast (1001 :: u32))) 3 7 (sample_request ''a'' None [0, 0, 4] None) of
      Return (Some input) \<Rightarrow> True | _ \<Rightarrow> False"
    by code_simp
  then show thesis using that by (auto split: exec.splits option.splits)
qed

lemma sample_client:
  "genesis_hash (chain_config 1031 12 [] (get_genesis_hash Canary Matrix) :: bytes enjin_config)
     = Some (get_genesis_hash Canary Matrix)"
  "at_block check_chain_lib (chain_config 1031 12 [] (get_genesis_hash Canary Matrix)) n
     = Inr (get_genesis_hash Canary Matrix)"
  by (simp_all add: genesis_hash_def chain_config_def check_chain_lib_def)

lemma signed_transaction_verifies_witness:
  "\<exists>extrinsic. verify_at check_lib (1031, 12) (get_genesis_hash Canary Matrix) sample_hash 1064 extrinsic
       (replicate 32 3) (daemon_params 7 TX_MORTALITY 1001 (sample_hash 1001)) = Return True"
proof -
  obtain input where
    "build_input check_chain_lib 3 (get_genesis_hash Canary Matrix) 1001 (sample_hash (ucast (1001 :: u32))) 3 7
       (sample_request ''a'' None [0, 0, 4] None) = Return (Some input)"
    by (rule sample_built)
  from signed_transaction_verifies [where chain_hash = sample_hash and block_number = 1001 and head = 1064,
      OF check_lib_documented check_chain_lib_signs sample_client this]
  show ?thesis by (auto simp: check_view_def check_chain_lib_def)
qed

lemma abandon_extrinsic_anchor_witness:
  "\<exists>extrinsic signature payload payload'.
       verify_at check_lib (1031, 12) (get_genesis_hash Canary Matrix) sample_hash 1002 extrinsic
         (replicate 32 3) (daemon_params 7 DUMMY_TX_MORTALITY 1001 (sample_hash 1001))
       = Return (sr25519_verify check_lib signature (signing_message check_lib payload') (replicate 32 3))
     \<and> sr25519_verify check_lib signature (signing_message check_lib payload) (replicate 32 3)
     \<and> payload \<noteq> payload'"
proof -
  obtain input where
    "build_input check_chain_lib 3 (get_genesis_hash Canary Matrix) 1001 (sample_hash (ucast (1001 :: u32))) 3 7
       (sample_request ''a'' None [0, 0, 4] None) = Return (Some input)"
    by (rule sample_built)
  from abandon_extrinsic_anchor [where chain_hash = sample_hash and block_number = 1001 and head = 1002,
      OF check_lib_documented check_chain_lib_signs sample_client this sample_hash_distinct]
  have "\<exists>extrinsic signature.
       let params = daemon_params 7 DUMMY_TX_MORTALITY 1001 (sample_hash 1001);
           payload = payload_with check_lib check_view (get_genesis_hash Canary Matrix) dummy_payload
             (subxt_params params)
       in sr25519_verify check_lib signature (signing_message check_lib (payload (sample_hash 1001)))
            (replicate 32 3)
        \<and> verify_at check_lib (1031, 12) (get_genesis_hash Canary Matrix) sample_hash 1002 extrinsic
            (replicate 32 3) params
          = Return (sr25519_verify check_lib signature
              (signing_message check_lib (payload (sample_hash 1000))) (replicate 32 3))
        \<and> payload (sample_hash 1000) \<noteq> payload (sample_hash 1001)"
    by (auto simp: check_view_def check_chain_lib_def Let_def)
  then show ?thesis unfolding Let_def by metis
qed

end
