(* ===== verification/Substrate_Tests.thy ===== *)
theory Substrate_Tests
  imports Extrinsic_Check
begin

text \<open>
  The tests of \<open>src/src/substrate_client.rs\<close>, run on the model: each is a definition that makes the
  test's calls and assertions, \<open>Panic\<close> when one fails, and a lemma that it passes. The metadata of the
  fixtures, the signer and the crates are arguments; where a test expects a signature to fail, the
  lemma assumes that this signature is not one of the other message.
\<close>

definition SPEC_VERSION :: u32 where "SPEC_VERSION = 1031"
definition TX_VERSION :: u32 where "TX_VERSION = 12"

definition build_client_with_versions :: "'meta \<Rightarrow> h256 \<Rightarrow> u32 \<Rightarrow> u32 \<Rightarrow> 'meta client" where
  "build_client_with_versions metadata genesis version tx_version =
     \<lparr>enjin_genesis = genesis,
      enjin_inner =
        \<lparr>sc_ranges = [\<lparr>block_range = (0, - 1), sr_spec_version = version,
                      sr_transaction_version = tx_version\<rparr>],
         sc_metadata = [(version, metadata)], sc_genesis_hash = Some genesis\<rparr>\<rparr>"

definition build_client :: "'meta \<Rightarrow> h256 \<Rightarrow> 'meta client" where
  "build_client metadata genesis = build_client_with_versions metadata genesis SPEC_VERSION TX_VERSION"

definition u64_to_le_bytes :: "u64 \<Rightarrow> bytes" where
  "u64_to_le_bytes x = map (\<lambda>i. ucast (drop_bit (8 * i) x)) [0, 1, 2, 3, 4, 5, 6, 7]"

definition block_hash_for :: "scale_lib \<Rightarrow> u64 \<Rightarrow> h256" where
  "block_hash_for S block_n =
     blake2_256 S (map (\<lambda>c. of_nat (of_char c)) ''sysblkh:'' @ u64_to_le_bytes block_n @ replicate 24 0)"

definition well_formed :: "scale_lib \<Rightarrow> u64 \<Rightarrow> u64 \<Rightarrow> test_mortality" where
  "well_formed S for_n from_n =
     \<lparr>for_n_blocks = for_n, from_block_n = from_n, from_block_hash = block_hash_for S from_n\<rparr>"

definition sign_with_subxt ::
    "('meta, 'cab, 'tx, 'kp) chain_lib \<Rightarrow> 'meta client \<Rightarrow> u64 \<Rightarrow> raw_payload \<Rightarrow> test_params \<Rightarrow> 'kp
     \<Rightarrow> bytes exec" where
  "sign_with_subxt lib client block_number raw params signer =
     exec_bind (expect (at_block lib client block_number)) (\<lambda>at.
     exec_bind (expect (create_signable_offline lib at raw (subxt_params params))) (\<lambda>tx.
     expect (sign_extrinsic lib tx signer)))"

definition remark_payload :: "bytes \<Rightarrow> raw_payload" where
  "remark_payload b = \<lparr>pallet_name = ''System'', call_name = ''remark'', field_bytes = b\<rparr>"

definition expected_implicit :: "h256 \<Rightarrow> h256 \<Rightarrow> bytes" where
  "expected_implicit genesis era_block_hash = implicit_data (SPEC_VERSION, TX_VERSION) genesis era_block_hash"

definition try_verify ::
    "scale_lib \<Rightarrow> ('meta, 'cab, 'tx, 'kp) chain_lib \<Rightarrow> bytes \<Rightarrow> 'kp \<Rightarrow> test_params \<Rightarrow> h256 \<Rightarrow> bool exec" where
  "try_verify S lib extrinsic signer params genesis =
     verify_at S (SPEC_VERSION, TX_VERSION) genesis (block_hash_for S)
       (from_block_n (tp_mortality params)) extrinsic (public_key_of lib signer) params"

text \<open>\<open>Vec<u8>::encode\<close>.\<close>

definition encode_vec :: "scale_lib \<Rightarrow> string \<Rightarrow> bytes" where
  "encode_vec S text = compact_encode S (length text) @ map (\<lambda>c. of_nat (of_char c)) text"

subsection \<open>The tests\<close>

definition matrix_signed_extrinsic_verifies ::
    "scale_lib \<Rightarrow> ('meta, 'cab, 'tx, 'kp) chain_lib \<Rightarrow> 'meta \<Rightarrow> 'kp \<Rightarrow> unit exec" where
  "matrix_signed_extrinsic_verifies S lib metadata signer =
     (let client = build_client metadata (get_genesis_hash Enjin Matrix);
          params = \<lparr>tp_nonce = 7, tp_tip = 0, tp_mortality = well_formed S 64 1000\<rparr>;
          raw = remark_payload (encode_vec S ''hello'')
      in exec_bind (sign_with_subxt lib client 1000 raw params signer) (\<lambda>extrinsic.
         exec_bind (try_verify S lib extrinsic signer params (get_genesis_hash Enjin Matrix)) ensure))"

definition canary_matrix_signed_extrinsic_verifies ::
    "scale_lib \<Rightarrow> ('meta, 'cab, 'tx, 'kp) chain_lib \<Rightarrow> 'meta \<Rightarrow> 'kp \<Rightarrow> unit exec" where
  "canary_matrix_signed_extrinsic_verifies S lib metadata signer =
     (let client = build_client metadata (get_genesis_hash Canary Matrix);
          params = \<lparr>tp_nonce = 11, tp_tip = 0, tp_mortality = well_formed S 64 2000\<rparr>;
          raw = remark_payload (encode_vec S ''canary'')
      in exec_bind (sign_with_subxt lib client 2000 raw params signer) (\<lambda>extrinsic.
         exec_bind (try_verify S lib extrinsic signer params (get_genesis_hash Canary Matrix)) ensure))"

definition matrix_signature_fails_when_genesis_is_wrong ::
    "scale_lib \<Rightarrow> ('meta, 'cab, 'tx, 'kp) chain_lib \<Rightarrow> 'meta \<Rightarrow> 'kp \<Rightarrow> unit exec" where
  "matrix_signature_fails_when_genesis_is_wrong S lib metadata signer =
     (let client = build_client metadata (replicate 32 0xAA);
          params = \<lparr>tp_nonce = 0, tp_tip = 0, tp_mortality = well_formed S 64 1\<rparr>;
          raw = remark_payload (encode_vec S ''x'')
      in exec_bind (sign_with_subxt lib client 1 raw params signer) (\<lambda>extrinsic.
         exec_bind (try_verify S lib extrinsic signer params (get_genesis_hash Enjin Matrix))
           (\<lambda>verified. ensure (\<not> verified))))"

definition matrix_signature_fails_when_runtime_versions_differ ::
    "scale_lib \<Rightarrow> ('meta, 'cab, 'tx, 'kp) chain_lib \<Rightarrow> 'meta \<Rightarrow> 'kp \<Rightarrow> unit exec" where
  "matrix_signature_fails_when_runtime_versions_differ S lib metadata signer =
     (let genesis = get_genesis_hash Enjin Matrix;
          client = build_client_with_versions metadata genesis (SPEC_VERSION + 1) TX_VERSION;
          params = \<lparr>tp_nonce = 3, tp_tip = 0, tp_mortality = well_formed S 64 1000\<rparr>;
          raw = remark_payload (encode_vec S ''spec-mismatch'')
      in exec_bind (sign_with_subxt lib client 1000 raw params signer) (\<lambda>extrinsic.
         exec_bind (try_verify S lib extrinsic signer params genesis) (\<lambda>verified.
         exec_bind (ensure (\<not> verified)) (\<lambda>_.
         let client = build_client_with_versions metadata genesis SPEC_VERSION (TX_VERSION + 1);
             raw = remark_payload (encode_vec S ''tx-mismatch'')
         in exec_bind (sign_with_subxt lib client 1000 raw params signer) (\<lambda>extrinsic.
            exec_bind (try_verify S lib extrinsic signer params genesis) (\<lambda>verified.
            ensure (\<not> verified)))))))"

text \<open>The first test again, on the metadata of another version.\<close>

definition matrix_signed_extrinsic_verifies_with_v16_metadata ::
    "scale_lib \<Rightarrow> ('meta, 'cab, 'tx, 'kp) chain_lib \<Rightarrow> 'meta \<Rightarrow> 'kp \<Rightarrow> unit exec" where
  "matrix_signed_extrinsic_verifies_with_v16_metadata S lib metadata_v16 signer =
     (let client = build_client metadata_v16 (get_genesis_hash Enjin Matrix);
          params = \<lparr>tp_nonce = 7, tp_tip = 0, tp_mortality = well_formed S 64 1000\<rparr>;
          raw = remark_payload (encode_vec S ''hello'')
      in exec_bind (sign_with_subxt lib client 1000 raw params signer) (\<lambda>extrinsic.
         exec_bind (try_verify S lib extrinsic signer params (get_genesis_hash Enjin Matrix)) ensure))"

definition matrix_signature_fails_when_era_hash_is_not_system_block_hash_of_birth ::
    "scale_lib \<Rightarrow> ('meta, 'cab, 'tx, 'kp) chain_lib \<Rightarrow> 'meta \<Rightarrow> 'kp \<Rightarrow> unit exec" where
  "matrix_signature_fails_when_era_hash_is_not_system_block_hash_of_birth S lib metadata signer =
     (let client = build_client metadata (get_genesis_hash Enjin Matrix);
          from_n = 1000;
          real_hash = block_hash_for S from_n;
          bogus_hash = (case real_hash of [] \<Rightarrow> [] | h # hs \<Rightarrow> (xor h 0xFF) # hs);
          params = \<lparr>tp_nonce = 1, tp_tip = 0,
                    tp_mortality = \<lparr>for_n_blocks = 64, from_block_n = from_n, from_block_hash = bogus_hash\<rparr>\<rparr>;
          raw = remark_payload (encode_vec S ''bad-era-hash'')
      in exec_bind (sign_with_subxt lib client from_n raw params signer) (\<lambda>extrinsic.
         exec_bind (try_verify S lib extrinsic signer params (get_genesis_hash Enjin Matrix))
           (\<lambda>verified. ensure (\<not> verified))))"

definition era_anchor_lag_produces_signature_mismatch :: "unit exec" where
  "era_anchor_lag_produces_signature_mismatch =
     (let period = era_period_from_raw 64;
          signing_block_n = 1000;
          daemon_phase = era_phase period signing_block_n
      in exec_bind (ensure (period = 64)) (\<lambda>_.
         fold_exec (\<lambda>lag_blocks _.
           let chain_current = signing_block_n + lag_blocks;
               birth = era_birth period daemon_phase chain_current
           in if lag_blocks < period then ensure (birth = signing_block_n)
              else ensure (birth \<noteq> signing_block_n))
           [0, 1, 10, 32, 63, 64, 65, 100, 200, 14400] ()))"

subsection \<open>They pass\<close>

text \<open>A client at a block answers with the versions it was configured with.\<close>

definition versions_configured :: "'cab client_view \<Rightarrow> ('meta, 'cab, 'tx, 'kp) chain_lib \<Rightarrow> bool" where
  "versions_configured V lib \<longleftrightarrow>
     (\<forall>metadata genesis v t n cab.
        at_block lib (build_client_with_versions metadata genesis v t) n = Inr cab \<longrightarrow>
        cv_versions V cab = (v, t))"

text \<open>The idealisation of a symbolic model of signatures: one is valid for a single payload.\<close>

definition no_second_payload :: "scale_lib \<Rightarrow> public_key \<Rightarrow> bool" where
  "no_second_payload S pk \<longleftrightarrow>
     (\<forall>signature m m'. sr25519_verify S signature (signing_message S m) pk
        \<and> sr25519_verify S signature (signing_message S m') pk \<longrightarrow> m = m')"

lemma birth_at_block: "runtime_birth 64 n n = n"
  using runtime_birth_anchor(1) [of n n TX_MORTALITY] transaction_period by (simp add: TX_MORTALITY_def)

lemma signed_by_client:
  assumes "documented_scale S" "signs_extrinsics S V lib" "versions_configured V lib"
    and "sign_with_subxt lib (build_client_with_versions metadata g v t) n raw params signer = Return extrinsic"
    and "for_n_blocks (tp_mortality params) = 64"
  obtains call signature where
    "sr25519_verify S signature (signing_message S (call @ expected_extra S params
       @ implicit_data (v, t) g (from_block_hash (tp_mortality params)))) (public_key_of lib signer)"
    "\<And>genesis. try_verify S lib extrinsic signer params genesis =
       Return (sr25519_verify S signature (signing_message S (call @ expected_extra S params
         @ implicit_data (SPEC_VERSION, TX_VERSION) genesis
             (block_hash_for S (from_block_n (tp_mortality params))))) (public_key_of lib signer))"
proof -
  from assms(4) obtain cab where cab: "at_block lib (build_client_with_versions metadata g v t) n = Inr cab"
    and signed: "sign_payload lib cab signer raw (subxt_params params) = Some extrinsic"
    by (auto simp: sign_with_subxt_def exec_bind_Return_iff sign_payload_def)
  have "cv_versions V cab = (v, t)" using assms(3) cab by (auto simp: versions_configured_def)
  moreover have "genesis_hash (build_client_with_versions metadata g v t) = Some g"
    by (simp add: genesis_hash_def build_client_with_versions_def)
  with assms(2) cab have "cv_genesis V cab = g"
    by (auto simp: signs_extrinsics_def)
  ultimately show thesis
    using verify_signed_payload [OF assms(1,2) signed] that assms(5) birth_at_block
    by (metis (no_types, lifting) extra_of_subxt payload_with_def try_verify_def)
qed

text \<open>With the right genesis hash, versions and block hash the signature is accepted; with a wrong one of
  them it is one of another payload.\<close>

lemma accepted:
  assumes "documented_scale S" "signs_extrinsics S V lib" "versions_configured V lib"
    and "sign_with_subxt lib (build_client metadata genesis) n raw params signer = Return extrinsic"
    and "tp_mortality params = well_formed S 64 b"
  shows "try_verify S lib extrinsic signer params genesis = Return True"
proof -
  have params: "for_n_blocks (tp_mortality params) = 64" "from_block_n (tp_mortality params) = b"
    "from_block_hash (tp_mortality params) = block_hash_for S b"
    using assms(5) by (simp_all add: well_formed_def)
  obtain call signature where
    "sr25519_verify S signature (signing_message S (call @ expected_extra S params
       @ implicit_data (SPEC_VERSION, TX_VERSION) genesis (block_hash_for S b))) (public_key_of lib signer)"
    "\<And>genesis. try_verify S lib extrinsic signer params genesis =
       Return (sr25519_verify S signature (signing_message S (call @ expected_extra S params
         @ implicit_data (SPEC_VERSION, TX_VERSION) genesis (block_hash_for S b))) (public_key_of lib signer))"
    by (rule signed_by_client [OF assms(1-3) assms(4) [unfolded build_client_def] params(1),
        unfolded params]) (rule that)
  then show ?thesis by simp
qed

lemma refused:
  assumes "documented_scale S" "signs_extrinsics S V lib" "versions_configured V lib"
    and "no_second_payload S (public_key_of lib signer)"
    and "sign_with_subxt lib (build_client_with_versions metadata g v t) n raw params signer = Return extrinsic"
    and "for_n_blocks (tp_mortality params) = 64"
    and "implicit_data (v, t) g (from_block_hash (tp_mortality params)) \<noteq>
      implicit_data (SPEC_VERSION, TX_VERSION) genesis (block_hash_for S (from_block_n (tp_mortality params)))"
  shows "try_verify S lib extrinsic signer params genesis = Return False"
proof -
  obtain call signature where sig:
    "sr25519_verify S signature (signing_message S (call @ expected_extra S params
       @ implicit_data (v, t) g (from_block_hash (tp_mortality params)))) (public_key_of lib signer)"
    "\<And>genesis. try_verify S lib extrinsic signer params genesis =
       Return (sr25519_verify S signature (signing_message S (call @ expected_extra S params
         @ implicit_data (SPEC_VERSION, TX_VERSION) genesis
             (block_hash_for S (from_block_n (tp_mortality params))))) (public_key_of lib signer))"
    by (rule signed_by_client [OF assms(1-3,5,6)]) (rule that)
  have "\<not> sr25519_verify S signature (signing_message S (call @ expected_extra S params
       @ implicit_data (SPEC_VERSION, TX_VERSION) genesis
           (block_hash_for S (from_block_n (tp_mortality params))))) (public_key_of lib signer)" (is "\<not> ?v")
  proof
    assume ?v
    from assms(4) [unfolded no_second_payload_def, rule_format, OF conjI [OF sig(1) this]] assms(7)
    show False by simp
  qed
  then show ?thesis using sig(2) by simp
qed

lemma matrix_signed_extrinsic_verifies_passes:
  assumes "documented_scale S" "signs_extrinsics S V lib" "versions_configured V lib"
    and "sign_with_subxt lib (build_client metadata (get_genesis_hash Enjin Matrix)) 1000
      (remark_payload (encode_vec S ''hello''))
      \<lparr>tp_nonce = 7, tp_tip = 0, tp_mortality = well_formed S 64 1000\<rparr> signer = Return extrinsic"
  shows "matrix_signed_extrinsic_verifies S lib metadata signer = Return ()"
    and "matrix_signed_extrinsic_verifies_with_v16_metadata S lib metadata signer = Return ()"
  using accepted [OF assms] assms(4)
  by (simp_all add: matrix_signed_extrinsic_verifies_def matrix_signed_extrinsic_verifies_with_v16_metadata_def)

lemma canary_matrix_signed_extrinsic_verifies_passes:
  assumes "documented_scale S" "signs_extrinsics S V lib" "versions_configured V lib"
    and "sign_with_subxt lib (build_client metadata (get_genesis_hash Canary Matrix)) 2000
      (remark_payload (encode_vec S ''canary''))
      \<lparr>tp_nonce = 11, tp_tip = 0, tp_mortality = well_formed S 64 2000\<rparr> signer = Return extrinsic"
  shows "canary_matrix_signed_extrinsic_verifies S lib metadata signer = Return ()"
  using accepted [OF assms] assms(4) by (simp add: canary_matrix_signed_extrinsic_verifies_def)

text \<open>The tests that expect a failure.\<close>

lemma implicit_data_eq:
  "implicit_data vs g h = implicit_data vs g h' \<longleftrightarrow> h = h'"
  "length g = length g' \<Longrightarrow> implicit_data vs g h = implicit_data vs g' h \<longleftrightarrow> g = g'"
  by (auto simp: implicit_data_def split: prod.splits)

lemma length_genesis: "length (get_genesis_hash network chain) = 32"
  by (cases network; cases chain) simp_all

lemma matrix_signature_fails_when_genesis_is_wrong_passes:
  assumes "documented_scale S" "signs_extrinsics S V lib" "versions_configured V lib"
    and "no_second_payload S (public_key_of lib signer)"
    and "sign_with_subxt lib (build_client metadata (replicate 32 0xAA)) 1
      (remark_payload (encode_vec S ''x''))
      \<lparr>tp_nonce = 0, tp_tip = 0, tp_mortality = well_formed S 64 1\<rparr> signer = Return extrinsic"
  shows "matrix_signature_fails_when_genesis_is_wrong S lib metadata signer = Return ()"
proof -
  have "implicit_data (SPEC_VERSION, TX_VERSION) (replicate 32 0xAA) (block_hash_for S 1)
      \<noteq> implicit_data (SPEC_VERSION, TX_VERSION) (get_genesis_hash Enjin Matrix) (block_hash_for S 1)"
    by (subst implicit_data_eq(2)) (simp_all add: numeral_eq_Suc)
  then show ?thesis
    using refused [OF assms(1-4) assms(5) [unfolded build_client_def], of "get_genesis_hash Enjin Matrix"]
      assms(5)
    by (simp add: matrix_signature_fails_when_genesis_is_wrong_def well_formed_def)
qed

lemma matrix_signature_fails_when_runtime_versions_differ_passes:
  assumes "documented_scale S" "signs_extrinsics S V lib" "versions_configured V lib"
    and "no_second_payload S (public_key_of lib signer)"
    and "sign_with_subxt lib (build_client_with_versions metadata (get_genesis_hash Enjin Matrix)
        (SPEC_VERSION + 1) TX_VERSION) 1000 (remark_payload (encode_vec S ''spec-mismatch''))
      \<lparr>tp_nonce = 3, tp_tip = 0, tp_mortality = well_formed S 64 1000\<rparr> signer = Return extrinsic"
    and "sign_with_subxt lib (build_client_with_versions metadata (get_genesis_hash Enjin Matrix)
        SPEC_VERSION (TX_VERSION + 1)) 1000 (remark_payload (encode_vec S ''tx-mismatch''))
      \<lparr>tp_nonce = 3, tp_tip = 0, tp_mortality = well_formed S 64 1000\<rparr> signer = Return extrinsic'"
  shows "matrix_signature_fails_when_runtime_versions_differ S lib metadata signer = Return ()"
proof -
  have "implicit_data (SPEC_VERSION + 1, TX_VERSION) g h \<noteq> implicit_data (SPEC_VERSION, TX_VERSION) g h"
    "implicit_data (SPEC_VERSION, TX_VERSION + 1) g h \<noteq> implicit_data (SPEC_VERSION, TX_VERSION) g h" for g h
    by (simp_all add: implicit_data_def u32_to_le_bytes_def SPEC_VERSION_def TX_VERSION_def)
  then show ?thesis
    using refused [OF assms(1-5), of "get_genesis_hash Enjin Matrix"]
      refused [OF assms(1-4,6), of "get_genesis_hash Enjin Matrix"] assms(5,6)
    by (simp add: matrix_signature_fails_when_runtime_versions_differ_def well_formed_def)
qed

lemma matrix_signature_fails_when_era_hash_is_not_system_block_hash_of_birth_passes:
  assumes "documented_scale S" "signs_extrinsics S V lib" "versions_configured V lib"
    and "no_second_payload S (public_key_of lib signer)"
    and "block_hash_for S 1000 = h # hs"
    and "sign_with_subxt lib (build_client metadata (get_genesis_hash Enjin Matrix)) 1000
      (remark_payload (encode_vec S ''bad-era-hash''))
      \<lparr>tp_nonce = 1, tp_tip = 0, tp_mortality = \<lparr>for_n_blocks = 64, from_block_n = 1000,
        from_block_hash = xor h 0xFF # hs\<rparr>\<rparr> signer = Return extrinsic"
  shows "matrix_signature_fails_when_era_hash_is_not_system_block_hash_of_birth S lib metadata signer = Return ()"
proof -
  have "xor h 0xFF \<noteq> h"
  proof
    assume "xor h 0xFF = h"
    then have "xor h (xor h 0xFF) = xor h h" by simp
    then show False by (simp flip: xor.assoc)
  qed
  then have "implicit_data vs g (xor h 0xFF # hs) \<noteq> implicit_data vs g (block_hash_for S 1000)" for vs g
    using assms(5) by (simp add: implicit_data_eq)
  then show ?thesis
    using refused [OF assms(1-4) assms(6) [unfolded build_client_def], of "get_genesis_hash Enjin Matrix"]
      assms(5,6)
    by (simp add: matrix_signature_fails_when_era_hash_is_not_system_block_hash_of_birth_def)
qed

lemma era_anchor_lag_produces_signature_mismatch_passes:
  "era_anchor_lag_produces_signature_mismatch = Return ()"
  by code_simp

end
