(* ===== verification/Trigger_Tests.thy ===== *)
theory Trigger_Tests
  imports Work_Trigger
begin

text \<open>
  The tests of \<open>src/src/retry.rs\<close> and \<open>src/src/work_trigger.rs\<close>, run on the model. A definition holds
  the assertions of a test, under the test's name, and a lemma says that they hold. What a test with
  a paused clock does is a list of wake-ups: the times to which it advances the clock, with the state
  a waiting task sees there.
\<close>

subsection \<open>Backoff and drains\<close>

definition exponential_delay_starts_at_one_second_and_caps_at_one_minute :: bool where
  "exponential_delay_starts_at_one_second_and_caps_at_one_minute \<longleftrightarrow>
     exponential_delay 0 = from_secs 1 \<and> exponential_delay 1 = from_secs 2
     \<and> exponential_delay 5 = from_secs 32 \<and> exponential_delay 6 = from_secs 60
     \<and> exponential_delay 100 = from_secs 60"

definition empty_drain_stops_when_the_scan_has_ended :: bool where
  "empty_drain_stops_when_the_scan_has_ended \<longleftrightarrow> \<not> should_continue_empty_drain (Some ''a'') None 0"

definition empty_drain_continues_while_the_cursor_advances :: bool where
  "empty_drain_continues_while_the_cursor_advances \<longleftrightarrow>
     should_continue_empty_drain None (Some ''page-2'') 0
     \<and> should_continue_empty_drain (Some ''page-1'') (Some ''page-2'') 5"

definition empty_drain_stops_when_the_server_repeats_the_cursor :: bool where
  "empty_drain_stops_when_the_server_repeats_the_cursor \<longleftrightarrow>
     \<not> should_continue_empty_drain (Some ''page-1'') (Some ''page-1'') 0
     \<and> \<not> should_continue_empty_drain None (Some []) 0"

definition empty_drain_stops_after_the_consecutive_page_limit :: bool where
  "empty_drain_stops_after_the_consecutive_page_limit \<longleftrightarrow>
     should_continue_empty_drain (Some ''a'') (Some ''b'') (MAX_CONSECUTIVE_EMPTY_PAGES - 1)
     \<and> \<not> should_continue_empty_drain (Some ''a'') (Some ''b'') MAX_CONSECUTIVE_EMPTY_PAGES"

text \<open>The percentages drawn are an argument, one for each round of the test.\<close>

definition jitter_stays_within_twenty_percent_of_the_capped_delay :: "u64 list \<Rightarrow> bool" where
  "jitter_stays_within_twenty_percent_of_the_capped_delay draws \<longleftrightarrow>
     list_all (\<lambda>percent. from_secs 48 \<le> jittered_exponential_delay percent 6
                         \<and> jittered_exponential_delay percent 6 \<le> from_secs 60) draws"

lemma retry_tests_pass:
  "exponential_delay_starts_at_one_second_and_caps_at_one_minute"
  "empty_drain_stops_when_the_scan_has_ended"
  "empty_drain_continues_while_the_cursor_advances"
  "empty_drain_stops_when_the_server_repeats_the_cursor"
  "empty_drain_stops_after_the_consecutive_page_limit"
  by (simp_all add: exponential_delay_starts_at_one_second_and_caps_at_one_minute_def
      exponential_delay_secs from_secs_def min_def
      empty_drain_stops_when_the_scan_has_ended_def empty_drain_continues_while_the_cursor_advances_def
      empty_drain_stops_when_the_server_repeats_the_cursor_def
      empty_drain_stops_after_the_consecutive_page_limit_def should_continue_empty_drain_def
      MAX_CONSECUTIVE_EMPTY_PAGES_def)

lemma jitter_test_passes:
  assumes "\<forall>percent \<in> set draws. 80 \<le> percent \<and> percent \<le> 120"
  shows "jitter_stays_within_twenty_percent_of_the_capped_delay draws"
proof -
  have "from_secs 48 \<le> jittered_exponential_delay p 6 \<and> jittered_exponential_delay p 6 \<le> from_secs 60"
    if "80 \<le> p" "p \<le> 120" for p
  proof -
    have "80 \<le> unat p" "unat p \<le> 120" using that by (simp_all add: word_le_nat_alt)
    then show ?thesis
      using jittered_delay_millis [of p 6] by (simp add: from_secs_def min_def)
  qed
  then show ?thesis
    using assms by (auto simp: jitter_stays_within_twenty_percent_of_the_capped_delay_def list_all_iff)
qed

subsection \<open>The trigger state\<close>

definition record_times :: "nat \<Rightarrow> instant \<Rightarrow> trigger_state \<Rightarrow> trigger_state" where
  "record_times n now = (record_event now ^^ n)"

definition events_known_when_lookup_begins_are_covered_by_that_lookup :: bool where
  "events_known_when_lookup_begins_are_covered_by_that_lookup \<longleftrightarrow>
     (let state = finish_empty_lookup (begin_fresh_lookup (record_event 0 new_trigger))
      in event_generation state = 1 \<and> pending_event_count state = 0 \<and> lookup_generation state = None)"

definition event_counter_is_capped_at_the_trigger_limit :: bool where
  "event_counter_is_capped_at_the_trigger_limit \<longleftrightarrow>
     (let state = record_times (unat (EVENT_TRIGGER_LIMIT * 4)) 0 new_trigger
      in pending_event_count state = EVENT_TRIGGER_LIMIT
         \<and> event_generation state = EVENT_TRIGGER_LIMIT * 4)"

definition no_event_during_a_lookup_requires_no_follow_up :: bool where
  "no_event_during_a_lookup_requires_no_follow_up \<longleftrightarrow>
     \<not> snd (finish_batch True (begin_fresh_lookup new_trigger))"

definition a_new_event_during_processing_forces_a_follow_up :: bool where
  "a_new_event_during_processing_forces_a_follow_up \<longleftrightarrow>
     snd (finish_batch True (record_event 0 (begin_fresh_lookup new_trigger)))"

definition an_event_during_a_cursor_scan_survives_until_scan_completion :: bool where
  "an_event_during_a_cursor_scan_survives_until_scan_completion \<longleftrightarrow>
     (let (s1, first) = finish_batch False (record_event 0 (begin_fresh_lookup new_trigger));
          (s2, second) = finish_batch True s1
      in first \<and> lookup_generation s1 \<noteq> None \<and> second \<and> lookup_generation s2 = None)"

definition an_event_racing_with_an_empty_lookup_remains_pending :: bool where
  "an_event_racing_with_an_empty_lookup_remains_pending \<longleftrightarrow>
     (let state = finish_empty_lookup (record_event 0 (begin_fresh_lookup new_trigger))
      in pending_event_count state = 1 \<and> lookup_generation state = None)"

definition a_force_during_a_cursor_scan_survives_until_a_fresh_lookup :: bool where
  "a_force_during_a_cursor_scan_survives_until_a_fresh_lookup \<longleftrightarrow>
     (let (s1, deferred) = finish_batch True (force (begin_fresh_lookup new_trigger));
          state = finish_empty_lookup (begin_fresh_lookup s1)
      in deferred \<and> \<not> forced state \<and> pending_event_count state = 0 \<and> lookup_generation state = None)"

definition a_force_racing_with_an_empty_fresh_lookup_is_not_lost :: bool where
  "a_force_racing_with_an_empty_fresh_lookup_is_not_lost \<longleftrightarrow>
     forced (finish_empty_lookup (force (begin_fresh_lookup new_trigger)))"

lemma trigger_state_tests_pass:
  "events_known_when_lookup_begins_are_covered_by_that_lookup"
  "no_event_during_a_lookup_requires_no_follow_up"
  "a_new_event_during_processing_forces_a_follow_up"
  "an_event_during_a_cursor_scan_survives_until_scan_completion"
  "an_event_racing_with_an_empty_lookup_remains_pending"
  "a_force_during_a_cursor_scan_survives_until_a_fresh_lookup"
  "a_force_racing_with_an_empty_fresh_lookup_is_not_lost"
  by (simp_all add: events_known_when_lookup_begins_are_covered_by_that_lookup_def
      no_event_during_a_lookup_requires_no_follow_up_def
      a_new_event_during_processing_forces_a_follow_up_def
      an_event_during_a_cursor_scan_survives_until_scan_completion_def
      an_event_racing_with_an_empty_lookup_remains_pending_def
      a_force_during_a_cursor_scan_survives_until_a_fresh_lookup_def
      a_force_racing_with_an_empty_fresh_lookup_is_not_lost_def
      trigger_op_defs new_trigger_def saturating_add_def min_def EVENT_TRIGGER_LIMIT_def Let_def)

lemma record_times_state:
  assumes "pending_event_count s \<le> EVENT_TRIGGER_LIMIT"
  shows "event_generation (record_times n now s) = event_generation s + of_nat n"
    and "unat (pending_event_count (record_times n now s)) = min (unat (pending_event_count s) + n) 25"
    and "forced (record_times n now s) = forced s"
    and "debounce_deadline (record_times n now s) =
      (if n = 0 then debounce_deadline s else Some (now + EVENT_DEBOUNCE))"
proof -
  have "unat (pending_event_count s) \<le> 25"
    using assms by (simp add: word_le_nat_alt EVENT_TRIGGER_LIMIT_def)
  then show "unat (pending_event_count (record_times n now s)) = min (unat (pending_event_count s) + n) 25"
    by (induction n) (simp_all add: record_times_def record_event_def capped_count)
  show "event_generation (record_times n now s) = event_generation s + of_nat n"
    "forced (record_times n now s) = forced s"
    "debounce_deadline (record_times n now s) =
      (if n = 0 then debounce_deadline s else Some (now + EVENT_DEBOUNCE))"
    by (induction n) (simp_all add: record_times_def record_event_def)
qed

lemma event_counter_test_passes: "event_counter_is_capped_at_the_trigger_limit"
  using record_times_state(1,2) [of new_trigger 100 0]
  by (simp add: event_counter_is_capped_at_the_trigger_limit_def new_trigger_def EVENT_TRIGGER_LIMIT_def
      Let_def word_unat_eq_iff)

subsection \<open>The waits\<close>

text \<open>A spawned wait has finished when one of the wake-ups so far made it return.\<close>

definition one_event_uses_a_trailing_500_millisecond_debounce :: bool where
  "one_event_uses_a_trailing_500_millisecond_debounce \<longleftrightarrow>
     (let ms = from_millis;
          s0 = record_event 0 new_trigger;
          s1 = record_event (ms 400) s0;
          seen = [(0, s0), (ms 400, s1), (ms 500, s1)]
      in wait_until_ready [(0, s0)] = None
         \<and> wait_until_ready (seen @ [(ms 899, s1)]) = None
         \<and> wait_until_ready (seen @ [(ms 899, s1), (ms 900, s1)]) \<noteq> None)"

definition twenty_five_event_deliveries_bypass_the_debounce :: bool where
  "twenty_five_event_deliveries_bypass_the_debounce \<longleftrightarrow>
     (let s0 = record_times (unat (EVENT_TRIGGER_LIMIT - 1)) 0 new_trigger
      in wait_until_ready [(0, s0)] = None
         \<and> wait_until_ready [(0, s0), (0, record_event 0 s0)] \<noteq> None)"

definition already_pending_work_does_not_satisfy_wait_for_new_event :: bool where
  "already_pending_work_does_not_satisfy_wait_for_new_event \<longleftrightarrow>
     (let s = record_event 0 new_trigger;
          later = EVENT_DEBOUNCE + from_secs 60
      in wait_until_ready [(EVENT_DEBOUNCE, s)] \<noteq> None
         \<and> wait_for_new_event s [s, s] = None
         \<and> wait_for_new_event s [s, s, record_event later s] \<noteq> None)"

definition a_force_during_the_delay_satisfies_wait_for_new_event :: bool where
  "a_force_during_the_delay_satisfies_wait_for_new_event \<longleftrightarrow>
     wait_for_new_event new_trigger [new_trigger, new_trigger] = None
     \<and> wait_for_new_event new_trigger [new_trigger, new_trigger, force new_trigger] \<noteq> None"

definition a_force_already_set_does_not_satisfy_wait_for_new_event :: bool where
  "a_force_already_set_does_not_satisfy_wait_for_new_event \<longleftrightarrow>
     (let s = force new_trigger
      in wait_for_new_event s [s, s] = None
         \<and> wait_for_new_event s [s, s, record_event (from_secs 60) s] \<noteq> None)"

lemma wait_tests_pass:
  "one_event_uses_a_trailing_500_millisecond_debounce"
  "already_pending_work_does_not_satisfy_wait_for_new_event"
  "a_force_during_the_delay_satisfies_wait_for_new_event"
  "a_force_already_set_does_not_satisfy_wait_for_new_event"
proof -
  have one: "\<not> (25 :: usize) \<le> 1" by (simp add: word_le_nat_alt)
  show "one_event_uses_a_trailing_500_millisecond_debounce"
  "already_pending_work_does_not_satisfy_wait_for_new_event"
  "a_force_during_the_delay_satisfies_wait_for_new_event"
  "a_force_already_set_does_not_satisfy_wait_for_new_event"
    by (simp_all add: one one_event_uses_a_trailing_500_millisecond_debounce_def
      already_pending_work_does_not_satisfy_wait_for_new_event_def
      a_force_during_the_delay_satisfies_wait_for_new_event_def
      a_force_already_set_does_not_satisfy_wait_for_new_event_def
      wait_for_new_event_def wait_until_ready_step_def trigger_ready_def trigger_op_defs new_trigger_def
      trigger_consts from_millis_def from_secs_def saturating_add_def min_def Let_def)
qed

lemma twenty_five_test_passes: "twenty_five_event_deliveries_bypass_the_debounce"
proof -
  let ?s = "record_times 24 0 new_trigger"
  have s: "unat (pending_event_count ?s) = 24" "\<not> forced ?s" "debounce_deadline ?s = Some EVENT_DEBOUNCE"
    using record_times_state [of new_trigger 24 0] by (simp_all add: new_trigger_def)
  have "unat (pending_event_count (record_event 0 ?s)) = 25"
    using s(1) by (simp add: record_event_def capped_count)
  then have "trigger_ready 0 (record_event 0 ?s)"
    by (simp add: trigger_ready_def word_le_nat_alt EVENT_TRIGGER_LIMIT_def)
  moreover have "\<not> trigger_ready 0 ?s"
    using s by (simp add: trigger_ready_def word_le_nat_alt trigger_consts from_millis_def)
  ultimately show ?thesis
    by (simp add: twenty_five_event_deliveries_bypass_the_debounce_def wait_until_ready_step_def
        EVENT_TRIGGER_LIMIT_def)
qed

subsection \<open>The poll timer\<close>

text \<open>\<open>tick\<close> has returned by a time, with \<open>set_connected\<close> called at the given times.\<close>

definition ticked_by :: "instant \<Rightarrow> bool \<Rightarrow> (instant \<times> bool) list \<Rightarrow> bool" where
  "ticked_by now connected calls \<longleftrightarrow>
     (case tick (new_poller 0 connected) (prompt_inputs 0 (new_poller 0 connected) connected calls) of
        Some (returned, deadline) \<Rightarrow> returned \<le> now | None \<Rightarrow> False)"

definition polls_every_six_seconds_while_pusher_is_unavailable :: bool where
  "polls_every_six_seconds_while_pusher_is_unavailable \<longleftrightarrow>
     \<not> ticked_by (PUSHER_OUTAGE_POLL_INTERVAL - from_millis 1) False []
     \<and> ticked_by PUSHER_OUTAGE_POLL_INTERVAL False []"

definition repeated_connection_failures_do_not_postpone_fallback_polling :: bool where
  "repeated_connection_failures_do_not_postpone_fallback_polling \<longleftrightarrow>
     ticked_by (from_secs 5 + from_secs 1) False [(from_secs 5, False)]"

definition a_connected_subscription_uses_the_safety_poll :: bool where
  "a_connected_subscription_uses_the_safety_poll \<longleftrightarrow>
     \<not> ticked_by (SAFETY_POLL_INTERVAL - from_millis 1) True []
     \<and> ticked_by SAFETY_POLL_INTERVAL True []"

definition losing_pusher_restarts_the_timer_at_six_seconds :: bool where
  "losing_pusher_restarts_the_timer_at_six_seconds \<longleftrightarrow>
     (let lost = from_secs 100
      in \<not> ticked_by (lost + (PUSHER_OUTAGE_POLL_INTERVAL - from_millis 1)) True [(lost, False)]
         \<and> ticked_by (lost + PUSHER_OUTAGE_POLL_INTERVAL) True [(lost, False)])"

definition restoring_pusher_restarts_the_safety_poll_timer :: bool where
  "restoring_pusher_restarts_the_safety_poll_timer \<longleftrightarrow>
     (let restored = from_secs 5
      in \<not> ticked_by (restored + (SAFETY_POLL_INTERVAL - from_millis 1)) False [(restored, True)]
         \<and> ticked_by (restored + SAFETY_POLL_INTERVAL) False [(restored, True)])"

lemma timer_tests_pass:
  "polls_every_six_seconds_while_pusher_is_unavailable"
  "repeated_connection_failures_do_not_postpone_fallback_polling"
  "a_connected_subscription_uses_the_safety_poll"
  "losing_pusher_restarts_the_timer_at_six_seconds"
  "restoring_pusher_restarts_the_safety_poll_timer"
  by (simp_all add: polls_every_six_seconds_while_pusher_is_unavailable_def
      repeated_connection_failures_do_not_postpone_fallback_polling_def
      a_connected_subscription_uses_the_safety_poll_def
      losing_pusher_restarts_the_timer_at_six_seconds_def
      restoring_pusher_restarts_the_safety_poll_timer_def ticked_by_def new_poller_def poll_interval_def
      trigger_consts from_secs_def from_millis_def entry_deadline_def set_connected_def Let_def)

end
