(* ===== verification/Worker_Tests.thy ===== *)
theory Worker_Tests
  imports Tx_Worker Wallet_Service
begin

text \<open>
  The tests of \<open>src/src/transaction.rs\<close> and \<open>src/src/wallet.rs\<close>, run on the model. A definition holds
  the assertions of a test, under the test's name (\<open>bool\<close>, or \<open>unit exec\<close> where the test may panic
  half way), and a lemma says that they hold. The tests of key derivation take the crate's derivation
  as an argument.
\<close>

subsection \<open>The transaction poller\<close>

definition partial_progress_keeps_the_cursor_and_continues_immediately :: bool where
  "partial_progress_keeps_the_cursor_and_continues_immediately \<longleftrightarrow>
     batch_step PartialProgress None (Some ''page-2'') 0 = Continue (Some ''page-2'') True True"

definition partial_progress_on_the_final_page_requires_a_fresh_retry :: bool where
  "partial_progress_on_the_final_page_requires_a_fresh_retry \<longleftrightarrow>
     batch_step PartialProgress (Some ''page-1'') None 0 = Continue None True True"

definition a_skipped_page_advances_when_more_pages_exist :: bool where
  "a_skipped_page_advances_when_more_pages_exist \<longleftrightarrow>
     batch_step Skipped None (Some ''page-2'') 0 = Continue (Some ''page-2'') False True"

definition a_skipped_page_stops_when_the_server_repeats_the_cursor :: bool where
  "a_skipped_page_stops_when_the_server_repeats_the_cursor \<longleftrightarrow>
     batch_step Skipped (Some ''page-1'') (Some ''page-1'') 0 = RetryFresh"

definition a_skipped_page_stops_after_the_consecutive_page_limit :: bool where
  "a_skipped_page_stops_after_the_consecutive_page_limit \<longleftrightarrow>
     (case batch_step Skipped (Some ''a'') (Some ''b'') (MAX_CONSECUTIVE_EMPTY_PAGES - 1) of
        Continue _ _ _ \<Rightarrow> True | RetryFresh \<Rightarrow> False)
     \<and> batch_step Skipped (Some ''a'') (Some ''b'') MAX_CONSECUTIVE_EMPTY_PAGES = RetryFresh"

text \<open>The state of a scan with no retry required, in which the tests use the retry flag and the count.\<close>

definition scan_retry_survives_a_successful_later_page_until_completion :: "unit exec" where
  "scan_retry_survives_a_successful_later_page_until_completion =
     (case batch_step Skipped None (Some ''page-2'') 0 of
        RetryFresh \<Rightarrow> Panic
      | Continue _ _ requires_fresh_retry \<Rightarrow>
          (let s1 = (if requires_fresh_retry then require_retry initial_poller else initial_poller)
           in case batch_step Completed (Some ''page-2'') None 1 of
                RetryFresh \<Rightarrow> Panic
              | Continue _ _ requires_fresh_retry \<Rightarrow>
                  (let s2 = (if requires_fresh_retry then require_retry s1 else s1);
                       (first, s3) = take_retry s2;
                       (second, s4) = take_retry s3
                   in exec_bind (ensure first) (\<lambda>_. ensure (\<not> second)))))"

definition partial_progress_resets_failure_backoff_for_a_clean_scan :: bool where
  "partial_progress_resets_failure_backoff_for_a_clean_scan \<longleftrightarrow>
     failure_count (reset_failure_count_after_progress (initial_poller\<lparr>failure_count := 6\<rparr>)) = 0"

definition progress_after_a_skipped_page_preserves_failure_backoff :: bool where
  "progress_after_a_skipped_page_preserves_failure_backoff \<longleftrightarrow>
     failure_count (reset_failure_count_after_progress
       (require_retry (initial_poller\<lparr>failure_count := 6\<rparr>))) = 6"

definition submission_failure_restarts_from_a_fresh_cursor :: bool where
  "submission_failure_restarts_from_a_fresh_cursor \<longleftrightarrow>
     batch_step SubmissionFailed None (Some ''page-2'') 0 = RetryFresh"

definition chain_activity_is_compared_only_after_the_full_cursor_scan :: bool where
  "chain_activity_is_compared_only_after_the_full_cursor_scan \<longleftrightarrow>
     (let enjin_matrix = (Enjin, Matrix);
          enjin_relay = (Enjin, Relay);
          canary_matrix = (Canary, Matrix);
          previous_scan = {enjin_matrix, enjin_relay, canary_matrix};
          current_scan = insert enjin_matrix (insert enjin_relay (insert enjin_matrix {}));
          (idle, previous_scan, current_scan) = complete_chain_scan previous_scan current_scan
      in idle = {canary_matrix} \<and> previous_scan = {enjin_matrix, enjin_relay} \<and> current_scan = {})"

lemmas step_test_defs = partial_progress_keeps_the_cursor_and_continues_immediately_def
  partial_progress_on_the_final_page_requires_a_fresh_retry_def
  a_skipped_page_advances_when_more_pages_exist_def
  a_skipped_page_stops_when_the_server_repeats_the_cursor_def
  a_skipped_page_stops_after_the_consecutive_page_limit_def
  partial_progress_resets_failure_backoff_for_a_clean_scan_def
  progress_after_a_skipped_page_preserves_failure_backoff_def
  submission_failure_restarts_from_a_fresh_cursor_def

lemma step_tests_pass:
  "partial_progress_keeps_the_cursor_and_continues_immediately"
  "partial_progress_on_the_final_page_requires_a_fresh_retry"
  "a_skipped_page_advances_when_more_pages_exist"
  "a_skipped_page_stops_when_the_server_repeats_the_cursor"
  "a_skipped_page_stops_after_the_consecutive_page_limit"
  "partial_progress_resets_failure_backoff_for_a_clean_scan"
  "progress_after_a_skipped_page_preserves_failure_backoff"
  "submission_failure_restarts_from_a_fresh_cursor"
  by (simp_all add: step_test_defs batch_step_def should_continue_empty_drain_def
      MAX_CONSECUTIVE_EMPTY_PAGES_def reset_failure_count_after_progress_def require_retry_def
      initial_poller_def)

lemma scan_tests_pass:
  "scan_retry_survives_a_successful_later_page_until_completion = Return ()"
  "chain_activity_is_compared_only_after_the_full_cursor_scan"
  by (auto simp: scan_retry_survives_a_successful_later_page_until_completion_def batch_step_def
      should_continue_empty_drain_def MAX_CONSECUTIVE_EMPTY_PAGES_def require_retry_def
      initial_poller_def chain_activity_is_compared_only_after_the_full_cursor_scan_def
      complete_chain_scan_def Let_def)

subsection \<open>The nonce cache\<close>

text \<open>The tests of the per-batch map: \<open>nonces.get_mut(&key).unwrap()\<close>, its expected value, and
  \<open>*slot += 1\<close>.\<close>

definition expect_slot :: "nonce_key \<Rightarrow> u64 \<Rightarrow> nonce_map \<Rightarrow> unit exec" where
  "expect_slot key expected nonces =
     (case nonces key of None \<Rightarrow> Panic | Some slot \<Rightarrow> ensure (slot = expected))"

definition bump_slot :: "nonce_key \<Rightarrow> u64 \<Rightarrow> nonce_map \<Rightarrow> nonce_map exec" where
  "bump_slot key expected nonces =
     exec_bind (expect_slot key expected nonces) (\<lambda>_.
     exec_bind (checked_plus expected 1) (\<lambda>next_nonce. Return (nonces(key \<mapsto> next_nonce))))"

definition per_batch_nonce_map_is_consecutive_and_chain_isolated :: "unit exec" where
  "per_batch_nonce_map_is_consecutive_and_chain_isolated =
     (let pubkey = replicate 32 0xAB;
          enjin_matrix = (Enjin, Matrix, pubkey);
          canary_matrix = (Canary, Matrix, pubkey);
          enjin_relay = (Enjin, Relay, pubkey)
      in exec_bind (fold_exec (bump_slot enjin_matrix) [0, 1, 2, 3, 4, 5]
           (Map.empty(enjin_matrix \<mapsto> 0, canary_matrix \<mapsto> 0, enjin_relay \<mapsto> 0))) (\<lambda>nonces.
         exec_bind (expect_slot enjin_matrix 6 nonces) (\<lambda>_.
         exec_bind (bump_slot canary_matrix 0 nonces) (\<lambda>nonces.
         exec_bind (expect_slot canary_matrix 1 nonces) (\<lambda>_.
         exec_bind (expect_slot enjin_matrix 6 nonces) (\<lambda>_.
         exec_bind (bump_slot enjin_relay 0 nonces) (\<lambda>nonces.
         exec_bind (expect_slot enjin_relay 1 nonces) (\<lambda>_.
         expect_slot enjin_matrix 6 nonces))))))))"

definition nonce_slot_is_not_advanced_on_failure :: "unit exec" where
  "nonce_slot_is_not_advanced_on_failure =
     (let key = (Enjin, Matrix, replicate 32 0)
      in exec_bind (bump_slot key 10 (Map.empty(key \<mapsto> 10))) (\<lambda>nonces.
         exec_bind (expect_slot key 11 nonces) (\<lambda>_.
         exec_bind (bump_slot key 11 nonces) (\<lambda>nonces.
         expect_slot key 12 nonces))))"

definition cache_carry_over_preserves_slot_when_platform_nonce_is_behind :: "unit exec" where
  "cache_carry_over_preserves_slot_when_platform_nonce_is_behind =
     (let key = (Enjin, Matrix, replicate 32 0);
          nonces = rebase_slot key 21 (Map.empty(key \<mapsto> 46))
      in exec_bind (bump_slot key 46 nonces) (\<lambda>nonces. expect_slot key 47 nonces))"

definition cache_rebases_when_platform_corrected_nonce_advances :: "unit exec" where
  "cache_rebases_when_platform_corrected_nonce_advances =
     (let key = (Enjin, Matrix, replicate 32 0);
          nonces = rebase_slot key 35 (Map.empty(key \<mapsto> 30))
      in exec_bind (bump_slot key 35 nonces) (\<lambda>nonces. expect_slot key 36 nonces))"

lemma nonce_map_tests_pass:
  "per_batch_nonce_map_is_consecutive_and_chain_isolated = Return ()"
  "nonce_slot_is_not_advanced_on_failure = Return ()"
  "cache_carry_over_preserves_slot_when_platform_nonce_is_behind = Return ()"
  "cache_rebases_when_platform_corrected_nonce_advances = Return ()"
  by (simp_all add: per_batch_nonce_map_is_consecutive_and_chain_isolated_def
      nonce_slot_is_not_advanced_on_failure_def
      cache_carry_over_preserves_slot_when_platform_nonce_is_behind_def
      cache_rebases_when_platform_corrected_nonce_advances_def
      bump_slot_def expect_slot_def checked_plus_def rebase_slot_def Let_def)

definition evict_idle_chains_drops_only_matching_chains :: bool where
  "evict_idle_chains_drops_only_matching_chains \<longleftrightarrow>
     (let alice = replicate 32 0xAA;
          bob = replicate 32 0xBB;
          nonces = Map.empty((Enjin, Matrix, alice) \<mapsto> 5, (Enjin, Matrix, bob) \<mapsto> 9,
                             (Enjin, Relay, alice) \<mapsto> 12, (Canary, Matrix, alice) \<mapsto> 3);
          nonces = evict_idle_chains nonces {(Enjin, Matrix)}
      in nonces (Enjin, Matrix, alice) = None \<and> nonces (Enjin, Matrix, bob) = None
         \<and> nonces (Enjin, Relay, alice) = Some 12 \<and> nonces (Canary, Matrix, alice) = Some 3
         \<and> card (dom nonces) = 2)"

definition evict_idle_chains_empty_set_is_noop :: bool where
  "evict_idle_chains_empty_set_is_noop \<longleftrightarrow>
     (let nonces = evict_idle_chains (Map.empty((Enjin, Matrix, replicate 32 0) \<mapsto> 7)) {}
      in nonces (Enjin, Matrix, replicate 32 0) = Some 7 \<and> card (dom nonces) = 1)"

definition evict_nonce_keys_drops_only_matching_keys :: bool where
  "evict_nonce_keys_drops_only_matching_keys \<longleftrightarrow>
     (let alice = replicate 32 0xAA;
          bob = replicate 32 0xBB;
          before = Map.empty((Enjin, Matrix, alice) \<mapsto> 31, (Enjin, Relay, alice) \<mapsto> 12,
                             (Enjin, Matrix, bob) \<mapsto> 9, (Canary, Matrix, alice) \<mapsto> 4);
          to_evict = {(Enjin, Matrix, alice), (Enjin, Relay, alice)};
          nonces = evict_nonce_keys before to_evict
      in evicted_entries before nonces = 2
         \<and> nonces (Enjin, Matrix, alice) = None \<and> nonces (Enjin, Relay, alice) = None
         \<and> nonces (Enjin, Matrix, bob) = Some 9 \<and> nonces (Canary, Matrix, alice) = Some 4
         \<and> card (dom nonces) = 2)"

definition evict_nonce_keys_empty_set_is_noop :: bool where
  "evict_nonce_keys_empty_set_is_noop \<longleftrightarrow>
     (let before = Map.empty((Enjin, Matrix, replicate 32 0) \<mapsto> 7);
          nonces = evict_nonce_keys before {}
      in evicted_entries before nonces = 0
         \<and> nonces (Enjin, Matrix, replicate 32 0) = Some 7 \<and> card (dom nonces) = 1)"

text \<open>What an eviction leaves is a map again, so its entries can be counted.\<close>

lemma evicted_map:
  "evict_idle_chains Map.empty idle = Map.empty" "evict_nonce_keys Map.empty ks = Map.empty"
  "evict_idle_chains (m(k \<mapsto> v)) idle =
     (if chain_key_of k \<in> idle then evict_idle_chains m idle else (evict_idle_chains m idle)(k \<mapsto> v))"
  "evict_nonce_keys (m(k \<mapsto> v)) ks =
     (if k \<in> ks then evict_nonce_keys m ks else (evict_nonce_keys m ks)(k \<mapsto> v))"
  by (auto simp: fun_eq_iff evict_idle_lookup evict_keys_lookup)

lemma eviction_tests_pass:
  "evict_idle_chains_drops_only_matching_chains" "evict_idle_chains_empty_set_is_noop"
  "evict_nonce_keys_drops_only_matching_keys" "evict_nonce_keys_empty_set_is_noop"
proof -
  have "replicate 32 (0xAA :: u8) \<noteq> replicate 32 0xBB"
    by (simp add: replicate_eq_replicate)
  then show "evict_idle_chains_drops_only_matching_chains" "evict_idle_chains_empty_set_is_noop"
    "evict_nonce_keys_drops_only_matching_keys" "evict_nonce_keys_empty_set_is_noop"
    by (simp_all add: evict_idle_chains_drops_only_matching_chains_def
        evict_idle_chains_empty_set_is_noop_def evict_nonce_keys_drops_only_matching_keys_def
        evict_nonce_keys_empty_set_is_noop_def evicted_map evicted_entries_def Let_def)
qed

text \<open>The loop of the test, with its two maps.\<close>

definition count_fetch ::
    "nonce_key \<Rightarrow> nonce_key set \<times> (nonce_key \<rightharpoonup> u32) \<Rightarrow> (nonce_key set \<times> (nonce_key \<rightharpoonup> u32)) exec" where
  "count_fetch key = (\<lambda>(refreshed_keys, fetch_count).
     if key \<in> refreshed_keys then Return (refreshed_keys, fetch_count)
     else exec_bind (checked_plus (case fetch_count key of None \<Rightarrow> 0 | Some n \<Rightarrow> n) 1) (\<lambda>n.
          Return (insert key refreshed_keys, fetch_count(key \<mapsto> n))))"

definition seed_loop_fetches_each_key_exactly_once_per_batch :: "unit exec" where
  "seed_loop_fetches_each_key_exactly_once_per_batch =
     (let alice = replicate 32 0xAA;
          bob = replicate 32 0xBB;
          batch = [(Enjin, Matrix, alice), (Enjin, Matrix, alice), (Enjin, Matrix, bob),
                   (Enjin, Matrix, alice), (Canary, Matrix, alice)]
      in exec_bind (fold_exec count_fetch batch ({}, Map.empty)) (\<lambda>(refreshed_keys, fetch_count).
         ensure (fetch_count (Enjin, Matrix, alice) = Some 1
           \<and> fetch_count (Enjin, Matrix, bob) = Some 1 \<and> fetch_count (Canary, Matrix, alice) = Some 1
           \<and> card (dom fetch_count) = 3
           \<and> (\<Sum>k \<in> dom fetch_count. the (fetch_count k)) = 3
           \<and> card refreshed_keys = 3)))"

lemma seed_loop_test_passes: "seed_loop_fetches_each_key_exactly_once_per_batch = Return ()"
proof -
  have "replicate 32 (0xAA :: u8) \<noteq> replicate 32 0xBB" "replicate 32 (0xBB :: u8) \<noteq> replicate 32 0xAA"
    by (simp_all add: replicate_eq_replicate)
  then show ?thesis
    by (simp add: seed_loop_fetches_each_key_exactly_once_per_batch_def count_fetch_def Let_def
        checked_plus_def insert_commute)
qed

subsection \<open>The channel of the transaction worker\<close>

text \<open>An empty tick sent to a processor that is gone, and to one that panics on it.\<close>

definition empty_tick :: "transaction_request list \<times> chain_key set" where
  "empty_tick = ([], {})"

definition send_tick_and_wait_returns_consumer_gone_when_receiver_dropped :: bool where
  "send_tick_and_wait_returns_consumer_gone_when_receiver_dropped \<longleftrightarrow>
     (let (answer, processor) = answer_tick (\<lambda>_ _ _. Panic) () empty_tick (None :: unit option)
      in send_tick_and_wait answer = Inl ConsumerGone)"

definition send_tick_and_wait_returns_ack_dropped_when_consumer_drops_ack :: bool where
  "send_tick_and_wait_returns_ack_dropped_when_consumer_drops_ack \<longleftrightarrow>
     (let (answer, processor) = answer_tick (\<lambda>_ _ _. Panic) () empty_tick (Some ())
      in send_tick_and_wait answer = Inl AckDropped)"

lemma channel_tests_pass:
  "send_tick_and_wait_returns_consumer_gone_when_receiver_dropped"
  "send_tick_and_wait_returns_ack_dropped_when_consumer_drops_ack"
  by (simp_all add: send_tick_and_wait_returns_consumer_gone_when_receiver_dropped_def
      send_tick_and_wait_returns_ack_dropped_when_consumer_drops_ack_def)

subsection \<open>The managed-wallet poller\<close>

definition a_failed_submission_keeps_draining_the_remaining_pages :: bool where
  "a_failed_submission_keeps_draining_the_remaining_pages \<longleftrightarrow>
     wallet_step WalletsFailed (Some ''page-2'') False False
       = DelayThenFetch (Some ''page-2'') True ''Managed-wallet batch submission failed''"

definition a_failed_submission_on_the_final_page_restarts_from_the_head :: bool where
  "a_failed_submission_on_the_final_page_restarts_from_the_head \<longleftrightarrow>
     wallet_step WalletsFailed None False False
       = DelayThenFetch None False ''Managed-wallet batch submission failed''"

definition a_completed_page_continues_the_scan_without_a_delay :: bool where
  "a_completed_page_continues_the_scan_without_a_delay \<longleftrightarrow>
     wallet_step WalletsCompleted (Some ''page-2'') False False = ContinueScan (Some ''page-2'') False True True"

definition a_completed_final_page_parks_until_the_next_trigger :: bool where
  "a_completed_final_page_parks_until_the_next_trigger \<longleftrightarrow>
     wallet_step WalletsCompleted None False False = ContinueScan None False True False"

definition work_arriving_during_the_scan_re_scans_immediately :: "unit exec" where
  "work_arriving_during_the_scan_re_scans_immediately =
     (case wallet_step WalletsCompleted None False True of
        ContinueScan _ _ _ fetch \<Rightarrow> ensure fetch | DelayThenFetch _ _ _ \<Rightarrow> Panic)"

definition a_completed_page_does_not_clear_the_backoff_owed_by_the_scan :: "unit exec" where
  "a_completed_page_does_not_clear_the_backoff_owed_by_the_scan =
     (case wallet_step WalletsCompleted (Some ''page-3'') True False of
        ContinueScan _ restart reset _ \<Rightarrow> exec_bind (ensure (\<not> reset)) (\<lambda>_. ensure restart)
      | DelayThenFetch _ _ _ \<Rightarrow> Panic)"

definition a_scan_that_owes_a_retry_pauses_before_restarting :: bool where
  "a_scan_that_owes_a_retry_pauses_before_restarting \<longleftrightarrow>
     wallet_step WalletsCompleted None True False
       = DelayThenFetch None False ''Managed-wallet scan left pending work''"

text \<open>One round of the loop: the flag and the number of delays.\<close>

definition scan_round :: "wallet_outcome \<times> string option \<Rightarrow> bool \<times> nat \<Rightarrow> (bool \<times> nat) exec" where
  "scan_round = (\<lambda>(outcome, next_page) (restart, delays).
     case wallet_step outcome next_page restart False of
       ContinueScan _ next_restart reset _ \<Rightarrow>
         exec_bind (ensure (\<not> reset)) (\<lambda>_. Return (next_restart, delays))
     | DelayThenFetch _ next_restart _ \<Rightarrow> Return (next_restart, delays + 1))"

definition backoff_escalates_across_a_multi_page_scan_with_one_bad_page :: "unit exec" where
  "backoff_escalates_across_a_multi_page_scan_with_one_bad_page =
     exec_bind (fold_exec scan_round
       [(WalletsFailed, Some ''page-2''), (WalletsCompleted, Some ''page-3''), (WalletsCompleted, None)]
       (False, 0)) (\<lambda>(restart, delays).
     exec_bind (ensure (delays = 2)) (\<lambda>_. ensure (\<not> restart)))"

definition an_empty_scan_with_nothing_skipped_resets_the_backoff :: bool where
  "an_empty_scan_with_nothing_skipped_resets_the_backoff \<longleftrightarrow>
     empty_scan_step False False = ContinueScan None False True False"

definition an_empty_scan_that_skipped_rows_pauses_before_retrying :: bool where
  "an_empty_scan_that_skipped_rows_pauses_before_retrying \<longleftrightarrow>
     empty_scan_step True False
       = DelayThenFetch None False ''Managed-wallet scan skipped unconvertible rows''"

definition an_empty_scan_honours_a_notification_that_arrived_during_it :: "unit exec" where
  "an_empty_scan_honours_a_notification_that_arrived_during_it =
     (case empty_scan_step False True of
        ContinueScan _ _ _ fetch \<Rightarrow> ensure fetch | DelayThenFetch _ _ _ \<Rightarrow> Panic)"

lemmas wallet_test_defs = a_failed_submission_keeps_draining_the_remaining_pages_def
  a_failed_submission_on_the_final_page_restarts_from_the_head_def
  a_completed_page_continues_the_scan_without_a_delay_def
  a_completed_final_page_parks_until_the_next_trigger_def
  work_arriving_during_the_scan_re_scans_immediately_def
  a_completed_page_does_not_clear_the_backoff_owed_by_the_scan_def
  a_scan_that_owes_a_retry_pauses_before_restarting_def
  backoff_escalates_across_a_multi_page_scan_with_one_bad_page_def
  an_empty_scan_with_nothing_skipped_resets_the_backoff_def
  an_empty_scan_that_skipped_rows_pauses_before_retrying_def
  an_empty_scan_honours_a_notification_that_arrived_during_it_def

lemma wallet_step_tests_pass:
  "a_failed_submission_keeps_draining_the_remaining_pages"
  "a_failed_submission_on_the_final_page_restarts_from_the_head"
  "a_completed_page_continues_the_scan_without_a_delay"
  "a_completed_final_page_parks_until_the_next_trigger"
  "work_arriving_during_the_scan_re_scans_immediately = Return ()"
  "a_completed_page_does_not_clear_the_backoff_owed_by_the_scan = Return ()"
  "a_scan_that_owes_a_retry_pauses_before_restarting"
  "backoff_escalates_across_a_multi_page_scan_with_one_bad_page = Return ()"
  "an_empty_scan_with_nothing_skipped_resets_the_backoff"
  "an_empty_scan_that_skipped_rows_pauses_before_retrying"
  "an_empty_scan_honours_a_notification_that_arrived_during_it = Return ()"
  by (simp_all add: wallet_test_defs wallet_step_def empty_scan_step_def scan_round_def)

subsection \<open>Wallet identities\<close>

text \<open>The derived key of an external id, below the key pair of the test mnemonic, which is an argument.\<close>

definition derived_public_key :: "('meta, 'cab, 'tx, 'kp) chain_lib \<Rightarrow> 'kp \<Rightarrow> string \<Rightarrow> string" where
  "derived_public_key lib test_keypair eid =
     ''0x'' @ hex_encode lib (public_key_of lib (derive_soft lib test_keypair (derive_junction eid)))"

definition numeric_and_textual_external_ids_derive_differently :: bool where
  "numeric_and_textual_external_ids_derive_differently \<longleftrightarrow>
     derive_junction ''42'' \<noteq> derive_junction ''wallet-1''
     \<and> derive_junction ''42'' = SoftInt 42
     \<and> derive_junction ''wallet-1'' = SoftStr ''wallet-1''"

definition an_out_of_range_numeric_id_falls_back_to_string_derivation ::
    "('meta, 'cab, 'tx, 'kp) chain_lib \<Rightarrow> 'kp \<Rightarrow> bool" where
  "an_out_of_range_numeric_id_falls_back_to_string_derivation lib test_keypair \<longleftrightarrow>
     (let huge = ''99999999999999999999999''
      in derive_junction huge = SoftStr huge \<and> derived_public_key lib test_keypair huge \<noteq> [])"

definition a_derived_wallet_is_not_the_daemon_key_itself ::
    "('meta, 'cab, 'tx, 'kp) chain_lib \<Rightarrow> 'kp \<Rightarrow> bool" where
  "a_derived_wallet_is_not_the_daemon_key_itself lib test_keypair \<longleftrightarrow>
     derived_public_key lib test_keypair ''42'' \<noteq> ''0x'' @ hex_encode lib (public_key_of lib test_keypair)"

lemma junction_tests_pass:
  "numeric_and_textual_external_ids_derive_differently"
  "an_out_of_range_numeric_id_falls_back_to_string_derivation lib test_keypair"
proof -
  have "derive_junction ''42'' = SoftInt 42" "derive_junction ''wallet-1'' = SoftStr ''wallet-1''"
    "derive_junction ''99999999999999999999999'' = SoftStr ''99999999999999999999999''"
    by (simp_all add: derive_junction_def parse_i64_def digit_value_def)
  then show "numeric_and_textual_external_ids_derive_differently"
    "an_out_of_range_numeric_id_falls_back_to_string_derivation lib test_keypair"
    by (simp_all add: numeric_and_textual_external_ids_derive_differently_def
        an_out_of_range_numeric_id_falls_back_to_string_derivation_def derived_public_key_def Let_def)
qed

text \<open>A soft derivation gives another key, and different keys have different texts.\<close>

lemma derived_wallet_test_passes:
  assumes "public_key_of lib (derive_soft lib test_keypair (SoftInt 42)) \<noteq> public_key_of lib test_keypair"
    and "inj (hex_encode lib)"
  shows "a_derived_wallet_is_not_the_daemon_key_itself lib test_keypair"
proof -
  have "derive_junction ''42'' = SoftInt 42"
    by (simp add: derive_junction_def parse_i64_def digit_value_def)
  then show ?thesis
    using assms by (simp add: a_derived_wallet_is_not_the_daemon_key_itself_def derived_public_key_def inj_eq)
qed

subsection \<open>The channel of the wallet worker and its rows\<close>

definition a_dropped_processor_is_a_fatal_error_rather_than_a_silent_stall :: "unit exec" where
  "a_dropped_processor_is_a_fatal_error_rather_than_a_silent_stall =
     (case send_batch_and_wait ReceiverDropped of
        Inr outcome \<Rightarrow> Panic | Inl e \<Rightarrow> ensure (text_contains e ''receiver dropped''))"

definition a_processor_that_abandons_a_batch_is_a_fatal_error :: "unit exec" where
  "a_processor_that_abandons_a_batch_is_a_fatal_error =
     (case send_batch_and_wait BatchAckDropped of
        Inr outcome \<Rightarrow> Panic | Inl e \<Rightarrow> ensure (text_contains e ''acknowledgement''))"

definition a_row_without_an_external_id_is_rejected_rather_than_derived :: "unit exec" where
  "a_row_without_an_external_id_is_rejected_rather_than_derived =
     exec_bind (ensure (isl (derive_wallet_request_try_from \<lparr>row_external_id = None\<rparr>))) (\<lambda>_.
     exec_bind (expect (derive_wallet_request_try_from \<lparr>row_external_id = Some ''wallet-1''\<rparr>)) (\<lambda>request.
     ensure (dw_external_id request = ''wallet-1'')))"

lemma wallet_channel_tests_pass:
  "a_dropped_processor_is_a_fatal_error_rather_than_a_silent_stall = Return ()"
  "a_processor_that_abandons_a_batch_is_a_fatal_error = Return ()"
  "a_row_without_an_external_id_is_rejected_rather_than_derived = Return ()"
proof -
  have "''managed-wallet processor receiver dropped'' = ''managed-wallet processor '' @ ''receiver dropped'' @ []"
    "''managed-wallet processor dropped batch acknowledgement''
       = ''managed-wallet processor dropped batch '' @ ''acknowledgement'' @ []" by simp_all
  then have "text_contains ''managed-wallet processor receiver dropped'' ''receiver dropped''"
    "text_contains ''managed-wallet processor dropped batch acknowledgement'' ''acknowledgement''"
    unfolding text_contains_def sublist_def by blast+
  then show "a_dropped_processor_is_a_fatal_error_rather_than_a_silent_stall = Return ()"
    "a_processor_that_abandons_a_batch_is_a_fatal_error = Return ()"
    "a_row_without_an_external_id_is_rejected_rather_than_derived = Return ()"
    by (simp_all only: a_dropped_processor_is_a_fatal_error_rather_than_a_silent_stall_def
        a_processor_that_abandons_a_batch_is_a_fatal_error_def
        a_row_without_an_external_id_is_rejected_rather_than_derived_def send_batch_and_wait_def)
      (simp_all add: derive_wallet_request_try_from_def)
qed

end
