(* ===== verification/Connection_Tests.thy ===== *)
theory Connection_Tests
  imports Pusher_Session Env_Loader
begin

text \<open>
  The tests of \<open>src/src/websocket.rs\<close>, \<open>src/src/platform_client.rs\<close> and \<open>src/src/env_loader.rs\<close>, run
  on the model. A definition holds the assertions of a test, under the test's name, and a lemma says
  that they hold. What \<open>serde_json\<close> makes of a test's literals is a hypothesis of the lemma.
\<close>

subsection \<open>Messages\<close>

definition decodes_json_encoded_pusher_protocol_payloads :: "pusher_lib \<Rightarrow> string \<Rightarrow> unit exec" where
  "decodes_json_encoded_pusher_protocol_payloads lib text =
     exec_bind (expect (decode_data lib (JStr text))) (\<lambda>established.
     ensure (socket_id established = ''1.2'' \<and> activity_timeout_secs established = 30))"

lemma decodes_test_passes:
  "parse_established lib text = Inr \<lparr>socket_id = ''1.2'', activity_timeout_secs = 30\<rparr>
   \<Longrightarrow> decodes_json_encoded_pusher_protocol_payloads lib text = Return ()"
  by (simp add: decodes_json_encoded_pusher_protocol_payloads_def decode_data_def)

text \<open>An event of the server: the text it sends, and what the crate reads it as.\<close>

definition application_event :: "pusher_lib \<Rightarrow> string \<Rightarrow> string \<Rightarrow> incoming" where
  "application_event lib event channel =
     Got (TextMsg (json_to_string lib (JObj [(''event'', JStr event), (''channel'', JStr channel),
            (''data'', JNull)]))) (Inr ())"

definition reads_events :: "pusher_lib \<Rightarrow> bool" where
  "reads_events lib \<longleftrightarrow>
     (\<forall>event channel. parse_frame lib (json_to_string lib (JObj [(''event'', JStr event),
          (''channel'', JStr channel), (''data'', JNull)]))
        = Inr \<lparr>pf_event = event, pf_channel = Some channel, pf_data = JNull\<rparr>)"

definition application_event_payload_is_not_required_for_notification :: "pusher_lib \<Rightarrow> unit exec" where
  "application_event_payload_is_not_required_for_notification lib =
     exec_bind (expect (parse_frame lib (json_to_string lib (JObj [(''event'', JStr ''TransactionCreated''),
        (''channel'', JStr ''private-daemon''), (''data'', JNull)])))) (\<lambda>frame.
     ensure (pf_event frame = ''TransactionCreated''))"

lemma application_event_test_passes:
  "reads_events lib \<Longrightarrow> application_event_payload_is_not_required_for_notification lib = Return ()"
  by (simp add: application_event_payload_is_not_required_for_notification_def reads_events_def)

subsection \<open>Routing\<close>

text \<open>The two triggers after what a listening connection does.\<close>

fun trigger_action :: "listen_action \<Rightarrow> trigger_state \<times> trigger_state \<Rightarrow> trigger_state \<times> trigger_state" where
  "trigger_action (TransactionEvent now) (t, w) = (record_event now t, w)"
| "trigger_action (WalletEvent now) (t, w) = (t, record_event now w)"
| "trigger_action (Outgoing out) (t, w) = (t, w)"

definition ready_within :: "duration \<Rightarrow> instant \<Rightarrow> trigger_state \<Rightarrow> bool" where
  "ready_within limit now s \<longleftrightarrow>
     wait_until_ready ((now, s) # (case debounce_deadline s of
        Some d \<Rightarrow> if d \<le> now + limit then [(d, s)] else [] | None \<Rightarrow> [])) \<noteq> None"

text \<open>The server sends its three events and closes; the waits between them are those of the test.\<close>

definition listen_routes_only_matching_channel_events_to_the_corresponding_trigger ::
    "pusher_lib \<Rightarrow> instant \<Rightarrow> instant \<Rightarrow> instant \<Rightarrow> instant \<Rightarrow> bool" where
  "listen_routes_only_matching_channel_events_to_the_corresponding_trigger lib t1 t2 t3 t4 \<longleftrightarrow>
     (let ms = from_millis;
          hear = (\<lambda>item now st. listen lib (from_secs 60) ''private-daemon'' [(Incoming item, now)] st);
          (actions1, r1) = hear (application_event lib ''TransactionCreated'' ''private-other'') t1
                             (start_listening (from_secs 60) 0);
          (transaction1, wallet1) = fold trigger_action actions1 (new_trigger, new_trigger)
      in \<not> ready_within (ms 750) t1 transaction1 \<and> \<not> ready_within (ms 50) t1 wallet1
       \<and> (case r1 of Inl e \<Rightarrow> False | Inr st1 \<Rightarrow>
     (let (actions2, r2) = hear (application_event lib ''TransactionCreated'' ''private-daemon'') t2 st1;
          (transaction2, wallet2) = fold trigger_action actions2 (transaction1, wallet1)
      in ready_within (from_secs 2) t2 transaction2 \<and> \<not> ready_within (ms 50) t2 wallet2
       \<and> (case r2 of Inl e \<Rightarrow> False | Inr st2 \<Rightarrow>
     (let (actions3, r3) = hear (application_event lib ''ManagedWalletRequested'' ''private-daemon'') t3 st2;
          (transaction3, wallet3) = fold trigger_action actions3
            (finish_empty_lookup (begin_fresh_lookup transaction2), wallet2)
      in ready_within (from_secs 2) t3 wallet3 \<and> \<not> ready_within (ms 50) t3 transaction3
       \<and> (case r3 of Inl e \<Rightarrow> False | Inr st3 \<Rightarrow>
            isl (snd (hear (Got (CloseMsg ''None'') (Inr ())) t4 st3))))))))"

lemma routing_test_passes:
  assumes "reads_events lib"
  shows "listen_routes_only_matching_channel_events_to_the_corresponding_trigger lib t1 t2 t3 t4"
  using assms
  by (simp add: listen_routes_only_matching_channel_events_to_the_corresponding_trigger_def
      reads_events_def application_event_def listen_step_def handle_frame_def start_listening_def
      ready_within_def wait_until_ready_step_def trigger_ready_def trigger_op_defs new_trigger_def
      trigger_consts from_millis_def from_secs_def saturating_add_def min_def word_le_nat_alt)

subsection \<open>Errors\<close>

definition leaked_auth :: string where
  "leaked_auth =
     ''8ab7ab8c519e8f59b635:0d1f4a9c7b3e2d5a8f6c0b9e4d7a2c5f8b1e3d6a9c2f5b8e1d4a7c0f3b6e9d2a''"

definition pusher_errors_report_the_code_without_echoing_the_submitted_auth :: "pusher_lib \<Rightarrow> bool" where
  "pusher_errors_report_the_code_without_echoing_the_submitted_auth lib \<longleftrightarrow>
     (let error = pusher_error lib (JObj [(''code'', JInt 4009), (''message'', JStr
            (''Invalid signature: Expected HMAC SHA256 hex digest of ..., but received '' @ leaked_auth))])
      in text_contains error ''4009'' \<and> \<not> text_contains error leaked_auth)"

definition a_plain_string_pusher_error_keeps_its_message_but_still_redacts :: "pusher_lib \<Rightarrow> bool" where
  "a_plain_string_pusher_error_keeps_its_message_but_still_redacts lib \<longleftrightarrow>
     (let error = pusher_error lib (JStr (''connection refused for '' @ leaked_auth))
      in text_contains error ''connection refused'' \<and> \<not> text_contains error leaked_auth)"

definition pusher_errors_survive_a_missing_code_or_message :: "pusher_lib \<Rightarrow> bool" where
  "pusher_errors_survive_a_missing_code_or_message lib \<longleftrightarrow>
     (let error = pusher_error lib (JObj [])
      in text_contains error ''unknown'' \<and> text_contains error ''no message'')"

definition pusher_errors_decode_json_encoded_payloads :: "pusher_lib \<Rightarrow> string \<Rightarrow> bool" where
  "pusher_errors_decode_json_encoded_payloads lib text \<longleftrightarrow>
     (let error = pusher_error lib (JStr text)
      in text_contains error ''4001'' \<and> text_contains error ''App key not found'')"

definition activity_timeout_is_clamped_at_both_ends :: bool where
  "activity_timeout_is_clamped_at_both_ends \<longleftrightarrow>
     clamp 0 MIN_ACTIVITY_TIMEOUT_SECS MAX_ACTIVITY_TIMEOUT_SECS = 1
     \<and> clamp 120 MIN_ACTIVITY_TIMEOUT_SECS MAX_ACTIVITY_TIMEOUT_SECS = 120
     \<and> clamp (- 1) MIN_ACTIVITY_TIMEOUT_SECS MAX_ACTIVITY_TIMEOUT_SECS = MAX_ACTIVITY_TIMEOUT_SECS"

definition validates_configurable_pusher_components :: bool where
  "validates_configurable_pusher_components \<longleftrightarrow>
     valid_component ''8ab7ab8c519e8f59b635'' \<and> valid_component ''us2''
     \<and> \<not> valid_component [] \<and> \<not> valid_component ''us2/path''"

definition short_lived_subscriptions_preserve_reconnect_escalation :: bool where
  "short_lived_subscriptions_preserve_reconnect_escalation \<longleftrightarrow>
     reconnect_backoff_attempt 5 (MIN_STABLE_SUBSCRIPTION - from_millis 1) = 5"

definition stable_subscriptions_reset_reconnect_escalation :: bool where
  "stable_subscriptions_reset_reconnect_escalation \<longleftrightarrow>
     reconnect_backoff_attempt 5 MIN_STABLE_SUBSCRIPTION = 0"

lemma small_tests_pass:
  "activity_timeout_is_clamped_at_both_ends"
  "validates_configurable_pusher_components"
  "short_lived_subscriptions_preserve_reconnect_escalation"
  "stable_subscriptions_reset_reconnect_escalation"
proof -
  have "(600 :: u64) < - 1" by code_simp
  then show "activity_timeout_is_clamped_at_both_ends"
    by (simp add: activity_timeout_is_clamped_at_both_ends_def clamp_def MIN_ACTIVITY_TIMEOUT_SECS_def
        MAX_ACTIVITY_TIMEOUT_SECS_def word_less_nat_alt unat_max_word)
  show "validates_configurable_pusher_components"
    by (simp add: validates_configurable_pusher_components_def valid_component_def is_ascii_alphanumeric_def)
  show "short_lived_subscriptions_preserve_reconnect_escalation"
    "stable_subscriptions_reset_reconnect_escalation"
    by (simp_all add: short_lived_subscriptions_preserve_reconnect_escalation_def
        stable_subscriptions_reset_reconnect_escalation_def reconnect_backoff_attempt_def
        MIN_STABLE_SUBSCRIPTION_def from_secs_def from_millis_def)
qed

text \<open>The words of the messages, and which of them is redacted.\<close>

lemma redacted_texts:
  "redact_pusher_message (''Invalid signature: Expected HMAC SHA256 hex digest of ..., but received '' @ leaked_auth)
     = ''Invalid signature: Expected HMAC SHA256 hex digest of ..., but received [redacted]''"
  "redact_pusher_message (''connection refused for '' @ leaked_auth) = ''connection refused for [redacted]''"
  "redact_pusher_message ''App key not found'' = ''App key not found''"
  by code_simp+

lemma shown_digits: "digit_char 0 = CHR ''0''" "digit_char 1 = CHR ''1''" "digit_char 4 = CHR ''4''"
    "digit_char 9 = CHR ''9''"
  by code_simp+

lemma shown_codes: "show_int 4009 = ''4009''" "show_int 4001 = ''4001''"
  by (simp_all add: show_int_def show_nat.simps shown_digits shown_digits(2) [simplified])

lemma error_texts:
  "pusher_error lib (JObj [(''code'', JInt 4009), (''message'', JStr
      (''Invalid signature: Expected HMAC SHA256 hex digest of ..., but received '' @ leaked_auth))])
   = ''Pusher protocol error (code 4009): '' @
     ''Invalid signature: Expected HMAC SHA256 hex digest of ..., but received [redacted]''"
  "pusher_error lib (JObj []) = ''Pusher protocol error (code unknown): no message''"
  "parse_value lib (''connection refused for '' @ leaked_auth) = Inl e \<Longrightarrow>
   pusher_error lib (JStr (''connection refused for '' @ leaked_auth))
     = ''Pusher protocol error (code unknown): connection refused for [redacted]''"
  "parse_value lib text = Inr (JObj [(''code'', JInt 4001), (''message'', JStr ''App key not found'')]) \<Longrightarrow>
   pusher_error lib (JStr text) = ''Pusher protocol error (code 4001): App key not found''"
  using redacted_texts
  by (simp_all add: pusher_error_def json_get_def json_as_i64_def json_as_str_def shown_codes Let_def)

lemma contained_texts:
  "text_contains (''Pusher protocol error (code 4009): '' @
     ''Invalid signature: Expected HMAC SHA256 hex digest of ..., but received [redacted]'') ''4009''"
  "\<not> text_contains (''Pusher protocol error (code 4009): '' @
     ''Invalid signature: Expected HMAC SHA256 hex digest of ..., but received [redacted]'') leaked_auth"
  "text_contains ''Pusher protocol error (code unknown): no message'' ''unknown''"
  "text_contains ''Pusher protocol error (code unknown): no message'' ''no message''"
  "text_contains ''Pusher protocol error (code unknown): connection refused for [redacted]''
     ''connection refused''"
  "\<not> text_contains ''Pusher protocol error (code unknown): connection refused for [redacted]'' leaked_auth"
  "text_contains ''Pusher protocol error (code 4001): App key not found'' ''4001''"
  "text_contains ''Pusher protocol error (code 4001): App key not found'' ''App key not found''"
  by code_simp+

lemma error_tests_pass:
  "pusher_errors_report_the_code_without_echoing_the_submitted_auth lib"
  "pusher_errors_survive_a_missing_code_or_message lib"
  "parse_value lib (''connection refused for '' @ leaked_auth) = Inl e \<Longrightarrow>
   a_plain_string_pusher_error_keeps_its_message_but_still_redacts lib"
  "parse_value lib text = Inr (JObj [(''code'', JInt 4001), (''message'', JStr ''App key not found'')]) \<Longrightarrow>
   pusher_errors_decode_json_encoded_payloads lib text"
  by (simp_all only: pusher_errors_report_the_code_without_echoing_the_submitted_auth_def
      pusher_errors_survive_a_missing_code_or_message_def
      a_plain_string_pusher_error_keeps_its_message_but_still_redacts_def
      pusher_errors_decode_json_encoded_payloads_def error_texts contained_texts Let_def simp_thms)

subsection \<open>Redacted authentication\<close>

definition auth_redaction_preserves_character_count_without_exposing_content :: bool where
  "auth_redaction_preserves_character_count_without_exposing_content \<longleftrightarrow>
     (let auth = ''8ab7ab8c519e8f59b635:secret-signature'';
          redacted = redact_auth auth
      in chars_count redacted = chars_count auth \<and> list_all (\<lambda>c. c = CHR ''*'') redacted)"

definition empty_auth_redacts_to_an_empty_string :: bool where
  "empty_auth_redacts_to_an_empty_string \<longleftrightarrow> redact_auth [] = []"

lemma redaction_tests_pass:
  "auth_redaction_preserves_character_count_without_exposing_content"
  "empty_auth_redacts_to_an_empty_string"
  by (simp_all add: auth_redaction_preserves_character_count_without_exposing_content_def
      empty_auth_redacts_to_an_empty_string_def redact_auth_def chars_count_def list_all_iff Let_def)

subsection \<open>The environment file\<close>

text \<open>\<open>lossy\<close> is \<open>String::from_utf8_lossy\<close>. The texts of the tests are ASCII, a code point for each byte.\<close>

definition read_back :: "(bytes \<Rightarrow> string) \<Rightarrow> bytes \<Rightarrow> string" where
  "read_back lossy b =
     (if take 2 b = [0xFF, 0xFE] then decode_utf16 (drop 2 b) from_le_bytes
      else if take 2 b = [0xFE, 0xFF] then decode_utf16 (drop 2 b) from_be_bytes
      else lossy b)"

definition code_points :: "string \<Rightarrow> nat list" where
  "code_points s = map of_char s"

definition utf16_le_bom :: "string \<Rightarrow> bytes" where
  "utf16_le_bom s = [0xFF, 0xFE] @ encode_utf16 to_le_bytes (code_points s)"

definition utf16_be_bom :: "string \<Rightarrow> bytes" where
  "utf16_be_bom s = [0xFE, 0xFF] @ encode_utf16 to_be_bytes (code_points s)"

definition env_text :: string where
  "env_text = ''KEY_PASS=hunter2'' @ [CHR 0x0A] @ ''PLATFORM_KEY=token'' @ [CHR 0x0A]"

definition decodes_utf16_le_with_bom :: "(bytes \<Rightarrow> string) \<Rightarrow> bool" where
  "decodes_utf16_le_with_bom lossy \<longleftrightarrow> read_back lossy (utf16_le_bom env_text) = env_text"

definition decodes_utf16_be_with_bom :: "(bytes \<Rightarrow> string) \<Rightarrow> bool" where
  "decodes_utf16_be_with_bom lossy \<longleftrightarrow> read_back lossy (utf16_be_bom env_text) = env_text"

definition passes_utf8_through_unchanged :: "(bytes \<Rightarrow> string) \<Rightarrow> bool" where
  "passes_utf8_through_unchanged lossy \<longleftrightarrow>
     (let src = ''KEY_PASS=hunter2'' @ [CHR 0x0A] in read_back lossy (string_bytes src) = src)"

definition transcoded_utf16_parses_as_env_pairs ::
    "(string \<Rightarrow> (string \<times> string) result list) \<Rightarrow> (bytes \<Rightarrow> string) \<Rightarrow> unit exec" where
  "transcoded_utf16_parses_as_env_pairs from_read_iter lossy =
     exec_bind (fold_exec (\<lambda>item pairs. exec_bind (expect item) (\<lambda>pair. Return (pairs @ [pair])))
       (from_read_iter (read_back lossy (utf16_le_bom env_text))) []) (\<lambda>pairs.
     ensure (pairs = [(''KEY_PASS'', ''hunter2''), (''PLATFORM_KEY'', ''token'')]))"

definition decodes_odd_length_utf16_with_replacement :: "(bytes \<Rightarrow> string) \<Rightarrow> bool" where
  "decodes_odd_length_utf16_with_replacement lossy \<longleftrightarrow>
     (let out = read_back lossy ([0xFF, 0xFE] @ encode_utf16 to_le_bytes (code_points ''AB'') @ [0x00])
      in prefix ''AB'' out \<and> suffix (utf8_char 0xFFFD) out)"

lemma ascii_text:
  "list_all (\<lambda>c. (of_char c :: nat) < 0x80) s \<Longrightarrow>
   list_all is_scalar (code_points s) \<and> concat (map utf8_char (code_points s)) = s"
  by (induction s) (auto simp: code_points_def is_scalar_def utf8_char_def)

lemma env_text_ascii: "list_all (\<lambda>c. (of_char c :: nat) < 0x80) env_text"
  by (simp add: env_text_def)

lemma transcoding_tests_pass:
  "decodes_utf16_le_with_bom lossy" "decodes_utf16_be_with_bom lossy"
  "decodes_odd_length_utf16_with_replacement lossy"
proof -
  show "decodes_utf16_le_with_bom lossy" "decodes_utf16_be_with_bom lossy"
    using ascii_text [OF env_text_ascii]
    by (simp_all add: decodes_utf16_le_with_bom_def decodes_utf16_be_with_bom_def read_back_def
        utf16_le_bom_def utf16_be_bom_def little.decode_inverse big.decode_inverse)
  have "list_all is_scalar (code_points ''AB'') \<and> concat (map utf8_char (code_points ''AB'')) = ''AB''"
    by (rule ascii_text) simp
  then have "read_back lossy ([0xFF, 0xFE] @ encode_utf16 to_le_bytes (code_points ''AB'') @ [0x00])
      = ''AB'' @ utf8_char 0xFFFD"
    by (simp add: read_back_def little.decode_truncated)
  then show "decodes_odd_length_utf16_with_replacement lossy"
    unfolding decodes_odd_length_utf16_with_replacement_def Let_def by (simp add: suffix_def prefix_def)
qed

lemma utf8_test_passes:
  "lossy (string_bytes (''KEY_PASS=hunter2'' @ [CHR 0x0A])) = ''KEY_PASS=hunter2'' @ [CHR 0x0A] \<Longrightarrow>
   passes_utf8_through_unchanged lossy"
  unfolding passes_utf8_through_unchanged_def Let_def read_back_def
  by (simp add: string_bytes_def)

lemma env_pairs_test_passes:
  assumes "from_read_iter env_text = [Inr (''KEY_PASS'', ''hunter2''), Inr (''PLATFORM_KEY'', ''token'')]"
  shows "transcoded_utf16_parses_as_env_pairs from_read_iter lossy = Return ()"
proof -
  have "read_back lossy (utf16_le_bom env_text) = env_text"
    using transcoding_tests_pass(1) [of lossy] by (simp add: decodes_utf16_le_with_bom_def)
  then show ?thesis using assms by (simp add: transcoded_utf16_parses_as_env_pairs_def)
qed

text \<open>The search, below a temporary directory.\<close>

definition find_dotenv_walks_up_to_ancestor :: "string list \<Rightarrow> bool" where
  "find_dotenv_walks_up_to_ancestor root \<longleftrightarrow>
     find_dotenv_from (\<lambda>p. p = root @ [''.env'']) (root @ [''a'', ''b'']) = Some (root @ [''.env''])"

definition find_dotenv_prefers_nearest :: "string list \<Rightarrow> bool" where
  "find_dotenv_prefers_nearest root \<longleftrightarrow>
     find_dotenv_from (\<lambda>p. p = root @ [''.env''] \<or> p = root @ [''a'', ''.env'']) (root @ [''a'', ''b''])
       = Some (root @ [''a'', ''.env''])"

lemma find_tests_pass: "find_dotenv_walks_up_to_ancestor root" "find_dotenv_prefers_nearest root"
  by (simp_all add: find_dotenv_walks_up_to_ancestor_def find_dotenv_prefers_nearest_def
      find_dotenv_from.simps butlast_append)

end
