(* ===== verification/Seed_Tests.thy ===== *)
theory Seed_Tests
  imports Seed_Safety
begin

text \<open>
  The tests of \<open>src/src/crypto.rs\<close>, \<open>src/src/wallet_loader.rs\<close> and \<open>src/src/importer.rs\<close>, run on the
  model: each is a definition that makes the test's calls and assertions, \<open>Panic\<close> when one fails, and
  a lemma that it passes. The salts and nonces are arguments; what a test takes for granted of the
  crates (that the encryption of a short text succeeds, that other passwords have other keys, that
  a mnemonic is no JSON object, that its URI is valid) is an assumption of its lemma.
\<close>

definition abandon_mnemonic :: string where
  "abandon_mnemonic = concat (replicate 11 ''abandon '') @ ''about''"

definition muscle_mnemonic :: string where
  "muscle_mnemonic = ''muscle wing great bounce arctic guess trim celery budget shock march whale''"

definition quoted :: "string \<Rightarrow> string" where
  "quoted s = [CHR 0x22] @ s @ [CHR 0x22]"

subsection \<open>Encryption\<close>

definition test_encrypt_decrypt_roundtrip :: "crypto_lib \<Rightarrow> bytes \<Rightarrow> bytes \<Rightarrow> unit exec" where
  "test_encrypt_decrypt_roundtrip lib salt nonce =
     exec_bind (encrypt lib salt nonce abandon_mnemonic ''test_password_123'') (\<lambda>encrypted.
     exec_bind (exec_bind (decrypt lib encrypted ''test_password_123'') expect) (\<lambda>decrypted.
     ensure (abandon_mnemonic = decrypted)))"

definition test_wrong_password_fails :: "crypto_lib \<Rightarrow> bytes \<Rightarrow> bytes \<Rightarrow> unit exec" where
  "test_wrong_password_fails lib salt nonce =
     exec_bind (encrypt lib salt nonce ''test seed phrase'' ''correct_password'') (\<lambda>encrypted.
     exec_bind (decrypt lib encrypted ''wrong_password'') (\<lambda>result.
     ensure (isl result)))"

definition test_is_encrypted :: "crypto_lib \<Rightarrow> bytes \<Rightarrow> bytes \<Rightarrow> unit exec" where
  "test_is_encrypted lib salt nonce =
     exec_bind (encrypt lib salt nonce ''abandon abandon abandon'' ''test_password'') (\<lambda>encrypted.
     exec_bind (ensure (is_encrypted_v2 lib encrypted)) (\<lambda>_.
     ensure (\<not> is_encrypted_v2 lib ''abandon abandon abandon'')))"

definition test_serialization_format :: "crypto_lib \<Rightarrow> bytes \<Rightarrow> bytes \<Rightarrow> unit exec" where
  "test_serialization_format lib salt nonce =
     exec_bind (encrypt lib salt nonce ''test seed'' ''test_password'') (\<lambda>encrypted.
     exec_bind (expect (from_json lib encrypted)) (\<lambda>data.
     exec_bind (ensure (version data = VERSION_V2)) (\<lambda>_.
     exec_bind (ensure (ed_salt data \<noteq> None)) (\<lambda>_.
     exec_bind (ensure (ed_nonce data \<noteq> None)) (\<lambda>_.
     ensure (ed_data data \<noteq> []))))))"

definition test_different_salts_produce_different_output ::
    "crypto_lib \<Rightarrow> bytes \<times> bytes \<Rightarrow> bytes \<times> bytes \<Rightarrow> unit exec" where
  "test_different_salts_produce_different_output lib = (\<lambda>(salt1, nonce1) (salt2, nonce2).
     exec_bind (encrypt lib salt1 nonce1 ''same seed'' ''same_password'') (\<lambda>encrypted1.
     exec_bind (encrypt lib salt2 nonce2 ''same seed'' ''same_password'') (\<lambda>encrypted2.
     exec_bind (expect (from_json lib encrypted1)) (\<lambda>data1.
     exec_bind (expect (from_json lib encrypted2)) (\<lambda>data2.
     exec_bind (ensure (ed_salt data1 \<noteq> ed_salt data2)) (\<lambda>_.
     exec_bind (ensure (ed_nonce data1 \<noteq> ed_nonce data2)) (\<lambda>_.
     ensure (ed_data data1 \<noteq> ed_data data2))))))))"

definition test_plain_text_not_detected_as_encrypted :: "crypto_lib \<Rightarrow> unit exec" where
  "test_plain_text_not_detected_as_encrypted lib =
     exec_bind (ensure (\<not> is_encrypted_v2 lib abandon_mnemonic)) (\<lambda>_.
     exec_bind (ensure (\<not> is_encrypted_v2 lib (quoted abandon_mnemonic))) (\<lambda>_.
     ensure (\<not> is_encrypted_v2 lib (abandon_mnemonic @ [CHR 0x0A]))))"

definition test_decrypt_rejects_plain_text :: "crypto_lib \<Rightarrow> unit exec" where
  "test_decrypt_rejects_plain_text lib =
     exec_bind (decrypt lib abandon_mnemonic ''any_password'') (\<lambda>result.
     case result of
       Inr text \<Rightarrow> Panic
     | Inl err \<Rightarrow> ensure (text_contains err ''Invalid JSON'' \<or> text_contains err ''V1 format''))"

definition test_v1_to_v2_migration_with_password_suffix :: "crypto_lib \<Rightarrow> bytes \<Rightarrow> bytes \<Rightarrow> unit exec" where
  "test_v1_to_v2_migration_with_password_suffix lib salt nonce =
     (let secret_with_pass = abandon_mnemonic @ ''///'' @ ''test_password''
      in exec_bind (encrypt lib salt nonce secret_with_pass ''test_password'') (\<lambda>encrypted.
         exec_bind (ensure (is_encrypted_v2 lib encrypted)) (\<lambda>_.
         exec_bind (exec_bind (decrypt lib encrypted ''test_password'') expect) (\<lambda>decrypted.
         ensure (decrypted = secret_with_pass)))))"

definition test_v2_seed_without_password_suffix :: "crypto_lib \<Rightarrow> bytes \<Rightarrow> bytes \<Rightarrow> unit exec" where
  "test_v2_seed_without_password_suffix lib salt nonce =
     exec_bind (encrypt lib salt nonce abandon_mnemonic ''test_password'') (\<lambda>encrypted.
     exec_bind (ensure (is_encrypted_v2 lib encrypted)) (\<lambda>_.
     exec_bind (exec_bind (decrypt lib encrypted ''test_password'') expect) (\<lambda>decrypted.
     exec_bind (ensure (decrypted = abandon_mnemonic)) (\<lambda>_.
     ensure (\<not> text_contains decrypted ''///'')))))"

definition test_v1_migration_preserves_public_key ::
    "('uri, 'kp) wallet_lib \<Rightarrow> bytes \<Rightarrow> bytes \<Rightarrow> unit exec" where
  "test_v1_migration_preserves_public_key lib salt nonce =
     (let secret_with_pass = abandon_mnemonic @ ''///'' @ ''test_password''
      in exec_bind (keypair_of lib secret_with_pass) (\<lambda>old_keypair.
         exec_bind (encrypt (crypto lib) salt nonce secret_with_pass ''test_password'') (\<lambda>encrypted.
         exec_bind (exec_bind (decrypt (crypto lib) encrypted ''test_password'') expect) (\<lambda>decrypted.
         exec_bind (keypair_of lib decrypted) (\<lambda>new_keypair.
         ensure (kp_public lib old_keypair = kp_public lib new_keypair))))))"

text \<open>What is encrypted, is recognised and decrypts.\<close>

lemma encrypted_facts:
  assumes "lawful_crypto lib is_text" "is_text plaintext" "length nonce = NONCE_LEN"
    and "encrypt lib salt nonce plaintext password = Return text"
  shows "is_encrypted_v2 lib text" "decrypt lib text password = Return (Inr plaintext)"
    and "derive_key lib wrong salt \<noteq> derive_key lib password salt
      \<Longrightarrow> \<exists>e. decrypt lib text wrong = Return (Inl e)"
proof -
  note enc = assms(4) [unfolded encrypt_def]
  note D = decrypt_encrypted [OF assms(1-3) enc]
  obtain key where key: "derive_key lib password salt = Inr key"
    using encryptedE [OF enc] by metis
  show "is_encrypted_v2 lib text" by (rule D(1))
  show "decrypt lib text password = Return (Inr plaintext)" using D(2) [of password] key by simp
  show "\<exists>e. decrypt lib text wrong = Return (Inl e)"
    if "derive_key lib wrong salt \<noteq> derive_key lib password salt"
    using D(2) [of wrong] key that by (auto split: sum.splits)
qed

lemma encrypted_format:
  assumes "lawful_crypto lib is_text"
    and "encrypt lib salt nonce plaintext password = Return text"
  obtains key ciphertext where "derive_key lib password salt = Inr key"
    "aead_encrypt lib key nonce (string_bytes plaintext) = Inr ciphertext"
    "from_json lib text = Inr \<lparr>version = VERSION_V2, ed_salt = Some (lib_hex_encode lib salt),
       ed_nonce = Some (lib_hex_encode lib nonce), ed_data = lib_hex_encode lib ciphertext,
       imported = Some False\<rparr>"
  using encryptedE [OF assms(2) [unfolded encrypt_def]] lawful_cryptoD(2) [OF assms(1)] by metis

lemma roundtrip_tests_pass:
  assumes lawful: "lawful_crypto lib is_text" "length nonce = NONCE_LEN"
  shows "\<lbrakk>is_text abandon_mnemonic;
      encrypt lib salt nonce abandon_mnemonic ''test_password_123'' = Return text\<rbrakk>
    \<Longrightarrow> test_encrypt_decrypt_roundtrip lib salt nonce = Return ()"
    and "\<lbrakk>is_text (abandon_mnemonic @ ''///'' @ ''test_password'');
      encrypt lib salt nonce (abandon_mnemonic @ ''///'' @ ''test_password'') ''test_password'' = Return text\<rbrakk>
    \<Longrightarrow> test_v1_to_v2_migration_with_password_suffix lib salt nonce = Return ()"
    and "\<lbrakk>is_text ''test seed phrase'';
      encrypt lib salt nonce ''test seed phrase'' ''correct_password'' = Return text;
      derive_key lib ''wrong_password'' salt \<noteq> derive_key lib ''correct_password'' salt\<rbrakk>
    \<Longrightarrow> test_wrong_password_fails lib salt nonce = Return ()"
    and "\<lbrakk>is_text ''abandon abandon abandon'';
      encrypt lib salt nonce ''abandon abandon abandon'' ''test_password'' = Return text;
      from_json lib ''abandon abandon abandon'' = Inl e\<rbrakk>
    \<Longrightarrow> test_is_encrypted lib salt nonce = Return ()"
  using encrypted_facts [OF lawful(1) _ lawful(2)]
  by (fastforce simp: test_encrypt_decrypt_roundtrip_def test_v1_to_v2_migration_with_password_suffix_def
      test_wrong_password_fails_def test_is_encrypted_def is_encrypted_v2_def Let_def)+

lemma no_slashes: "\<not> text_contains abandon_mnemonic ''///''"
  by code_simp

lemma suffix_test_passes:
  assumes "lawful_crypto lib is_text" "length nonce = NONCE_LEN" "is_text abandon_mnemonic"
    and "encrypt lib salt nonce abandon_mnemonic ''test_password'' = Return text"
  shows "test_v2_seed_without_password_suffix lib salt nonce = Return ()"
  using encrypted_facts [OF assms(1,3,2,4)] assms(4) no_slashes
  by (simp add: test_v2_seed_without_password_suffix_def)

lemma public_key_test_passes:
  assumes "lawful_crypto (crypto lib) is_text" "length nonce = NONCE_LEN"
    and "is_text (abandon_mnemonic @ ''///'' @ ''test_password'')"
    and "encrypt (crypto lib) salt nonce (abandon_mnemonic @ ''///'' @ ''test_password'') ''test_password''
      = Return text"
    and "keypair_of lib (abandon_mnemonic @ ''///'' @ ''test_password'') = Return kp"
  shows "test_v1_migration_preserves_public_key lib salt nonce = Return ()"
  using encrypted_facts [OF assms(1,3,2,4)] assms(4,5)
  by (simp add: test_v1_migration_preserves_public_key_def)

lemma hex_injective:
  "lawful_crypto lib is_text \<Longrightarrow> lib_hex_encode lib a = lib_hex_encode lib b \<longleftrightarrow> a = b"
  using lawful_cryptoD(1) by (metis sum.inject(2))

lemma format_test_passes:
  assumes "lawful_crypto lib is_text"
    and "encrypt lib salt nonce ''test seed'' ''test_password'' = Return text"
    and "\<And>c. lib_hex_encode lib c = [] \<Longrightarrow> c = []"
    and "\<And>k m. aead_encrypt lib k nonce m \<noteq> Inr []"
  shows "test_serialization_format lib salt nonce = Return ()"
proof -
  obtain key c where c: "aead_encrypt lib key nonce (string_bytes ''test seed'') = Inr c"
    "from_json lib text = Inr \<lparr>version = VERSION_V2, ed_salt = Some (lib_hex_encode lib salt),
       ed_nonce = Some (lib_hex_encode lib nonce), ed_data = lib_hex_encode lib c, imported = Some False\<rparr>"
    using encrypted_format [OF assms(1,2)] by blast
  then have "c \<noteq> []" using assms(4) by metis
  then have "lib_hex_encode lib c \<noteq> []" using assms(3) by blast
  then show ?thesis using c(2) assms(2) by (simp add: test_serialization_format_def)
qed

lemma salts_test_passes:
  assumes "lawful_crypto lib is_text" "salt1 \<noteq> salt2" "nonce1 \<noteq> nonce2"
    and "encrypt lib salt1 nonce1 ''same seed'' ''same_password'' = Return text1"
    and "encrypt lib salt2 nonce2 ''same seed'' ''same_password'' = Return text2"
    and "\<And>k k' m. aead_encrypt lib k nonce1 m \<noteq> aead_encrypt lib k' nonce2 m"
  shows "test_different_salts_produce_different_output lib (salt1, nonce1) (salt2, nonce2) = Return ()"
proof -
  obtain k1 c1 where 1: "aead_encrypt lib k1 nonce1 (string_bytes ''same seed'') = Inr c1"
    "from_json lib text1 = Inr \<lparr>version = VERSION_V2, ed_salt = Some (lib_hex_encode lib salt1),
       ed_nonce = Some (lib_hex_encode lib nonce1), ed_data = lib_hex_encode lib c1, imported = Some False\<rparr>"
    using encrypted_format [OF assms(1,4)] by blast
  obtain k2 c2 where 2: "aead_encrypt lib k2 nonce2 (string_bytes ''same seed'') = Inr c2"
    "from_json lib text2 = Inr \<lparr>version = VERSION_V2, ed_salt = Some (lib_hex_encode lib salt2),
       ed_nonce = Some (lib_hex_encode lib nonce2), ed_data = lib_hex_encode lib c2, imported = Some False\<rparr>"
    using encrypted_format [OF assms(1,5)] by blast
  have "c1 \<noteq> c2" using 1(1) 2(1) assms(6) by metis
  then show ?thesis
    using 1(2) 2(2) assms(2-5) hex_injective [OF assms(1)]
    by (simp add: test_different_salts_produce_different_output_def)
qed

lemma plain_text_tests_pass:
  "\<lbrakk>from_json lib abandon_mnemonic = Inl e1; from_json lib (quoted abandon_mnemonic) = Inl e2;
    from_json lib (abandon_mnemonic @ [CHR 0x0A]) = Inl e3\<rbrakk>
   \<Longrightarrow> test_plain_text_not_detected_as_encrypted lib = Return ()"
  "from_json lib abandon_mnemonic = Inl e1 \<Longrightarrow> test_decrypt_rejects_plain_text lib = Return ()"
  by (simp_all add: test_plain_text_not_detected_as_encrypted_def test_decrypt_rejects_plain_text_def
      is_encrypted_v2_def decrypt_def map_err_def text_contains_def)

subsection \<open>Resolving the path\<close>

text \<open>An assertion; an absolute path as the text of \<open>SEED_PATH\<close>; a temporary directory, which is new.\<close>

definition assert_io :: "bool \<Rightarrow> unit io" where
  "assert_io b = lift_exec (ensure b)"

definition path_text :: "path \<Rightarrow> string" where
  "path_text p = concat (map (\<lambda>c. CHR ''/'' # c) p)"

definition plain_component :: "string \<Rightarrow> bool" where
  "plain_component c \<longleftrightarrow> c \<noteq> [] \<and> c \<noteq> ''.'' \<and> CHR ''/'' \<notin> set c"

definition temp_dir :: "path \<Rightarrow> world \<Rightarrow> bool" where
  "temp_dir d w \<longleftrightarrow> d \<noteq> [] \<and> list_all plain_component d \<and> set (prefixes d) \<subseteq> dirs w
     \<and> (\<forall>q \<in> set (prefixes d). files w q = None)
     \<and> (\<forall>c cs. files w (d @ c # cs) = None \<and> d @ c # cs \<notin> dirs w)"

definition V1_NAME :: string where
  "V1_NAME = ''73723235'' @ ''a82a0376985e4bdca417ceebc52499664ac78437e5ae074de72907a1b42b643e''"

definition test_resolve_seed_path_directory_with_wallet_seed ::
    "('uri, 'kp) wallet_lib \<Rightarrow> path \<Rightarrow> path \<Rightarrow> unit io" where
  "test_resolve_seed_path_directory_with_wallet_seed lib cwd d =
     and_then (encrypt_seed lib muscle_mnemonic ''test_password'' True) (\<lambda>encrypted.
     and_then (write_file lib (d @ [SEED_FILE]) encrypted) (\<lambda>_.
     and_then (ask (resolve_seed_path cwd (Some (path_text d)))) (\<lambda>result.
     assert_io (result = d))))"

definition test_resolve_seed_path_directory_with_upgradable_seed ::
    "('uri, 'kp) wallet_lib \<Rightarrow> path \<Rightarrow> path \<Rightarrow> unit io" where
  "test_resolve_seed_path_directory_with_upgradable_seed lib cwd d =
     and_then (write_file lib (d @ [V1_NAME]) (quoted muscle_mnemonic)) (\<lambda>_.
     and_then (ask (resolve_seed_path cwd (Some (path_text d)))) (\<lambda>result.
     assert_io (result = d)))"

definition test_resolve_seed_path_directory_empty :: "path \<Rightarrow> path \<Rightarrow> unit io" where
  "test_resolve_seed_path_directory_empty cwd d =
     and_then (ask (resolve_seed_path cwd (Some (path_text d)))) (\<lambda>result. assert_io (result = d))"

definition test_resolve_seed_path_existing_file ::
    "('uri, 'kp) wallet_lib \<Rightarrow> path \<Rightarrow> path \<Rightarrow> unit io" where
  "test_resolve_seed_path_existing_file lib cwd d =
     and_then (encrypt_seed lib muscle_mnemonic ''test_password'' True) (\<lambda>encrypted.
     and_then (write_file lib (d @ [''myseed'']) encrypted) (\<lambda>_.
     and_then (ask (resolve_seed_path cwd (Some (path_text (d @ [''myseed'']))))) (\<lambda>result.
     assert_io (result = d @ [''myseed'']))))"

definition test_resolve_seed_path_nonexistent :: "path \<Rightarrow> path \<Rightarrow> unit io" where
  "test_resolve_seed_path_nonexistent cwd d =
     and_then (ask (resolve_seed_path cwd (Some (path_text (d @ [''nonexistent.seed'']))))) (\<lambda>result.
     assert_io (result = d @ [''nonexistent.seed'']))"

definition test_resolve_seed_path_default_with_wallet_seed ::
    "('uri, 'kp) wallet_lib \<Rightarrow> path \<Rightarrow> unit io" where
  "test_resolve_seed_path_default_with_wallet_seed lib d =
     and_then (encrypt_seed lib muscle_mnemonic ''test_password'' True) (\<lambda>encrypted.
     and_then (write_file lib (d @ [SEED_FILE]) encrypted) (\<lambda>_.
     and_then (ask (resolve_seed_path d None)) (\<lambda>result.
     assert_io (result = d @ [SEED_FILE]))))"

text \<open>What the tests take for granted of the system and of the crates.\<close>

definition working_system :: "('uri, 'kp) wallet_lib \<Rightarrow> (string \<Rightarrow> bool) \<Rightarrow> bool" where
  "working_system lib is_text \<longleftrightarrow>
     (\<forall>operation p. \<not> refused lib operation p) \<and> (\<forall>p. write_fate lib p = Written)
     \<and> (\<forall>n. length (random_nonce lib n) = NONCE_LEN) \<and> lawful_crypto (crypto lib) is_text
     \<and> is_text muscle_mnemonic
     \<and> (\<forall>n m b. is_text m \<longrightarrow> (\<exists>t. encrypt_with_imported (crypto lib) (random_salt lib n)
            (random_nonce lib n) m ''test_password'' b = Return t))
     \<and> (\<forall>n. is_text (generated_mnemonic lib n) \<and> (\<exists>kp. keypair_of lib (generated_mnemonic lib n) = Return kp))
     \<and> (\<exists>kp. keypair_of lib muscle_mnemonic = Return kp)
     \<and> (\<exists>kp. keypair_of lib (muscle_mnemonic @ ''///'' @ ''test_password'') = Return kp)"

lemma working_systemD:
  assumes "working_system lib is_text"
  shows "\<not> refused lib operation p" "write_fate lib p = Written" "length (random_nonce lib n) = NONCE_LEN"
    "lawful_crypto (crypto lib) is_text" "is_text muscle_mnemonic"
    "is_text m \<Longrightarrow> \<exists>t. encrypt_with_imported (crypto lib) (random_salt lib n)
       (random_nonce lib n) m ''test_password'' b = Return t"
    "is_text (generated_mnemonic lib n)" "\<exists>kp. keypair_of lib (generated_mnemonic lib n) = Return kp"
    "\<exists>kp. keypair_of lib muscle_mnemonic = Return kp"
    "\<exists>kp. keypair_of lib (muscle_mnemonic @ ''///'' @ ''test_password'') = Return kp"
  using assms unfolding working_system_def by blast+

lemma sample_system_works: "working_system sample_wallet_lib (\<lambda>s. True)"
  by (simp add: working_system_def sample_encrypts sample_crypto_lawful)

lemma split_on_append:
  "CHR ''/'' \<notin> set c \<Longrightarrow> split_on CHR ''/'' (c @ CHR ''/'' # s) = c # split_on CHR ''/'' s"
  "CHR ''/'' \<notin> set c \<Longrightarrow> split_on CHR ''/'' c = [c]"
  by (induction c) auto

lemma path_of_path_text:
  "list_all plain_component p \<Longrightarrow> path_of_text (path_text p) = p"
proof -
  have "list_all plain_component p \<Longrightarrow> split_on CHR ''/'' (path_text p) = [] # p" for p
  proof (induction p)
    case (Cons c p)
    then show ?case
      by (cases p) (auto simp: path_text_def plain_component_def split_on_append)
  qed (simp add: path_text_def)
  moreover have "list_all plain_component p \<Longrightarrow> filter (\<lambda>c. c \<noteq> [] \<and> c \<noteq> ''.'') p = p"
    by (induction p) (auto simp: plain_component_def)
  ultimately show "list_all plain_component p \<Longrightarrow> path_of_text (path_text p) = p"
    by (simp add: path_of_text_def)
qed

lemma resolve_path_text:
  "\<lbrakk>p \<noteq> []; list_all plain_component p\<rbrakk> \<Longrightarrow> resolve_seed_path cwd (Some (path_text p)) w = p"
  by (cases p) (simp_all add: resolve_seed_path_def path_of_path_text,
      simp add: path_text_def is_absolute_def)

lemma write_new:
  assumes "working_system lib is_text" "d \<in> dirs w" "d @ [c] \<notin> dirs w"
  shows "write_file lib (d @ [c]) content w = (Return (), w\<lparr>files := (files w)(d @ [c] \<mapsto> content)\<rparr>)"
  using assms working_systemD(2) [OF assms(1)] by (simp add: write_file_def is_dir_def parent_def)

lemma encrypt_run:
  assumes "working_system lib is_text" "is_text m"
  obtains t where "encrypt_seed lib m ''test_password'' b w = (Return t, w\<lparr>drawn := drawn w + 1\<rparr>)"
    "stored_keypair lib t ''test_password''
       = keypair_of lib (if b then m @ ''///'' @ ''test_password'' else m)"
    "encrypt_with_imported (crypto lib) (random_salt lib (drawn w)) (random_nonce lib (drawn w))
      m ''test_password'' b = Return t"
proof -
  obtain t where t: "encrypt_with_imported (crypto lib) (random_salt lib (drawn w)) (random_nonce lib (drawn w))
      m ''test_password'' b = Return t"
    using working_systemD(6) [OF assms] by blast
  note L = working_systemD(4) [OF assms(1)] working_systemD(3) [OF assms(1), of "drawn w"]
  obtain key where "derive_key (crypto lib) ''test_password'' (random_salt lib (drawn w)) = Inr key"
    using encryptedE [OF t] by metis
  then have "decrypt (crypto lib) t ''test_password''
      = Return (Inr (if b then m @ ''///'' @ ''test_password'' else m))"
    using decrypt_encrypted(2) [OF L(1) assms(2) L(2) t, of "''test_password''"] by simp
  then have "stored_keypair lib t ''test_password''
      = keypair_of lib (if b then m @ ''///'' @ ''test_password'' else m)"
    by (simp add: stored_keypair_def)
  moreover have "encrypt_seed lib m ''test_password'' b w = (Return t, w\<lparr>drawn := drawn w + 1\<rparr>)"
    using t by (simp add: encrypt_seed_def and_then_def draw_def lift_exec_def)
  ultimately show thesis using that [of t] t by blast
qed

lemma temp_dirD:
  assumes "temp_dir d w"
  shows "d \<in> dirs w" "files w d = None" "d @ [c] \<notin> dirs w" "files w (d @ [c]) = None" "d \<noteq> []"
    "list_all plain_component d" "q \<in> set (prefixes d) \<Longrightarrow> files w q = None" "set (prefixes d) \<subseteq> dirs w"
    "files w (d @ [c, c']) = None" "d @ [c, c'] \<notin> dirs w"
  using assms unfolding temp_dir_def by (auto simp: in_set_prefixes)

lemma temp_dir_drawn: "temp_dir d w \<Longrightarrow> temp_dir d (w\<lparr>drawn := n\<rparr>)"
  by (simp add: temp_dir_def)

lemma assert_run [simp]: "assert_io True w = (Return (), w)" "and_then (assert_io True) f w = f () w"
  by (simp_all add: assert_io_def lift_exec_def and_then_def)

text \<open>A sealed seed or a plain text, written to a file of the directory.\<close>

lemma write_in_temp_dir:
  assumes "working_system lib is_text" "temp_dir d w"
  shows "and_then (write_file lib (d @ [c]) content) f w = f () (w\<lparr>files := (files w)(d @ [c] \<mapsto> content)\<rparr>)"
  by (rule and_then_Return [OF write_new [OF assms(1)]]) (use temp_dirD [OF assms(2)] in auto)

lemma place_seed_run:
  assumes "working_system lib is_text" "temp_dir d w"
  obtains t where
    "\<And>f. and_then (encrypt_seed lib muscle_mnemonic ''test_password'' True) (\<lambda>encrypted.
       and_then (write_file lib (d @ [c]) encrypted) (f encrypted)) w
     = f t () (w\<lparr>drawn := drawn w + 1, files := (files w)(d @ [c] \<mapsto> t)\<rparr>)"
    "stored_keypair lib t ''test_password'' = keypair_of lib (muscle_mnemonic @ ''///'' @ ''test_password'')"
    "\<exists>salt nonce. encrypt_with_imported (crypto lib) salt nonce muscle_mnemonic ''test_password'' True = Return t"
proof -
  obtain t where t:
    "encrypt_seed lib muscle_mnemonic ''test_password'' True w = (Return t, w\<lparr>drawn := drawn w + 1\<rparr>)"
    "stored_keypair lib t ''test_password''
       = keypair_of lib (if True then muscle_mnemonic @ ''///'' @ ''test_password'' else muscle_mnemonic)"
    "encrypt_with_imported (crypto lib) (random_salt lib (drawn w)) (random_nonce lib (drawn w))
      muscle_mnemonic ''test_password'' True = Return t"
    by (rule encrypt_run [OF assms(1) working_systemD(5) [OF assms(1)]])
  note sealed = and_then_Return [of "encrypt_seed lib muscle_mnemonic ''test_password'' True", OF t(1)]
  show thesis
    by (rule that [of t])
      (use t(2,3) write_in_temp_dir [OF assms(1) temp_dir_drawn [OF assms(2)]] in \<open>auto simp add: sealed\<close>)
qed

lemma resolve_in_temp_dir:
  assumes "temp_dir d w" "list_all plain_component cs"
  shows "resolve_seed_path cwd (Some (path_text (d @ cs))) w' = d @ cs"
  using temp_dirD [OF assms(1)] assms(2) by (simp add: resolve_path_text)

lemma plain_names: "plain_component ''myseed''" "plain_component ''nonexistent.seed''"
  by (simp_all add: plain_component_def)

lemma resolve_tests_pass:
  assumes sys: "working_system lib is_text" and temp: "temp_dir d w"
  shows "fst (test_resolve_seed_path_directory_with_wallet_seed lib cwd d w) = Return ()"
    and "fst (test_resolve_seed_path_directory_with_upgradable_seed lib cwd d w) = Return ()"
    and "fst (test_resolve_seed_path_directory_empty cwd d w) = Return ()"
    and "fst (test_resolve_seed_path_existing_file lib cwd d w) = Return ()"
    and "fst (test_resolve_seed_path_nonexistent cwd d w) = Return ()"
    and "fst (test_resolve_seed_path_default_with_wallet_seed lib d w) = Return ()"
proof -
  note R = resolve_in_temp_dir [OF temp, of "[]", simplified] resolve_in_temp_dir [OF temp, of "[_]", simplified]
    plain_names
  obtain t where t: "\<And>f :: string \<Rightarrow> unit \<Rightarrow> unit io. and_then (encrypt_seed lib muscle_mnemonic ''test_password'' True) (\<lambda>encrypted.
       and_then (write_file lib (d @ [SEED_FILE]) encrypted) (f encrypted)) w
     = f t () (w\<lparr>drawn := drawn w + 1, files := (files w)(d @ [SEED_FILE] \<mapsto> t)\<rparr>)"
    by (rule place_seed_run [OF sys temp, where c = SEED_FILE]) (rule that)
  obtain t' where t': "\<And>f :: string \<Rightarrow> unit \<Rightarrow> unit io. and_then (encrypt_seed lib muscle_mnemonic ''test_password'' True) (\<lambda>encrypted.
       and_then (write_file lib (d @ [''myseed'']) encrypted) (f encrypted)) w
     = f t' () (w\<lparr>drawn := drawn w + 1, files := (files w)(d @ [''myseed''] \<mapsto> t')\<rparr>)"
    by (rule place_seed_run [OF sys temp, where c = "''myseed''"]) (rule that)
  show "fst (test_resolve_seed_path_directory_with_wallet_seed lib cwd d w) = Return ()"
    by (simp add: test_resolve_seed_path_directory_with_wallet_seed_def t R)
  show "fst (test_resolve_seed_path_directory_with_upgradable_seed lib cwd d w) = Return ()"
    by (simp add: test_resolve_seed_path_directory_with_upgradable_seed_def write_in_temp_dir [OF sys temp] R)
  show "fst (test_resolve_seed_path_directory_empty cwd d w) = Return ()"
    by (simp add: test_resolve_seed_path_directory_empty_def R)
  show "fst (test_resolve_seed_path_existing_file lib cwd d w) = Return ()"
    by (simp add: test_resolve_seed_path_existing_file_def t' R)
  show "fst (test_resolve_seed_path_nonexistent cwd d w) = Return ()"
    by (simp add: test_resolve_seed_path_nonexistent_def R)
  show "fst (test_resolve_seed_path_default_with_wallet_seed lib d w) = Return ()"
    by (simp add: test_resolve_seed_path_default_with_wallet_seed_def t)
      (simp add: resolve_seed_path_def is_file_def)
qed

subsection \<open>Loading\<close>

text \<open>The file is at its path, with something in it.\<close>

definition nonempty_at :: "path \<Rightarrow> world \<Rightarrow> bool" where
  "nonempty_at p w \<longleftrightarrow> (case files w p of Some content \<Rightarrow> content \<noteq> [] | None \<Rightarrow> False)"

definition test_v1_to_v2_migration :: "('uri, 'kp) wallet_lib \<Rightarrow> path \<Rightarrow> unit io" where
  "test_v1_to_v2_migration lib d =
     and_then (write_file lib (d @ [V1_NAME]) (quoted muscle_mnemonic)) (\<lambda>_.
     and_then (load_seed lib d ''test_password'' False) (\<lambda>keypair.
     and_then (ask (path_exists (d @ [SEED_FILE]))) (\<lambda>migrated.
     and_then (assert_io migrated) (\<lambda>_.
     and_then (ask (path_exists (d @ [V1_NAME]))) (\<lambda>left.
     and_then (assert_io (\<not> left)) (\<lambda>_.
     and_then (load_seed lib d ''test_password'' False) (\<lambda>keypair2.
     assert_io (kp_public lib keypair = kp_public lib keypair2))))))))"

definition test_load_existing_wallet_seed :: "('uri, 'kp) wallet_lib \<Rightarrow> path \<Rightarrow> unit io" where
  "test_load_existing_wallet_seed lib d =
     and_then (encrypt_seed lib muscle_mnemonic ''test_password'' True) (\<lambda>encrypted.
     and_then (write_file lib (d @ [SEED_FILE]) encrypted) (\<lambda>_.
     and_then (load_seed lib d ''test_password'' False) (\<lambda>keypair.
     and_then (write_file lib (d @ [''73723235test'']) (quoted muscle_mnemonic)) (\<lambda>_.
     and_then (load_wallet lib (d @ [''73723235test'']) ''test_password'' Nothing) (\<lambda>keypair_v1.
     assert_io (kp_public lib keypair = kp_public lib keypair_v1))))))"

definition test_load_seed_creates_new_if_not_exists :: "('uri, 'kp) wallet_lib \<Rightarrow> path \<Rightarrow> unit io" where
  "test_load_seed_creates_new_if_not_exists lib d =
     and_then (load_seed lib (d @ [''nonexistent.seed'']) ''test_password'' False) (\<lambda>_.
     and_then (ask (path_exists (d @ [''nonexistent.seed'']))) assert_io)"

definition test_load_seed_specific_file_not_directory :: "('uri, 'kp) wallet_lib \<Rightarrow> path \<Rightarrow> unit io" where
  "test_load_seed_specific_file_not_directory lib d =
     and_then (encrypt_seed lib muscle_mnemonic ''test_password'' True) (\<lambda>encrypted.
     and_then (write_file lib (d @ [SEED_FILE]) encrypted) (\<lambda>_.
     and_then (encrypt_seed lib muscle_mnemonic ''test_password'' True) (\<lambda>custom_encrypted.
     and_then (write_file lib (d @ [''custom.seed'']) custom_encrypted) (\<lambda>_.
     and_then (load_seed lib (d @ [''custom.seed'']) ''test_password'' False) (\<lambda>_.
     and_then (ask (path_exists (d @ [SEED_FILE]))) (\<lambda>kept.
     and_then (assert_io kept) (\<lambda>_.
     and_then (ask (nonempty_at (d @ [SEED_FILE]))) assert_io)))))))"

definition test_write_mnemonic_creates_nonexistent_directory ::
    "('uri, 'kp) wallet_lib \<Rightarrow> path \<Rightarrow> unit io" where
  "test_write_mnemonic_creates_nonexistent_directory lib d =
     (let nonexistent_dir = d @ [''new_directory_that_does_not_exist'']
      in and_then (ask (path_exists nonexistent_dir)) (\<lambda>present.
         and_then (assert_io (\<not> present)) (\<lambda>_.
         and_then (write_mnemonic lib nonexistent_dir ''test_password'' None False) (\<lambda>_.
         and_then (ask (is_dir nonexistent_dir)) (\<lambda>created.
         and_then (assert_io created) (\<lambda>_.
         and_then (ask (path_exists (nonexistent_dir @ [SEED_FILE]))) (\<lambda>written.
         and_then (assert_io written) (\<lambda>_.
         and_then (ask (nonempty_at (nonexistent_dir @ [SEED_FILE]))) assert_io))))))))"

subsection \<open>Importing\<close>

definition test_write_seed_creates_valid_wallet :: "('uri, 'kp) wallet_lib \<Rightarrow> path \<Rightarrow> unit io" where
  "test_write_seed_creates_valid_wallet lib d =
     and_then (write_seed lib muscle_mnemonic d ''test_password'') (\<lambda>_.
     and_then (ask (path_exists (d @ [SEED_FILE]))) (\<lambda>created.
     and_then (assert_io created) (\<lambda>_.
     and_then (read_to_string lib (d @ [SEED_FILE])) (\<lambda>content.
     assert_io (is_encrypted_v2 (crypto lib) content)))))"

definition test_write_seed_roundtrip :: "('uri, 'kp) wallet_lib \<Rightarrow> path \<Rightarrow> unit io" where
  "test_write_seed_roundtrip lib d =
     and_then (write_seed lib muscle_mnemonic d ''test_password'') (\<lambda>_.
     and_then (load_seed lib d ''test_password'' True) (\<lambda>loaded_keypair.
     and_then (load_seed lib d ''test_password'' False) (\<lambda>reloaded_keypair.
     assert_io (kp_public lib loaded_keypair = kp_public lib reloaded_keypair))))"

text \<open>\<open>catch_unwind\<close> makes of a panic an error.\<close>

definition test_write_seed_wrong_password_fails :: "('uri, 'kp) wallet_lib \<Rightarrow> path \<Rightarrow> unit io" where
  "test_write_seed_wrong_password_fails lib d =
     and_then (write_seed lib muscle_mnemonic d ''test_password'') (\<lambda>_ w.
     case load_seed lib d ''wrong_password'' False w of
       (Panic, w') \<Rightarrow> (Return (), w') | (Return kp, w') \<Rightarrow> (Panic, w'))"

definition test_write_seed_produces_correct_addresses :: "('uri, 'kp) wallet_lib \<Rightarrow> path \<Rightarrow> unit io" where
  "test_write_seed_produces_correct_addresses lib d =
     and_then (write_seed lib muscle_mnemonic d ''test_password'') (\<lambda>_.
     and_then (load_seed lib d ''test_password'' False) (\<lambda>keypair.
     and_then (assert_io (prefix ''ef'' (ss58 lib 1110 (kp_public lib keypair)))) (\<lambda>_.
     assert_io (prefix ''cx'' (ss58 lib 9030 (kp_public lib keypair))))))"

subsection \<open>The tests that load and import pass\<close>

lemma runI: "\<lbrakk>m w = (Return v, w1); fst (f v w1) = r\<rbrakk> \<Longrightarrow> fst (and_then m f w) = r"
  by (simp add: and_then_def)

lemma load_stored:
  assumes "working_system lib is_text" "files w p = Some content"
    "stored_keypair lib content key_pass = Return kp"
  obtains w' where "load_wallet lib p key_pass kind w = (Return kp, w')" "files w' = files w" "dirs w' = dirs w"
proof -
  obtain r w' where run: "load_wallet lib p key_pass kind w = (r, w')"
    by (cases "load_wallet lib p key_pass kind w")
  then show thesis
    using that load_wallet_file [OF assms(2) run] assms(3) working_systemD(1) [OF assms(1)] by simp
qed

lemma load_seed_in_dir:
  assumes "is_dir d w" "files w d = None" "files w (d @ [SEED_FILE]) = Some content"
  shows "load_seed lib d key_pass print_seed w
    = load_wallet lib (d @ [SEED_FILE]) key_pass (if print_seed then Seed else Normal) w"
  using assms by (simp add: load_seed_def Let_def path_exists_def is_file_def)

lemma load_seed_of_file:
  "files w p = Some content \<Longrightarrow>
   load_seed lib p key_pass print_seed w = load_wallet lib p key_pass (if print_seed then Seed else Normal) w"
  by (simp add: load_seed_def Let_def path_exists_def is_file_def)

lemma quoted_stripped:
  "trim_matches (\<lambda>c. c = CHR 0x0D) (trim_matches (\<lambda>c. c = CHR 0x0A)
     (trim_matches (\<lambda>c. c = CHR 0x22) (trim (quoted muscle_mnemonic)))) = muscle_mnemonic"
  by code_simp

lemma decrypt_quoted:
  assumes "from_json (crypto lib) muscle_mnemonic = Inl e"
  shows "decrypt_mnemonic lib (quoted muscle_mnemonic) = Return muscle_mnemonic"
  using assms by (simp add: decrypt_mnemonic_def quoted_stripped is_encrypted_v2_def)

lemma v1_stored:
  assumes "from_json (crypto lib) (quoted muscle_mnemonic) = Inl e1"
    "from_json (crypto lib) muscle_mnemonic = Inl e2"
  shows "stored_keypair lib (quoted muscle_mnemonic) key_pass
    = keypair_of lib (muscle_mnemonic @ ''///'' @ key_pass)"
  using assms by (simp add: stored_keypair_def decrypt_def map_err_def decrypt_quoted)

lemma existing_seed_test_passes:
  assumes sys: "working_system lib is_text" and temp: "temp_dir d w"
    and json: "from_json (crypto lib) (quoted muscle_mnemonic) = Inl e1"
      "from_json (crypto lib) muscle_mnemonic = Inl e2"
  shows "fst (test_load_existing_wallet_seed lib d w) = Return ()"
proof -
  let ?v1 = "''73723235test''"
  obtain kp where kp: "keypair_of lib (muscle_mnemonic @ ''///'' @ ''test_password'') = Return kp"
    using working_systemD(10) [OF sys] by blast
  obtain t where t: "\<And>f :: string \<Rightarrow> unit \<Rightarrow> unit io.
     and_then (encrypt_seed lib muscle_mnemonic ''test_password'' True) (\<lambda>encrypted.
       and_then (write_file lib (d @ [SEED_FILE]) encrypted) (f encrypted)) w
     = f t () (w\<lparr>drawn := drawn w + 1, files := (files w)(d @ [SEED_FILE] \<mapsto> t)\<rparr>)"
    "stored_keypair lib t ''test_password'' = Return kp"
    using place_seed_run [OF sys temp, where c = SEED_FILE] kp by metis
  let ?w1 = "w\<lparr>drawn := drawn w + 1, files := (files w)(d @ [SEED_FILE] \<mapsto> t)\<rparr>"
  note T = temp_dirD [OF temp]
  have d: "is_dir d ?w1" "files ?w1 d = None" "files ?w1 (d @ [SEED_FILE]) = Some t"
    using T by (simp_all add: is_dir_def)
  obtain w2 where w2: "load_seed lib d ''test_password'' False ?w1 = (Return kp, w2)"
    "files w2 = files ?w1" "dirs w2 = dirs ?w1"
    unfolding load_seed_in_dir [OF d] by (rule load_stored [OF sys d(3) t(2)])
  let ?w3 = "w2\<lparr>files := (files w2)(d @ [?v1] \<mapsto> quoted muscle_mnemonic)\<rparr>"
  have w3: "write_file lib (d @ [?v1]) (quoted muscle_mnemonic) w2 = (Return (), ?w3)"
    by (rule write_new [OF sys]) (use w2(3) T in simp_all)
  obtain w4 where w4: "load_wallet lib (d @ [?v1]) ''test_password'' Nothing ?w3 = (Return kp, w4)"
    by (rule load_stored [OF sys, of ?w3 "d @ [?v1]" "quoted muscle_mnemonic"])
      (use v1_stored [OF json] kp in simp_all)
  show ?thesis
    unfolding test_load_existing_wallet_seed_def t
    by (rule runI, rule w2(1), rule runI, rule w3, rule runI, rule w4) simp
qed

text \<open>A migration that goes well.\<close>

lemma migrate_run:
  assumes sys: "working_system lib is_text"
    and json: "from_json (crypto lib) (quoted muscle_mnemonic) = Inl e1"
      "from_json (crypto lib) muscle_mnemonic = Inl e2"
    and kp: "keypair_of lib (muscle_mnemonic @ ''///'' @ ''test_password'') = Return kp"
    and w: "files w (d @ [V1_NAME]) = Some (quoted muscle_mnemonic)" "d \<in> dirs w" "d @ [SEED_FILE] \<notin> dirs w"
  obtains t w' where "migrate_v1 lib (d @ [V1_NAME]) ''test_password'' w = (Return (d @ [SEED_FILE]), w')"
    "files w' = (files w)(d @ [SEED_FILE] \<mapsto> t, d @ [V1_NAME] := None)" "dirs w' = dirs w"
    "stored_keypair lib t ''test_password'' = Return kp"
proof -
  have names: "V1_NAME \<noteq> SEED_FILE" by (simp add: V1_NAME_def SEED_FILE_def)
  obtain t where t:
    "encrypt_seed lib muscle_mnemonic ''test_password'' True w = (Return t, w\<lparr>drawn := drawn w + 1\<rparr>)"
    "stored_keypair lib t ''test_password''
       = keypair_of lib (if True then muscle_mnemonic @ ''///'' @ ''test_password'' else muscle_mnemonic)"
    by (rule encrypt_run [OF sys working_systemD(5) [OF sys]])
  let ?w1 = "w\<lparr>drawn := drawn w + 1\<rparr>"
  let ?w2 = "w\<lparr>drawn := drawn w + 1, files := (files w)(d @ [SEED_FILE] \<mapsto> t)\<rparr>"
  have read: "read_to_string lib (d @ [V1_NAME]) w = (Return (quoted muscle_mnemonic), w)"
    using w(1) working_systemD(1) [OF sys] by (simp add: read_to_string_def)
  have plain: "lift_exec (decrypt_mnemonic lib (quoted muscle_mnemonic)) w = (Return muscle_mnemonic, w)"
    using decrypt_quoted [OF json(2)] by (simp add: lift_exec_def)
  have written: "write_file lib (d @ [SEED_FILE]) t ?w1 = (Return (), ?w2)"
    using write_new [OF sys, of d ?w1] w by simp
  obtain w3 where w3: "load_wallet lib (d @ [SEED_FILE]) ''test_password'' Nothing ?w2 = (Return kp, w3)"
    "files w3 = files ?w2" "dirs w3 = dirs ?w2"
    by (rule load_stored [OF sys, of ?w2 "d @ [SEED_FILE]" t]) (use t(2) kp in simp_all)
  obtain w4 where w4: "load_wallet lib (d @ [V1_NAME]) ''test_password'' Nothing w3 = (Return kp, w4)"
    "files w4 = files w3" "dirs w4 = dirs w3"
    by (rule load_stored [OF sys, of w3 "d @ [V1_NAME]" "quoted muscle_mnemonic"])
      (use v1_stored [OF json] kp w3(2) w(1) names in simp_all)
  let ?w5 = "w4\<lparr>files := (files w4)(d @ [V1_NAME] := None)\<rparr>"
  have remove: "remove_file lib (d @ [V1_NAME]) w4 = (Return (), ?w5)"
    using w(1) names w3(2) w4(2) working_systemD(1) [OF sys] by (simp add: remove_file_def is_file_def)
  have "migrate_v1 lib (d @ [V1_NAME]) ''test_password'' w = (Return (d @ [SEED_FILE]), ?w5)"
    unfolding migrate_v1_def
    by (subst and_then_Return, rule read, subst and_then_Return, rule plain, subst and_then_Return, rule t(1))
      (simp add: parent_def and_then_def w3(1) [simplified] w4(1) written [simplified] remove return_io_def)
  then show thesis
    by (rule that) (use w3(2,3) w4(2,3) t(2) kp in simp_all)
qed

lemma migration_test_passes:
  assumes sys: "working_system lib is_text" and temp: "temp_dir d w"
    and json: "from_json (crypto lib) (quoted muscle_mnemonic) = Inl e1"
      "from_json (crypto lib) muscle_mnemonic = Inl e2"
    and listing: "read_dir lib d = Some [Some V1_NAME]"
  shows "fst (test_v1_to_v2_migration lib d w) = Return ()"
proof -
  note T = temp_dirD [OF temp]
  have names: "V1_NAME \<noteq> SEED_FILE" by (simp add: V1_NAME_def SEED_FILE_def)
  obtain kp where kp: "keypair_of lib (muscle_mnemonic @ ''///'' @ ''test_password'') = Return kp"
    using working_systemD(10) [OF sys] by blast
  let ?w1 = "w\<lparr>files := (files w)(d @ [V1_NAME] \<mapsto> quoted muscle_mnemonic)\<rparr>"
  have w1: "write_file lib (d @ [V1_NAME]) (quoted muscle_mnemonic) w = (Return (), ?w1)"
    by (rule write_new [OF sys]) (use T in simp_all)
  obtain t w2 where w2: "migrate_v1 lib (d @ [V1_NAME]) ''test_password'' ?w1 = (Return (d @ [SEED_FILE]), w2)"
    "files w2 = (files ?w1)(d @ [SEED_FILE] \<mapsto> t, d @ [V1_NAME] := None)" "dirs w2 = dirs ?w1"
    "stored_keypair lib t ''test_password'' = Return kp"
    by (rule migrate_run [OF sys json kp, of ?w1 d]) (use T in simp_all)
  have seed: "files w2 (d @ [SEED_FILE]) = Some t" using names w2(2) by simp
  obtain w3 where w3: "load_wallet lib (d @ [SEED_FILE]) ''test_password'' Normal w2 = (Return kp, w3)"
    "files w3 = files w2" "dirs w3 = dirs w2"
    by (rule load_stored [OF sys seed w2(4)])
  have "find_v1 lib d = Some (d @ [V1_NAME])"
    by (simp add: find_v1_def listing is_v1_name_def V1_NAME_def)
  then have load: "load_seed lib d ''test_password'' False ?w1 = (Return kp, w3)"
    using T names w3(1)
    by (simp add: load_seed_def Let_def path_exists_def is_file_def is_dir_def
        and_then_Return [of "migrate_v1 lib (d @ [V1_NAME]) ''test_password''", OF w2(1)])
  have w3': "is_dir d w3" "files w3 d = None" "files w3 (d @ [SEED_FILE]) = Some t"
    "files w3 (d @ [V1_NAME]) = None" "d @ [V1_NAME] \<notin> dirs w3"
    using T names w2(2,3) w3(2,3) seed by (simp_all add: is_dir_def)
  obtain w4 where w4: "load_seed lib d ''test_password'' False w3 = (Return kp, w4)"
    unfolding load_seed_in_dir [OF w3'(1-3)] by (rule load_stored [OF sys w3'(3) w2(4)])
  show ?thesis
    unfolding test_v1_to_v2_migration_def
    by (rule runI, rule w1, rule runI, rule load)
      (use w3' in \<open>simp add: path_exists_def is_file_def is_dir_def
        and_then_Return [of "load_seed lib d ''test_password'' False", OF w4]\<close>)
qed

text \<open>\<open>serde_json\<close> prints an object between braces.\<close>

definition prints_objects :: "crypto_lib \<Rightarrow> bool" where
  "prints_objects lib \<longleftrightarrow> (\<forall>d. \<exists>s. to_json lib d = [CHR 0x7B] @ s @ [CHR 0x7D])"

lemma printed:
  assumes "prints_objects lib" "encrypt_with_imported lib salt nonce m key_pass b = Return t"
  obtains s where "t = [CHR 0x7B] @ s @ [CHR 0x7D]"
  using assms(1) encryptedE [OF assms(2)] unfolding prints_objects_def by metis

lemma specific_file_test_passes:
  assumes sys: "working_system lib is_text" and temp: "temp_dir d w" and json: "prints_objects (crypto lib)"
  shows "fst (test_load_seed_specific_file_not_directory lib d w) = Return ()"
proof -
  note T = temp_dirD [OF temp]
  have names: "SEED_FILE \<noteq> ''custom.seed''" by (simp add: SEED_FILE_def)
  obtain kp where kp: "keypair_of lib (muscle_mnemonic @ ''///'' @ ''test_password'') = Return kp"
    using working_systemD(10) [OF sys] by blast
  obtain t where t: "\<And>f :: string \<Rightarrow> unit \<Rightarrow> unit io.
     and_then (encrypt_seed lib muscle_mnemonic ''test_password'' True) (\<lambda>encrypted.
       and_then (write_file lib (d @ [SEED_FILE]) encrypted) (f encrypted)) w
     = f t () (w\<lparr>drawn := drawn w + 1, files := (files w)(d @ [SEED_FILE] \<mapsto> t)\<rparr>)"
    "\<exists>salt nonce. encrypt_with_imported (crypto lib) salt nonce muscle_mnemonic ''test_password'' True = Return t"
    by (rule place_seed_run [OF sys temp, where c = SEED_FILE]) (rule that)
  then have "t \<noteq> []" using printed [OF json] by blast
  let ?w1 = "w\<lparr>drawn := drawn w + 1, files := (files w)(d @ [SEED_FILE] \<mapsto> t)\<rparr>"
  obtain t' where t': "encrypt_seed lib muscle_mnemonic ''test_password'' True ?w1
      = (Return t', ?w1\<lparr>drawn := drawn ?w1 + 1\<rparr>)"
    "stored_keypair lib t' ''test_password''
       = keypair_of lib (if True then muscle_mnemonic @ ''///'' @ ''test_password'' else muscle_mnemonic)"
    by (rule encrypt_run [OF sys working_systemD(5) [OF sys]])
  let ?w2 = "?w1\<lparr>drawn := drawn ?w1 + 1\<rparr>"
  let ?w3 = "?w2\<lparr>files := (files ?w2)(d @ [''custom.seed''] \<mapsto> t')\<rparr>"
  have w3: "write_file lib (d @ [''custom.seed'']) t' ?w2 = (Return (), ?w3)"
    by (rule write_new [OF sys]) (use T in simp_all)
  have custom: "files ?w3 (d @ [''custom.seed'']) = Some t'" by simp
  obtain w4 where w4: "load_seed lib (d @ [''custom.seed'']) ''test_password'' False ?w3 = (Return kp, w4)"
    "files w4 = files ?w3"
    unfolding load_seed_of_file [OF custom] by (rule load_stored [OF sys custom]) (use t'(2) kp in simp_all)
  have kept: "files w4 (d @ [SEED_FILE]) = Some t"
    using w4(2) names by simp
  show ?thesis
    unfolding test_load_seed_specific_file_not_directory_def t
    by (rule runI, rule t'(1), rule runI, rule w3, rule runI, rule w4(1))
      (use kept \<open>t \<noteq> []\<close> in \<open>simp add: path_exists_def is_file_def nonempty_at_def\<close>)
qed

text \<open>A seed is put where there is none.\<close>

lemma write_mnemonic_run:
  assumes sys: "working_system lib is_text"
    and m: "(case given of Some m \<Rightarrow> return_io m | None \<Rightarrow> draw (generated_mnemonic lib)) w = (Return m, w1)"
      "files w1 = files w" "dirs w1 = dirs w" "is_text m" "keypair_of lib m = Return kp"
    and place: "\<And>w2. \<lbrakk>files w2 = files w; dirs w2 = dirs w\<rbrakk> \<Longrightarrow>
      \<exists>w3. seed_location lib path w2 = (Return (e @ [c]), w3) \<and> files w3 = files w \<and> dirs w3 = D"
    and dir: "set (prefixes e) \<subseteq> D" "\<And>q. q \<in> set (prefixes e) \<Longrightarrow> files w q = None"
      "e @ [c] \<notin> D" "files w (e @ [c]) = None"
  obtains w' t salt nonce where
    "write_mnemonic lib path ''test_password'' given allow w = (Return (m, kp), w')"
    "files w' = (files w)(e @ [c] \<mapsto> t)" "dirs w' = D"
    "encrypt_with_imported (crypto lib) salt nonce m ''test_password'' False = Return t"
    "length nonce = NONCE_LEN" "stored_keypair lib t ''test_password'' = Return kp"
proof -
  obtain t where t: "encrypt_seed lib m ''test_password'' False w1 = (Return t, w1\<lparr>drawn := drawn w1 + 1\<rparr>)"
    "stored_keypair lib t ''test_password''
       = keypair_of lib (if False then m @ ''///'' @ ''test_password'' else m)"
    "encrypt_with_imported (crypto lib) (random_salt lib (drawn w1)) (random_nonce lib (drawn w1))
      m ''test_password'' False = Return t"
    by (rule encrypt_run [OF sys m(4)])
  let ?w2 = "w1\<lparr>drawn := drawn w1 + 1\<rparr>"
  obtain w3 where w3: "seed_location lib path ?w2 = (Return (e @ [c]), w3)" "files w3 = files w" "dirs w3 = D"
    using place [of ?w2] m(2,3) by auto
  have D: "dirs w3 \<union> set (prefixes e) = D" using dir(1) w3(3) by blast
  let ?w4 = "w3\<lparr>dirs := D\<rparr>"
  have create: "create_dir_all lib e w3 = (Return (), ?w4)"
    using dir(2) w3(2) D working_systemD(1) [OF sys]
    by (auto simp: create_dir_all_def is_file_def list_ex_iff)
  let ?w5 = "?w4\<lparr>files := (files ?w4)(e @ [c] \<mapsto> t)\<rparr>"
  have e: "e \<in> D" using dir(1) by (metis in_set_prefixes prefix_order.refl subsetD)
  have written: "write_file lib (e @ [c]) t ?w4 = (Return (), ?w5)"
    by (rule write_new [OF sys]) (use e dir(3) in simp_all)
  have keys: "lift_exec (keypair_of lib m) ?w2 = (Return kp, ?w2)"
    using m(5) by (simp add: lift_exec_def)
  have "write_mnemonic lib path ''test_password'' given allow w = (Return (m, kp), ?w5)"
    unfolding write_mnemonic_def
    by (subst and_then_Return, rule m(1), subst and_then_Return, rule t(1), subst and_then_Return, rule keys,
        subst and_then_Return, rule w3(1),
        simp add: parent_def and_then_Return [of "create_dir_all lib e", OF create] is_file_def w3(2) dir(4)
          and_then_Return [of "write_file lib (e @ [c]) t", OF written [simplified]])
      (simp add: return_io_def w3(2))
  then show thesis
    by (rule that) (use w3(2) t(2,3) m(5) working_systemD(3) [OF sys] in simp_all)
qed

lemma generated_run:
  assumes "working_system lib is_text"
  obtains kp where "(case None of Some m \<Rightarrow> return_io m | None \<Rightarrow> draw (generated_mnemonic lib)) w
      = (Return (generated_mnemonic lib (drawn w)), w\<lparr>drawn := drawn w + 1\<rparr>)"
    "is_text (generated_mnemonic lib (drawn w))"
    "keypair_of lib (generated_mnemonic lib (drawn w)) = Return kp"
  using working_systemD(7,8) [OF assms] by (auto simp: draw_def)

lemma new_seed_test_passes:
  assumes sys: "working_system lib is_text" and temp: "temp_dir d w"
  shows "fst (test_load_seed_creates_new_if_not_exists lib d w) = Return ()"
proof -
  note T = temp_dirD [OF temp]
  let ?p = "d @ [''nonexistent.seed'']"
  obtain kp where g: "(case None of Some m \<Rightarrow> return_io m | None \<Rightarrow> draw (generated_mnemonic lib)) w
      = (Return (generated_mnemonic lib (drawn w)), w\<lparr>drawn := drawn w + 1\<rparr>)"
    "is_text (generated_mnemonic lib (drawn w))" "keypair_of lib (generated_mnemonic lib (drawn w)) = Return kp"
    by (rule generated_run [OF sys])
  have absent: "\<not> path_exists ?p w" "files w ?p = None" using T by (simp_all add: path_exists_def is_file_def is_dir_def)
  have place: "\<exists>w3. seed_location lib ?p w2 = (Return (d @ [''nonexistent.seed'']), w3)
      \<and> files w3 = files w \<and> dirs w3 = dirs w" if "files w2 = files w" "dirs w2 = dirs w" for w2
    using that T by (simp add: seed_location_def is_dir_def path_exists_def is_file_def has_extension_def return_io_def)
  obtain w' t where w': "write_mnemonic lib ?p ''test_password'' None True w
      = (Return (generated_mnemonic lib (drawn w), kp), w')" "files w' = (files w)(?p \<mapsto> t)"
    by (rule write_mnemonic_run [OF sys g(1) _ _ g(2,3) place]) (use T in auto)
  obtain r w'' where run: "load_wallet lib ?p ''test_password'' Normal w = (r, w'')"
    by (cases "load_wallet lib ?p ''test_password'' Normal w")
  then obtain w1 where w1: "get_keys lib ?p ''test_password'' False w = (r, w1)" "files w'' = files w1"
    using load_wallet_quiet_after [OF run] by auto
  have "get_keys lib ?p ''test_password'' False w = (Return kp, w')"
    using absent(2)
    by (simp add: get_keys_def is_file_def and_then_Return [of "write_mnemonic lib ?p ''test_password'' None True", OF w'(1)])
      (simp add: return_io_def)
  then have "r = Return kp" "files w'' ?p = Some t" using w1 w'(2) by simp_all
  moreover have "load_seed lib ?p ''test_password'' False w = load_wallet lib ?p ''test_password'' Normal w"
    using absent(1) by (simp add: load_seed_def Let_def)
  ultimately have "load_seed lib ?p ''test_password'' False w = (Return kp, w'')" using run by simp
  then show ?thesis
    unfolding test_load_seed_creates_new_if_not_exists_def
    by (rule runI) (use \<open>files w'' ?p = Some t\<close> in \<open>simp add: path_exists_def is_file_def\<close>)
qed

lemma new_directory_test_passes:
  assumes sys: "working_system lib is_text" and temp: "temp_dir d w" and json: "prints_objects (crypto lib)"
  shows "fst (test_write_mnemonic_creates_nonexistent_directory lib d w) = Return ()"
proof -
  note T = temp_dirD [OF temp]
  let ?p = "d @ [''new_directory_that_does_not_exist'']"
  let ?D = "dirs w \<union> set (prefixes ?p)"
  obtain kp where g: "(case None of Some m \<Rightarrow> return_io m | None \<Rightarrow> draw (generated_mnemonic lib)) w
      = (Return (generated_mnemonic lib (drawn w)), w\<lparr>drawn := drawn w + 1\<rparr>)"
    "is_text (generated_mnemonic lib (drawn w))" "keypair_of lib (generated_mnemonic lib (drawn w)) = Return kp"
    by (rule generated_run [OF sys])
  have free: "files w q = None" if "q \<in> set (prefixes ?p)" for q using that T by auto
  have place: "\<exists>w3. seed_location lib ?p w2 = (Return (?p @ [SEED_FILE]), w3) \<and> files w3 = files w \<and> dirs w3 = ?D"
    if "files w2 = files w" "dirs w2 = dirs w" for w2
  proof -
    have "create_dir_all lib ?p w2 = (Return (), w2\<lparr>dirs := ?D\<rparr>)"
      using that free working_systemD(1) [OF sys] unfolding create_dir_all_def list_ex_iff is_file_def by auto
    then show ?thesis
      using that T
      by (simp add: seed_location_def is_dir_def path_exists_def is_file_def has_extension_def
          and_then_Return [of "create_dir_all lib ?p"]) (simp add: return_io_def)
  qed
  have new: "?p @ [SEED_FILE] \<notin> ?D" "files w (?p @ [SEED_FILE]) = None"
    using T(9,10) [of "''new_directory_that_does_not_exist''" SEED_FILE] by (auto simp: in_set_prefixes dest: prefix_length_le)
  obtain w' t salt nonce where w': "write_mnemonic lib ?p ''test_password'' None False w
      = (Return (generated_mnemonic lib (drawn w), kp), w')" "files w' = (files w)(?p @ [SEED_FILE] \<mapsto> t)"
    "dirs w' = ?D"
    "encrypt_with_imported (crypto lib) salt nonce (generated_mnemonic lib (drawn w)) ''test_password'' False = Return t"
    by (rule write_mnemonic_run [OF sys g(1) _ _ g(2,3) place _ free new]) (use T in auto)
  have "t \<noteq> []" using printed [OF json w'(4)] by blast
  have "\<not> path_exists ?p w" "is_dir ?p w'" "path_exists (?p @ [SEED_FILE]) w'" "nonempty_at (?p @ [SEED_FILE]) w'"
    using T w'(2,3) \<open>t \<noteq> []\<close> by (simp_all add: path_exists_def is_file_def is_dir_def nonempty_at_def)
  then show ?thesis
    by (simp add: test_write_mnemonic_creates_nonexistent_directory_def Let_def
        and_then_Return [of "write_mnemonic lib ?p ''test_password'' None False", OF w'(1)])
qed

lemma each_line_run: "\<exists>w'. each_line println ls w = (Return (), w') \<and> files w' = files w \<and> dirs w' = dirs w"
proof -
  have "quiet (each_line println ls)" by (intro quiet_intros)
  then show ?thesis using each_line_returns [of ls w] quietD by blast
qed

lemma write_seed_run:
  assumes sys: "working_system lib is_text" and temp: "temp_dir d w"
  obtains w' t kp salt nonce where "write_seed lib muscle_mnemonic d ''test_password'' w = (Return (), w')"
    "files w' = (files w)(d @ [SEED_FILE] \<mapsto> t)" "dirs w' = dirs w"
    "encrypt_with_imported (crypto lib) salt nonce muscle_mnemonic ''test_password'' False = Return t"
    "length nonce = NONCE_LEN" "stored_keypair lib t ''test_password'' = Return kp"
proof -
  note T = temp_dirD [OF temp]
  obtain kp where kp: "keypair_of lib muscle_mnemonic = Return kp"
    using working_systemD(9) [OF sys] by blast
  have given: "(case Some muscle_mnemonic of Some m \<Rightarrow> return_io m | None \<Rightarrow> draw (generated_mnemonic lib)) w
      = (Return muscle_mnemonic, w)" by (simp add: return_io_def)
  have place: "\<exists>w3. seed_location lib d w2 = (Return (d @ [SEED_FILE]), w3) \<and> files w3 = files w \<and> dirs w3 = dirs w"
    if "files w2 = files w" "dirs w2 = dirs w" for w2
    using that T by (simp add: seed_location_def is_dir_def return_io_def)
  obtain w1 t salt nonce where w1:
    "write_mnemonic lib d ''test_password'' (Some muscle_mnemonic) False w = (Return (muscle_mnemonic, kp), w1)"
    "files w1 = (files w)(d @ [SEED_FILE] \<mapsto> t)" "dirs w1 = dirs w"
    "encrypt_with_imported (crypto lib) salt nonce muscle_mnemonic ''test_password'' False = Return t"
    "length nonce = NONCE_LEN" "stored_keypair lib t ''test_password'' = Return kp"
    by (rule write_mnemonic_run [OF sys given _ _ working_systemD(5) [OF sys] kp place])
      (use T in auto)
  obtain w' where w': "each_line println (import_note lib (kp_public lib kp)) w1 = (Return (), w')"
    "files w' = files w1" "dirs w' = dirs w1"
    using each_line_run by blast
  have "write_seed lib muscle_mnemonic d ''test_password'' w = (Return (), w')"
    using w'(1)
    by (simp add: write_seed_def
        and_then_Return [of "write_mnemonic lib d ''test_password'' (Some muscle_mnemonic) False", OF w1(1)])
  then show thesis by (rule that) (use w1 w' in simp_all)
qed

lemma imported_load:
  assumes sys: "working_system lib is_text" and temp: "temp_dir d w"
    and w': "files w' = (files w)(d @ [SEED_FILE] \<mapsto> t)" "dirs w' = dirs w"
    and kp: "stored_keypair lib t ''test_password'' = Return kp"
  obtains w'' where "load_seed lib d ''test_password'' print_seed w' = (Return kp, w'')"
    "files w'' = files w'" "dirs w'' = dirs w'"
proof -
  have d: "is_dir d w'" "files w' d = None" "files w' (d @ [SEED_FILE]) = Some t"
    using temp_dirD [OF temp] w' by (simp_all add: is_dir_def)
  obtain w'' where
    "load_wallet lib (d @ [SEED_FILE]) ''test_password'' (if print_seed then Seed else Normal) w' = (Return kp, w'')"
    "files w'' = files w'" "dirs w'' = dirs w'"
    by (rule load_stored [OF sys d(3) kp])
  then show thesis using that by (simp add: load_seed_in_dir [OF d])
qed

lemma import_tests_pass:
  assumes sys: "working_system lib is_text" and temp: "temp_dir d w"
  shows "fst (test_write_seed_creates_valid_wallet lib d w) = Return ()"
    and "fst (test_write_seed_roundtrip lib d w) = Return ()"
    and "(\<And>k. prefix ''ef'' (ss58 lib 1110 k)) \<Longrightarrow> (\<And>k. prefix ''cx'' (ss58 lib 9030 k))
      \<Longrightarrow> fst (test_write_seed_produces_correct_addresses lib d w) = Return ()"
proof -
  obtain w' t kp salt nonce where w': "write_seed lib muscle_mnemonic d ''test_password'' w = (Return (), w')"
    "files w' = (files w)(d @ [SEED_FILE] \<mapsto> t)" "dirs w' = dirs w"
    "encrypt_with_imported (crypto lib) salt nonce muscle_mnemonic ''test_password'' False = Return t"
    "length nonce = NONCE_LEN" "stored_keypair lib t ''test_password'' = Return kp"
    by (rule write_seed_run [OF sys temp])
  have sealed: "is_encrypted_v2 (crypto lib) t"
    by (rule decrypt_encrypted(1) [OF working_systemD(4) [OF sys] working_systemD(5) [OF sys] w'(5,4)])
  have read: "read_to_string lib (d @ [SEED_FILE]) w' = (Return t, w')"
    using w'(2) working_systemD(1) [OF sys] by (simp add: read_to_string_def)
  show "fst (test_write_seed_creates_valid_wallet lib d w) = Return ()"
    unfolding test_write_seed_creates_valid_wallet_def
    by (rule runI, rule w'(1))
      (use w'(2) sealed in \<open>simp add: path_exists_def is_file_def
        and_then_Return [of "read_to_string lib (d @ [SEED_FILE])", OF read]\<close>)
  obtain w1 where w1: "load_seed lib d ''test_password'' True w' = (Return kp, w1)"
    "files w1 = files w'" "dirs w1 = dirs w'"
    by (rule imported_load [OF sys temp w'(2,3,6)])
  obtain w2 where w2: "load_seed lib d ''test_password'' False w1 = (Return kp, w2)"
    by (rule imported_load [OF sys temp _ _ w'(6), of w1]) (use w1(2,3) w'(2,3) in simp_all)
  show "fst (test_write_seed_roundtrip lib d w) = Return ()"
    unfolding test_write_seed_roundtrip_def
    by (rule runI, rule w'(1), rule runI, rule w1(1), rule runI, rule w2(1)) simp
  obtain w3 where w3: "load_seed lib d ''test_password'' False w' = (Return kp, w3)"
    by (rule imported_load [OF sys temp w'(2,3,6)])
  show "fst (test_write_seed_produces_correct_addresses lib d w) = Return ()"
    if "\<And>k. prefix ''ef'' (ss58 lib 1110 k)" "\<And>k. prefix ''cx'' (ss58 lib 9030 k)"
    unfolding test_write_seed_produces_correct_addresses_def
    by (rule runI, rule w'(1), rule runI, rule w3(1)) (simp add: that)
qed

text \<open>With another password the seed does not open, and is not taken for a plain one.\<close>

lemma braces_not_white:
  "trim ([CHR 0x7B] @ s @ [CHR 0x7D]) = [CHR 0x7B] @ s @ [CHR 0x7D]"
proof -
  have "white_len (CHR 0x7B # x) = 0" "white_len_end (CHR 0x7D # x) = 0" for x
    by (cases "CHR 0x7B # x" rule: white_len.cases; simp add: white1_def white2_def white3_def)
      (cases "CHR 0x7D # x" rule: white_len_end.cases; simp add: white1_def white2_def white3_def)
  then show ?thesis by (simp add: trim_def)
qed

lemma wrong_password_test_passes:
  assumes sys: "working_system lib is_text" and temp: "temp_dir d w" and json: "prints_objects (crypto lib)"
    and keys: "\<And>salt. derive_key (crypto lib) ''wrong_password'' salt \<noteq> derive_key (crypto lib) ''test_password'' salt"
  shows "fst (test_write_seed_wrong_password_fails lib d w) = Return ()"
proof -
  obtain w' t kp salt nonce where w': "write_seed lib muscle_mnemonic d ''test_password'' w = (Return (), w')"
    "files w' = (files w)(d @ [SEED_FILE] \<mapsto> t)" "dirs w' = dirs w"
    "encrypt_with_imported (crypto lib) salt nonce muscle_mnemonic ''test_password'' False = Return t"
    "length nonce = NONCE_LEN" "stored_keypair lib t ''test_password'' = Return kp"
    by (rule write_seed_run [OF sys temp])
  note E = encrypted_facts [OF working_systemD(4) [OF sys] working_systemD(5) [OF sys] w'(5)
      w'(4) [folded encrypt_def]]
  obtain e where e: "decrypt (crypto lib) t ''wrong_password'' = Return (Inl e)" using E(3) keys by blast
  obtain s where "t = [CHR 0x7B] @ s @ [CHR 0x7D]" using printed [OF json w'(4)] by blast
  then have "decrypt_mnemonic lib t = Panic"
    using E(1) braces_not_white [of s] by (simp add: decrypt_mnemonic_def trim_matches_def)
  then have panics: "stored_keypair lib t ''wrong_password'' = Panic"
    using e by (simp add: stored_keypair_def)
  have d: "is_dir d w'" "files w' d = None" "files w' (d @ [SEED_FILE]) = Some t"
    using temp_dirD [OF temp] w'(2,3) by (simp_all add: is_dir_def)
  obtain r w'' where run: "load_wallet lib (d @ [SEED_FILE]) ''wrong_password'' Normal w' = (r, w'')"
    by (cases "load_wallet lib (d @ [SEED_FILE]) ''wrong_password'' Normal w'")
  then have "load_seed lib d ''wrong_password'' False w' = (Panic, w'')"
    using load_wallet_file(3) [OF d(3) run] panics working_systemD(1) [OF sys]
    by (simp add: load_seed_in_dir [OF d])
  then show ?thesis
    unfolding test_write_seed_wrong_password_fails_def by - (rule runI, rule w'(1), simp)
qed

end
