(* ===== verification/Spec2Isabelle.thy ===== *)
theory Spec2Isabelle
  imports Daemon Signed_Extrinsics Retry_Wait Handshake Startup Env_Loader
    Substrate_Tests Trigger_Tests Worker_Tests Connection_Tests Seed_Tests
begin

text \<open>
  A model of the Enjin wallet daemon (\<open>src/src\<close>, Rust) and the theorems that make it correct.

  \<^bold>\<open>The program.\<close> The daemon signs the transactions of a platform account. \<open>main.rs\<close> loads the
  environment and the encrypted seed, registers the account with the platform and runs five tasks for
  the rest of the process: a Pusher connection (\<open>websocket.rs\<close>), and for each of two workers, of
  transactions (\<open>transaction.rs\<close>) and of managed wallets (\<open>wallet.rs\<close>), a poller and a processor. The
  connection notifies the pollers of new work through a trigger each (\<open>work_trigger.rs\<close>); a poller
  fetches pages of pending work by GraphQL, hands each to its processor through a channel of capacity
  one and waits for the acknowledgement; the processor signs and submits. If any task ends, the
  process exits with status 1.

  \<^bold>\<open>Conventions.\<close> A machine integer is a word of its width; Rust's saturating, wrapping and checked
  operations are written out (\<open>Prelude\<close>). A text is the list of its UTF-8 bytes. A \<open>Result\<close> is a sum
  with the error on the left, an \<open>Option\<close> an option, and what may panic has type \<open>exec\<close>. Durations and
  instants are natural numbers of nanoseconds. The state of a task is a record, with the field names
  of the code, passed and returned; an iteration of a loop also returns the list of its actions
  (requests, ticks, pauses), and what it meets (pages, notifications, the jitter drawn, the time) is its
  input, so that a theorem for all inputs covers every behaviour of the platform, of the network and of
  the scheduler.

  \<^bold>\<open>Theories, and the code they model.\<close>
  \<^item> \<open>Prelude\<close>, \<open>Rust_Text\<close>: integers, errors, and the operations of \<open>str\<close> the daemon uses.
  \<^item> \<open>Retry\<close>: \<open>retry.rs\<close>. \<open>Work_Trigger\<close>: \<open>work_trigger.rs\<close>, the trigger (\<open>trigger_state\<close>), its two waits
    and the poll timer. \<open>Retry_Wait\<close>: \<open>wait_for_retry_or_trigger\<close> of both pollers.
  \<^item> \<open>Types\<close>: \<open>types.rs\<close> and the metadata store of \<open>global.rs\<close>. \<open>Enjin_Config\<close>: \<open>substrate_client.rs\<close>.
    \<open>Http_Config\<close>: the HTTP configuration of \<open>global.rs\<close>. \<open>Graphql_Query\<close>: \<open>utils.rs\<close> and
    \<open>platform_client.rs\<close>, from the outcome of a request to a result.
  \<^item> \<open>Chain_Lib\<close>: what the third-party crates compute, as the record \<open>chain_lib\<close> of parameters.
    \<open>Chain_Info\<close>: \<open>chain_info.rs\<close>. \<open>Key_Derivation\<close>: \<open>derive_junction\<close> and \<open>derive_signer\<close>.
  \<^item> \<open>Tx_Request\<close>, \<open>Nonce_Cache\<close>, \<open>Fuel_Tank\<close>, \<open>Tx_Processor\<close>: the transaction processor, from the row of a
    page (\<open>transaction_request_try_from\<close>) through the three loops of \<open>transaction_handler\<close> (prefetch,
    nonce refresh, signing) and \<open>sign_dispatch\<close> of \<open>transaction/fuel_tank.rs\<close> to the submission, and the
    task (\<open>run_processor\<close>). Its state is the nonce cache and the metadata store.
  \<^item> \<open>Scan_Pacing\<close>, \<open>Tx_Poller\<close>: the transaction poller, \<open>start_polling\<close> with \<open>poll_iteration\<close>; the cursor,
    the chains of the scans and the retry state are \<open>poller_state\<close>.
  \<^item> \<open>Wallet_Worker\<close>: \<open>wallet.rs\<close>, poller and processor.
  \<^item> \<open>Handshake\<close>: the channel and the acknowledgement between the two tasks of a worker, as a step
    relation over their interleavings. \<open>Acked_Loop\<close>, \<open>Tx_Worker\<close>, \<open>Wallet_Service\<close>: the two workers
    composed.
  \<^item> \<open>Websocket\<close>: \<open>websocket.rs\<close>, \<open>run_connection\<close> over sessions. \<open>Notices\<close>, \<open>Daemon\<close>: the connection and the
    workers together.
  \<^item> \<open>Crypto\<close>: \<open>crypto.rs\<close>. \<open>Seed_Store\<close>: \<open>wallet_loader.rs\<close> and \<open>importer.rs\<close>, on a file system of files
    and directories (\<open>world\<close>) whose writes can fail or be torn. \<open>Env_Loader\<close>: \<open>env_loader.rs\<close>.
    \<open>Startup\<close>: \<open>main.rs\<close> and \<open>multitenant.rs\<close>.
  \<^item> \<open>Mortal_Era\<close>, \<open>Extrinsic_Check\<close>: the other side of a signature. The tests of \<open>substrate_client.rs\<close> hold
    a reference verifier, which takes an extrinsic apart and checks it as a runtime does; it is modelled
    with the era arithmetic of the runtime, and composed with the daemon's own \<open>build_input\<close>.
  \<^item> \<open>Substrate_Tests\<close>, \<open>Trigger_Tests\<close>, \<open>Worker_Tests\<close>, \<open>Connection_Tests\<close>, \<open>Seed_Tests\<close>: the unit tests of the
    repository, run on the model, each a definition that makes the test's calls and assertions and a
    lemma that it passes.

  \<^bold>\<open>Interfaces.\<close> Each is a locale, interpreted on the model of the code: \<open>work_source\<close> (the trigger, as the
  pollers rely on it), \<open>paced_poller\<close>, \<open>page_scanner\<close>, \<open>acked_poller\<close> and \<open>notified_poller\<close> (a polling
  loop, each interpreted by both pollers) and \<open>byte_order\<close> (the two encodings of UTF-16).

  \<^bold>\<open>What is shown.\<close>
  \<^item> \<open>Handshake\<close>: the two tasks refine a sequential worker, no page is fetched while a batch is in hand,
    there is no deadlock. \<open>Acked_Loop\<close> builds on that: it composes the model of a loop, which takes the
    acknowledgements as arguments, with the processor that gives them.
  \<^item> \<open>Transaction_Runs\<close>, \<open>Signed_Extrinsics\<close>: over any run of the transaction worker, no nonce of a key is
    used twice while its chain has work, a scan submits every row it shows once and in order, and
    what is submitted is signed with the key, for the chain and with the call of its row.
  \<^item> \<open>Extrinsic_Check\<close>: what the daemon signs for a transaction passes the verifier for 64 blocks; what it
    signs to abandon one commits to a block hash that the runtime does not use, unless the number of
    the block is a multiple of four.
  \<^item> \<open>Tx_Processor\<close>, \<open>Tx_Batches\<close>: for one batch, exactly which rows are signed and with which nonce,
    the cache it leaves, the requests it makes, its outcome, and when it returns. \<open>Fuel_Tank\<close>: the
    dispatch is rebuilt with only its settings replaced, its arguments ending where the metadata says
    they end; the visitor accepts bounded values only.
  \<^item> \<open>Tx_Polling\<close>, \<open>Wallet_Polling\<close>, \<open>Wallet_Service\<close>, \<open>Retry\<close>, \<open>Retry_Wait\<close>: no storm of requests,
    left work is retried after a bounded delay, a wallet scan registers every row it shows with the
    key that later signs for it.
  \<^item> \<open>Notices\<close>, \<open>Daemon\<close>, \<open>Pusher_Session\<close>, \<open>Work_Trigger\<close>: what Pusher announces becomes notifications of
    the right worker, each is followed by a lookup or still waits, outages are covered by a lookup at
    the next subscription, silence is noticed, a flapping connection backs off, and the text of a
    Pusher error does not contain the credential.
  \<^item> \<open>Seed_Safety\<close>, \<open>Crypto\<close>, \<open>Startup\<close>, \<open>Env_Loader\<close>: a seed is never lost or overwritten, with the one
    exception stated; an encrypted seed decrypts; \<open>print-seed\<close> prints the seed alone; the exit status of
    the process, for every way it can start and end; a UTF-16 environment file is transcoded.

  \<^bold>\<open>Bounds.\<close> No definition needs fuel: a loop of a task runs over the list of its inputs, so a theorem about
  all lists covers every finite run, and the loops within a step (frames of a handshake, words of a
  message, requests of a batch, items of a value) recurse on what they consume.

  \<^bold>\<open>Hypotheses on third-party code.\<close> Cryptography, SCALE and metadata decoding, signing, JSON and number
  formatting are parameters. Where a theorem needs more than that they are functions, it says so by
  name: \<open>lawful_crypto\<close> (decryption inverts encryption, parsing inverts printing), \<open>documented_config\<close>
  (a \<open>SubstrateConfig\<close> answers what its builder was given), \<open>documented_retry\<close> (\<open>backon\<close> repeats a
  failed request), \<open>documented_scale\<close> (compact numbers decode from the front, an era is two bytes),
  \<open>signs_extrinsics\<close> (\<open>subxt\<close> signs the call, the extra and the implicit data of a client's chain), and in
  \<open>signed_call_is_the_payload\<close> that metadata finds a call by its names. A witness with a concrete instance
  goes with each. The lemmas that a test passes name what the test takes for granted.

  \<^bold>\<open>Not modelled.\<close> \<open>graphql.rs\<close> consists of derive attributes: the message types are generated from the schema
  at build time, and those the daemon uses are records of the theories that use them. What \<open>clap\<close> makes of
  the command line is a parameter. Sending a request, the socket, the clock, spawning tasks, the file system below the operations of
  \<open>Seed_Store\<close>, and the parsing of the environment file by \<open>dotenvy\<close> are what the inputs and parameters
  stand for. Log lines are left out, except where they carry a secret or are what a theorem counts
  (the line of a signature). The mutex of a trigger and the locks of \<open>global.rs\<close> make their operations
  atomic, as each is here. Of the unit tests, those of \<open>fuel_tank.rs\<close> are left out, which decode calls
  with the metadata files of \<open>tests/fixtures\<close> (loaded by \<open>test_fixtures.rs\<close>), and
  \<open>managed_wallet_addresses_are_stable\<close>, which compares the addresses of one seed under sr25519. The
  deployment files and the container are not part of the running program.
\<close>

end
